(* ===== verification/Prelude.thy ===== *)
theory Prelude
  imports Complex_Main "HOL-Library.Sublist"
begin

text \<open>
  Shared vocabulary of the development: the sequential programs that run inside one database
  session (a state, an exception or a value), the rules that carry facts through them, updates of
  table rows, and the generic transition-system interface of the state machines.
\<close>

named_theorems frame_rules \<open>rules that carry a relation between start and end state through a program\<close>
named_theorems raise_rules \<open>rules that bound the exceptions a program raises\<close>
named_theorems keep_rules \<open>rules that carry an invariant through the successful runs of a program\<close>

section \<open>Programs over a state that may raise\<close>

text \<open>
  A Python call that reads and writes the session and may raise is a function from the state to
  either the exception or the value, together with the state it leaves behind. The state is kept
  when an exception is raised, because it is what a later rollback starts from.
\<close>

type_synonym ('s, 'e, 'a) prog = "'s \<Rightarrow> ('e + 'a) \<times> 's"

definition ret :: "'a \<Rightarrow> ('s, 'e, 'a) prog" where
  "ret a = (\<lambda>s. (Inr a, s))"

definition raise :: "'e \<Rightarrow> ('s, 'e, 'a) prog" where
  "raise e = (\<lambda>s. (Inl e, s))"

definition gets :: "('s \<Rightarrow> 'a) \<Rightarrow> ('s, 'e, 'a) prog" where
  "gets f = (\<lambda>s. (Inr (f s), s))"

definition bnd :: "('s, 'e, 'a) prog \<Rightarrow> ('a \<Rightarrow> ('s, 'e, 'b) prog) \<Rightarrow> ('s, 'e, 'b) prog" where
  "bnd m f = (\<lambda>s. case m s of (Inl e, t) \<Rightarrow> (Inl e, t) | (Inr a, t) \<Rightarrow> f a t)"

primrec for_each :: "('a \<Rightarrow> ('s, 'e, 'b) prog) \<Rightarrow> 'a list \<Rightarrow> ('s, 'e, unit) prog" where
  "for_each f [] = ret ()"
| "for_each f (x # xs) = bnd (f x) (\<lambda>_. for_each f xs)"

lemma ret_apply [simp]: "ret a s = (Inr a, s)"
  by (simp add: ret_def)

lemma raise_apply [simp]: "raise e s = (Inl e, s)"
  by (simp add: raise_def)

lemma gets_apply [simp]: "gets f s = (Inr (f s), s)"
  by (simp add: gets_def)

lemma bnd_Inr_iff: "bnd m f s = (Inr b, u) \<longleftrightarrow> (\<exists>a t. m s = (Inr a, t) \<and> f a t = (Inr b, u))"
  by (auto simp: bnd_def split: prod.splits sum.splits)

lemma bnd_Inl_iff:
  "bnd m f s = (Inl e, u) \<longleftrightarrow>
     m s = (Inl e, u) \<or> (\<exists>a t. m s = (Inr a, t) \<and> f a t = (Inl e, u))"
  by (auto simp: bnd_def split: prod.splits sum.splits)

lemma bnd_apply_Inr: "m s = (Inr a, t) \<Longrightarrow> bnd m f s = f a t"
  by (simp add: bnd_def)

lemma bnd_apply_Inl: "m s = (Inl e, t) \<Longrightarrow> bnd m f s = (Inl e, t)"
  by (simp add: bnd_def)

lemma bnd_gets [simp]: "bnd (gets g) f s = f (g s) s"
  by (simp add: bnd_def)

lemma bnd_ret [simp]: "bnd (ret a) f s = f a s"
  by (simp add: bnd_def)

lemma bnd_raise [simp]: "bnd (raise e) f s = (Inl e, s)"
  by (simp add: bnd_def)

lemma bnd_assoc: "bnd (bnd m f) g = bnd m (\<lambda>a. bnd (f a) g)"
  by (rule ext) (auto simp: bnd_def split: prod.splits sum.splits)

subsection \<open>Relations kept by every run, whether it returns or raises\<close>

definition stays :: "('s \<Rightarrow> 's \<Rightarrow> bool) \<Rightarrow> ('s, 'e, 'a) prog \<Rightarrow> bool" where
  "stays R m \<longleftrightarrow> (\<forall>s. R s (snd (m s)))"

lemma staysD: "stays R m \<Longrightarrow> m s = (r, t) \<Longrightarrow> R s t"
  unfolding stays_def by (metis snd_conv)

lemma staysI: "(\<And>s r t. m s = (r, t) \<Longrightarrow> R s t) \<Longrightarrow> stays R m"
  unfolding stays_def by (simp add: prod_eq_iff)

locale step_preorder =
  fixes R :: "'s \<Rightarrow> 's \<Rightarrow> bool"
  assumes R_refl: "R s s"
    and R_trans: "R s t \<Longrightarrow> R t u \<Longrightarrow> R s u"
begin

lemma stays_ret: "stays R (ret a)"
  by (simp add: stays_def R_refl)

lemma stays_raise: "stays R (raise e)"
  by (simp add: stays_def R_refl)

lemma stays_gets: "stays R (gets f)"
  by (simp add: stays_def R_refl)

lemma stays_bnd: "stays R m \<Longrightarrow> (\<And>a. stays R (f a)) \<Longrightarrow> stays R (bnd m f)"
  unfolding stays_def bnd_def
  by (auto split: prod.splits sum.splits) (metis R_trans snd_conv)+

lemma stays_for_each: "(\<And>x. stays R (f x)) \<Longrightarrow> stays R (for_each f xs)"
  by (induction xs) (auto intro: stays_ret stays_bnd)

lemma stays_if: "stays R m \<Longrightarrow> stays R n \<Longrightarrow> stays R (if b then m else n)"
  by simp

lemma stays_case_option:
  "stays R m \<Longrightarrow> (\<And>x. stays R (f x)) \<Longrightarrow> stays R (case o1 of None \<Rightarrow> m | Some x \<Rightarrow> f x)"
  by (cases o1) auto

lemma stays_case_prod: "(\<And>a b. stays R (f a b)) \<Longrightarrow> stays R (case p of (a, b) \<Rightarrow> f a b)"
  by (cases p) simp

lemmas stays_rules =
  stays_ret stays_raise stays_gets stays_bnd stays_for_each stays_if stays_case_option
  stays_case_prod

end

subsection \<open>Invariants kept by the successful runs\<close>

definition keeps :: "('s \<Rightarrow> bool) \<Rightarrow> ('s, 'e, 'a) prog \<Rightarrow> bool" where
  "keeps I m \<longleftrightarrow> (\<forall>s a t. I s \<longrightarrow> m s = (Inr a, t) \<longrightarrow> I t)"

lemma keepsI: "(\<And>s a t. I s \<Longrightarrow> m s = (Inr a, t) \<Longrightarrow> I t) \<Longrightarrow> keeps I m"
  by (auto simp: keeps_def)

lemma keepsD: "keeps I m \<Longrightarrow> m s = (Inr a, t) \<Longrightarrow> I s \<Longrightarrow> I t"
  by (auto simp: keeps_def)

lemma keeps_ret [keep_rules]: "keeps I (ret a)"
  by (auto intro: keepsI)

lemma keeps_raise [keep_rules]: "keeps I (raise e)"
  by (auto intro: keepsI)

lemma keeps_gets [keep_rules]: "keeps I (gets f)"
  by (auto intro: keepsI)

lemma keeps_bnd [keep_rules]: "keeps I m \<Longrightarrow> (\<And>a. keeps I (f a)) \<Longrightarrow> keeps I (bnd m f)"
  unfolding keeps_def bnd_Inr_iff by blast

lemma keeps_for_each [keep_rules]: "(\<And>x. keeps I (f x)) \<Longrightarrow> keeps I (for_each f xs)"
  by (induction xs) (auto intro: keep_rules)

lemma keeps_conj: "keeps I m \<Longrightarrow> keeps J m \<Longrightarrow> keeps (\<lambda>s. I s \<and> J s) m"
  by (auto simp: keeps_def)

subsection \<open>Which exceptions a program raises\<close>

definition raises_only :: "('e \<Rightarrow> bool) \<Rightarrow> ('s, 'e, 'a) prog \<Rightarrow> bool" where
  "raises_only P m \<longleftrightarrow> (\<forall>s x t. m s = (Inl x, t) \<longrightarrow> P x)"

lemma raises_onlyD: "raises_only P m \<Longrightarrow> m s = (Inl x, t) \<Longrightarrow> P x"
  by (auto simp: raises_only_def)

lemma raises_only_basic [raise_rules]:
  "raises_only P (ret a)" "raises_only P (gets f)"
  by (simp_all add: raises_only_def)

lemma raises_only_raise [raise_rules]: "P e \<Longrightarrow> raises_only P (raise e)"
  by (simp add: raises_only_def)

lemma raises_only_bnd [raise_rules]:
  "raises_only P m \<Longrightarrow> (\<And>a. raises_only P (f a)) \<Longrightarrow> raises_only P (bnd m f)"
  unfolding raises_only_def bnd_Inl_iff by blast

lemma raises_only_for_each [raise_rules]:
  "(\<And>x. raises_only P (f x)) \<Longrightarrow> raises_only P (for_each f xs)"
  by (induction xs) (auto intro: raise_rules)

lemma raises_only_if [raise_rules]:
  "raises_only P m \<Longrightarrow> raises_only P n \<Longrightarrow> raises_only P (if b then m else n)"
  by simp

lemma raises_only_case_option [raise_rules]:
  "raises_only P m \<Longrightarrow> (\<And>x. raises_only P (f x)) \<Longrightarrow>
    raises_only P (case o1 of None \<Rightarrow> m | Some x \<Rightarrow> f x)"
  by (cases o1) auto

lemma raises_only_case_prod [raise_rules]:
  "(\<And>a b. raises_only P (f a b)) \<Longrightarrow> raises_only P (case p of (a, b) \<Rightarrow> f a b)"
  by (cases p) simp

section \<open>Rows of a table\<close>

text \<open>An SQL UPDATE of the rows that satisfy a condition.\<close>

definition upd_where :: "('r \<Rightarrow> bool) \<Rightarrow> ('r \<Rightarrow> 'r) \<Rightarrow> 'r list \<Rightarrow> 'r list" where
  "upd_where P f rs = map (\<lambda>r. if P r then f r else r) rs"

lemma upd_where_simps [simp]:
  "upd_where P f [] = []"
  "upd_where P f (r # rs) = (if P r then f r else r) # upd_where P f rs"
  "upd_where P f (rs @ qs) = upd_where P f rs @ upd_where P f qs"
  "length (upd_where P f rs) = length rs"
  by (simp_all add: upd_where_def)

lemma set_upd_where: "set (upd_where P f rs) = f ` {r \<in> set rs. P r} \<union> {r \<in> set rs. \<not> P r}"
  by (auto simp: upd_where_def)

lemma in_upd_whereE:
  assumes "q \<in> set (upd_where P f rs)"
  obtains r where "r \<in> set rs" and "q = (if P r then f r else r)"
  using assms by (auto simp: upd_where_def)

lemma map_upd_where:
  "(\<And>r. r \<in> set rs \<Longrightarrow> P r \<Longrightarrow> g (f r) = g r) \<Longrightarrow> map g (upd_where P f rs) = map g rs"
  by (auto simp: upd_where_def)

lemma filter_upd_where:
  "(\<And>r. r \<in> set rs \<Longrightarrow> P r \<Longrightarrow> Q (f r) = Q r) \<Longrightarrow>
    filter Q (upd_where P f rs) = upd_where P f (filter Q rs)"
  by (induction rs) auto

lemma upd_where_None: "(\<And>r. r \<in> set rs \<Longrightarrow> \<not> P r) \<Longrightarrow> upd_where P f rs = rs"
  by (induction rs) auto

text \<open>The first constraint, by name, that a statement violates.\<close>

definition violation :: "(string \<times> bool) list \<Rightarrow> string option" where
  "violation cs = map_option fst (find snd cs)"

lemma violation_Nil [simp]: "violation [] = None"
  by (simp add: violation_def)

lemma violation_Cons [simp]: "violation ((n, b) # cs) = (if b then Some n else violation cs)"
  by (simp add: violation_def)

lemma find_SomeD: "find P xs = Some x \<Longrightarrow> x \<in> set xs \<and> P x"
  by (auto simp: find_Some_iff)

lemma violation_Some: "violation cs = Some c \<Longrightarrow> c \<in> fst ` set cs"
  by (force simp: violation_def dest: find_SomeD)

lemma find_None_iff': "find P xs = None \<longleftrightarrow> (\<forall>x \<in> set xs. \<not> P x)"
  by (auto simp: find_None_iff)

lemma find_append: "find P (xs @ ys) = (case find P xs of None \<Rightarrow> find P ys | Some x \<Rightarrow> Some x)"
  by (induction xs) auto

lemma distinct_map_eq: "distinct (map f xs) \<Longrightarrow> x \<in> set xs \<Longrightarrow> y \<in> set xs \<Longrightarrow> f x = f y \<Longrightarrow> x = y"
  by (auto simp: distinct_map dest: inj_onD)

lemma find_key_unique:
  "distinct (map f xs) \<Longrightarrow> x \<in> set xs \<Longrightarrow> f x = k \<Longrightarrow> find (\<lambda>r. f r = k) xs = Some x"
  by (induction xs) auto

lemma filter_key_unique:
  "distinct (map f xs) \<Longrightarrow> x \<in> set xs \<Longrightarrow> filter (\<lambda>r. f r = f x) xs = [x]"
proof (induction xs)
  case (Cons y xs)
  then show ?case
  proof (cases "y = x")
    case True
    with Cons.prems have "f x \<notin> f ` set xs" by simp
    then have "filter (\<lambda>r. f r = f x) xs = []"
      unfolding filter_empty_conv by (metis imageI)
    with True show ?thesis by simp
  next
    case False
    with Cons show ?thesis by auto
  qed
qed simp

section \<open>Transition systems\<close>

text \<open>
  The shape of every state machine below: a start condition, a step relation and an invariant that
  the start has and every step keeps. The client's fact is that every state a run reaches has it.
\<close>

locale invariant_system =
  fixes start :: "'s \<Rightarrow> bool"
    and step :: "'s \<Rightarrow> 's \<Rightarrow> bool"
    and inv :: "'s \<Rightarrow> bool"
  assumes start_inv: "start s \<Longrightarrow> inv s"
    and step_inv: "inv s \<Longrightarrow> step s t \<Longrightarrow> inv t"
begin

lemma run_inv: "inv s \<Longrightarrow> step\<^sup>*\<^sup>* s t \<Longrightarrow> inv t"
  by (rotate_tac, induction rule: rtranclp_induct) (auto intro: step_inv)

lemma reachable_inv: "start s \<Longrightarrow> step\<^sup>*\<^sup>* s t \<Longrightarrow> inv t"
  by (blast intro: run_inv start_inv)

end

end
