(* ===== verification/Settings.thy ===== *)
theory Settings
  imports Prelude
begin

text \<open>
  src/shared/config.py: the settings with their defaults and the database URL. The percent-encoding
  that the URL uses (urllib's quote_plus and urlencode) is Python's standard library; it works on
  the UTF-8 bytes of the string, and a HOL char is a byte.
\<close>

record settings =
  mssql_host :: string
  mssql_port :: int
  mssql_user :: string
  mssql_password :: string
  mssql_db :: string
  odbc_driver :: string
  db_pool_size :: int
  db_max_overflow :: int
  db_pool_timeout :: int
  db_pool_recycle :: int
  redis_url :: string
  stream_name :: string
  stream_maxlen :: int
  consumer_group :: string
  dedupe_ttl_seconds :: int
  buffer_max_batch :: int
  buffer_flush_ms :: int
  buffer_queue_size :: int
  backpressure_max_lag :: int
  backpressure_probe_ms :: int
  consumer_batch_size :: int
  consumer_block_ms :: int
  consumer_idle_reclaim_ms :: int
  consumer_max_delivery :: int
  erp_base_url :: string
  erp_timeout_seconds :: rat
  dispatch_batch_size :: int
  dispatch_poll_interval_ms :: int
  dispatch_max_attempts :: int
  dispatch_backoff_base_seconds :: rat
  dispatch_backoff_max_seconds :: rat
  erp_failure_rate :: rat
  erp_latency_ms :: int
  log_level :: string

definition default_settings :: settings where
  "default_settings = \<lparr>
     mssql_host = ''mssql'', mssql_port = 1433, mssql_user = ''sa'',
     mssql_password = ''Str0ng@Pass2026'', mssql_db = ''ecommerce_ops'',
     odbc_driver = ''ODBC Driver 18 for SQL Server'',
     db_pool_size = 8, db_max_overflow = 0, db_pool_timeout = 30, db_pool_recycle = 1800,
     redis_url = ''redis://redis:6379/0'', stream_name = ''events:ingest'',
     stream_maxlen = 1000000, consumer_group = ''cg-persist'', dedupe_ttl_seconds = 86400,
     buffer_max_batch = 500, buffer_flush_ms = 5, buffer_queue_size = 20000,
     backpressure_max_lag = 100000, backpressure_probe_ms = 500,
     consumer_batch_size = 500, consumer_block_ms = 1000, consumer_idle_reclaim_ms = 60000,
     consumer_max_delivery = 5,
     erp_base_url = ''http://erp-mock:8000'', erp_timeout_seconds = 5,
     dispatch_batch_size = 50, dispatch_poll_interval_ms = 500, dispatch_max_attempts = 5,
     dispatch_backoff_base_seconds = 1, dispatch_backoff_max_seconds = 60,
     erp_failure_rate = 1 / 4, erp_latency_ms = 40, log_level = ''INFO'' \<rparr>"

text \<open>\<open>Field(default=0.25, ge=0.0, le=1.0)\<close>: the one validated setting.\<close>

definition settings_valid :: "settings \<Rightarrow> bool" where
  "settings_valid s \<longleftrightarrow> 0 \<le> erp_failure_rate s \<and> erp_failure_rate s \<le> 1"

section \<open>Percent-encoding (urllib.parse)\<close>

definition unreserved :: "char \<Rightarrow> bool" where
  "unreserved c \<longleftrightarrow>
     (let n = of_char c :: nat in
        (65 \<le> n \<and> n \<le> 90) \<or> (97 \<le> n \<and> n \<le> 122) \<or> (48 \<le> n \<and> n \<le> 57))
     \<or> c \<in> {CHR ''_'', CHR ''.'', CHR ''-'', CHR ''~''}"

definition hex_digit :: "nat \<Rightarrow> char" where
  "hex_digit n = (if n < 10 then char_of (48 + n) else char_of (55 + n))"

definition quote_char :: "char \<Rightarrow> string" where
  "quote_char c =
     (if c = CHR '' '' then ''+''
      else if unreserved c then [c]
      else [CHR ''%'', hex_digit (of_char c div 16), hex_digit (of_char c mod 16)])"

definition quote_plus :: "string \<Rightarrow> string" where
  "quote_plus s = concat (map quote_char s)"

definition hex_value :: "char \<Rightarrow> nat" where
  "hex_value c = (let n = of_char c :: nat in if n < 65 then n - 48 else n - 55)"

fun unquote_plus :: "string \<Rightarrow> string" where
  "unquote_plus [] = []"
| "unquote_plus (c # cs) =
     (if c = CHR ''+'' then CHR '' '' # unquote_plus cs
      else if c = CHR ''%'' then
        (case cs of
           a # b # ds \<Rightarrow> char_of (16 * hex_value a + hex_value b) # unquote_plus ds
         | _ \<Rightarrow> c # unquote_plus cs)
      else c # unquote_plus cs)"

definition urlencode :: "(string \<times> string) list \<Rightarrow> string" where
  "urlencode kvs =
     concat (case map (\<lambda>(k, v). quote_plus k @ ''='' @ quote_plus v) kvs of
               [] \<Rightarrow> [] | x # xs \<Rightarrow> x # map (\<lambda>y. ''&'' @ y) xs)"

section \<open>The database URL\<close>

text \<open>The decimal digits of a natural number, as \<open>str\<close> prints them.\<close>

fun nat_str :: "nat \<Rightarrow> string" where
  "nat_str n =
     (if n < 10 then [char_of (48 + n)] else nat_str (n div 10) @ [char_of (48 + n mod 10)])"

declare nat_str.simps [simp del]

definition int_str :: "int \<Rightarrow> string" where
  "int_str i = (if i < 0 then CHR ''-'' # nat_str (nat (- i)) else nat_str (nat i))"

definition build_url :: "settings \<Rightarrow> string \<Rightarrow> string" where
  "build_url s database =
     (let query = urlencode [(''driver'', odbc_driver s), (''TrustServerCertificate'', ''yes''),
                             (''Encrypt'', ''yes'')] in
      ''mssql+pyodbc://'' @ mssql_user s @ '':'' @ quote_plus (mssql_password s)
      @ ''@'' @ mssql_host s @ '':'' @ int_str (mssql_port s) @ ''/'' @ database @ ''?'' @ query)"

definition database_url :: "settings \<Rightarrow> string" where
  "database_url s = build_url s (mssql_db s)"

definition master_url :: "settings \<Rightarrow> string" where
  "master_url s = build_url s ''master''"

section \<open>Facts about the encoding\<close>

lemma hex_value_digit: "n < 16 \<Longrightarrow> hex_value (hex_digit n) = n"
  by (auto simp: hex_value_def hex_digit_def Let_def of_char_of)

lemma unreserved_not_special: "unreserved c \<Longrightarrow> c \<noteq> CHR ''+'' \<and> c \<noteq> CHR ''%'' \<and> c \<noteq> CHR '' ''"
  by (auto simp: unreserved_def Let_def)

lemma unquote_quote_char: "unquote_plus (quote_char c @ s) = c # unquote_plus s"
proof -
  have "16 * ((of_char c :: nat) div 16) + of_char c mod 16 = of_char c"
    by simp
  moreover have "(of_char c :: nat) div 16 < 16"
    using nat_of_char_less_256 [of c] by linarith
  ultimately show ?thesis
    using unreserved_not_special [of c]
    by (auto simp: quote_char_def hex_value_digit simp del: mult_div_mod_eq)
qed

lemma unquote_quote_plus: "unquote_plus (quote_plus s) = s"
  by (induction s) (auto simp: quote_plus_def unquote_quote_char)

definition url_safe :: "char \<Rightarrow> bool" where
  "url_safe c \<longleftrightarrow> unreserved c \<or> c = CHR ''+'' \<or> c = CHR ''%''"

lemma unreserved_hex_digit: "n < 16 \<Longrightarrow> unreserved (hex_digit n)"
  by (auto simp: unreserved_def hex_digit_def Let_def of_char_of)

lemma quote_char_safe: "c \<in> set (quote_char d) \<Longrightarrow> url_safe c"
proof -
  have "(of_char d :: nat) div 16 < 16"
    using nat_of_char_less_256 [of d] by linarith
  then show "c \<in> set (quote_char d) \<Longrightarrow> url_safe c"
    by (auto simp: quote_char_def url_safe_def unreserved_hex_digit split: if_splits)
qed

lemma quote_plus_safe: "c \<in> set (quote_plus s) \<Longrightarrow> url_safe c"
  by (auto simp: quote_plus_def dest: quote_char_safe)

text \<open>
  C21. A password cannot break the database URL: whatever bytes it has, its encoded form contains
  no URL delimiter, so the only \<open>@\<close> between the user and the host is the one the code writes,
  and decoding the encoded form gives the password back.
\<close>

theorem password_survives_url:
  "\<exists>pre post. build_url s database = pre @ quote_plus (mssql_password s) @ ''@'' @ post
     \<and> pre = ''mssql+pyodbc://'' @ mssql_user s @ '':''
     \<and> set (quote_plus (mssql_password s)) \<inter> {CHR ''@'', CHR '':'', CHR ''/'', CHR ''?'', CHR ''#''} = {}
     \<and> unquote_plus (quote_plus (mssql_password s)) = mssql_password s"
proof -
  have "set (quote_plus (mssql_password s)) \<inter> {CHR ''@'', CHR '':'', CHR ''/'', CHR ''?'', CHR ''#''} = {}"
    by (auto dest!: quote_plus_safe simp: url_safe_def unreserved_def Let_def)
  then show ?thesis
    by (simp add: build_url_def Let_def unquote_quote_plus)
qed

section \<open>Decimal digits read back\<close>

definition digits_value :: "string \<Rightarrow> nat" where
  "digits_value s = foldl (\<lambda>a c. a * 10 + (of_char c - 48)) 0 s"

lemma digits_value_snoc: "digits_value (s @ [c]) = digits_value s * 10 + (of_char c - 48)"
  by (simp add: digits_value_def)

lemma digits_value_nat_str: "digits_value (nat_str n) = n"
proof (induction n rule: nat_str.induct)
  case (1 n)
  show ?case
  proof (cases "n < 10")
    case True
    then show ?thesis by (subst nat_str.simps) (simp add: digits_value_def of_char_of)
  next
    case False
    then have "digits_value (nat_str (n div 10)) = n div 10" using 1 by simp
    with False show ?thesis
      by (subst nat_str.simps) (simp add: digits_value_snoc of_char_of)
  qed
qed

lemma nat_str_chars: "c \<in> set (nat_str n) \<Longrightarrow> \<exists>d < 10. c = char_of (48 + d :: nat)"
proof (induction n rule: nat_str.induct)
  case (1 n)
  then show ?case by (subst (asm) nat_str.simps) (auto split: if_splits intro: exI [of _ "n mod 10"])
qed

lemma nat_str_not_Nil: "nat_str n \<noteq> []"
  by (subst nat_str.simps) simp

lemma nat_str_no_minus: "CHR ''-'' \<notin> set (nat_str n)"
proof
  assume "CHR ''-'' \<in> set (nat_str n)"
  then obtain d where d: "d < 10" "CHR ''-'' = char_of (48 + d :: nat)" using nat_str_chars by blast
  then have "(of_char (CHR ''-'') :: nat) = of_char (char_of (48 + d :: nat) :: char)" by simp
  with d(1) show False by (simp add: of_char_of)
qed

lemma int_str_inj:
  assumes "int_str a = int_str b"
  shows "a = b"
proof -
  have minus: "nat_str m \<noteq> CHR ''-'' # xs" "CHR ''-'' # xs \<noteq> nat_str m" for m xs
    using nat_str_no_minus [of m] by (metis list.set_intros(1))+
  have inj: "nat_str m = nat_str n \<longleftrightarrow> m = n" for m n
    by (metis digits_value_nat_str)
  show ?thesis
    using assms by (cases "a < 0"; cases "b < 0") (simp_all add: int_str_def minus inj)
qed

end
