(* ===== verification/Enums.thy ===== *)
theory Enums
  imports Prelude
begin

text \<open>
  src/shared/domain/enums.py: the enumerations of the domain with their wire values, the terminal
  order statuses and the table of allowed order transitions. Python's three enumerations reuse the
  member names PENDING and APPROVED, so the constructors carry a prefix per enumeration.
\<close>

datatype event_type = CLIENT_UPSERTED | ORDER_CREATED | PAYMENT_UPDATED | INVOICE_ISSUED

fun event_type_value :: "event_type \<Rightarrow> string" where
  "event_type_value CLIENT_UPSERTED = ''client.upserted''"
| "event_type_value ORDER_CREATED = ''order.created''"
| "event_type_value PAYMENT_UPDATED = ''payment.updated''"
| "event_type_value INVOICE_ISSUED = ''invoice.issued''"

definition event_types :: "event_type list" where
  "event_types = [CLIENT_UPSERTED, ORDER_CREATED, PAYMENT_UPDATED, INVOICE_ISSUED]"

text \<open>\<open>EventType(value)\<close>: the member with that value; None is the ValueError.\<close>

definition event_type_of :: "string \<Rightarrow> event_type option" where
  "event_type_of v = find (\<lambda>t. event_type_value t = v) event_types"

datatype order_status = OrdPENDING | OrdAPPROVED | OrdINVOICED | OrdCANCELLED

fun order_status_value :: "order_status \<Rightarrow> string" where
  "order_status_value OrdPENDING = ''PENDING''"
| "order_status_value OrdAPPROVED = ''APPROVED''"
| "order_status_value OrdINVOICED = ''INVOICED''"
| "order_status_value OrdCANCELLED = ''CANCELLED''"

definition order_statuses :: "order_status list" where
  "order_statuses = [OrdPENDING, OrdAPPROVED, OrdINVOICED, OrdCANCELLED]"

definition order_status_of :: "string \<Rightarrow> order_status option" where
  "order_status_of v = find (\<lambda>t. order_status_value t = v) order_statuses"

definition terminal_order_statuses :: "string set" where
  "terminal_order_statuses = {''APPROVED'', ''INVOICED'', ''CANCELLED''}"

definition is_terminal :: "order_status \<Rightarrow> bool" where
  "is_terminal s \<longleftrightarrow> order_status_value s \<in> terminal_order_statuses"

fun allowed_order_transitions :: "order_status \<Rightarrow> order_status set" where
  "allowed_order_transitions OrdPENDING = {OrdAPPROVED, OrdCANCELLED}"
| "allowed_order_transitions OrdAPPROVED = {OrdINVOICED, OrdCANCELLED}"
| "allowed_order_transitions OrdINVOICED = {}"
| "allowed_order_transitions OrdCANCELLED = {}"

datatype payment_method = PIX | CREDIT_CARD | BOLETO

fun payment_method_value :: "payment_method \<Rightarrow> string" where
  "payment_method_value PIX = ''PIX''"
| "payment_method_value CREDIT_CARD = ''CREDIT_CARD''"
| "payment_method_value BOLETO = ''BOLETO''"

datatype payment_status = PayPENDING | PayAUTHORIZED | PayAPPROVED | PayREFUSED | PayREFUNDED

fun payment_status_value :: "payment_status \<Rightarrow> string" where
  "payment_status_value PayPENDING = ''PENDING''"
| "payment_status_value PayAUTHORIZED = ''AUTHORIZED''"
| "payment_status_value PayAPPROVED = ''APPROVED''"
| "payment_status_value PayREFUSED = ''REFUSED''"
| "payment_status_value PayREFUNDED = ''REFUNDED''"

datatype outbox_status = ObPENDING | ObIN_FLIGHT | ObSENT | ObDLQ

fun outbox_status_value :: "outbox_status \<Rightarrow> string" where
  "outbox_status_value ObPENDING = ''PENDING''"
| "outbox_status_value ObIN_FLIGHT = ''IN_FLIGHT''"
| "outbox_status_value ObSENT = ''SENT''"
| "outbox_status_value ObDLQ = ''DLQ''"

datatype processed_event_status = EvDONE | EvFAILED

fun processed_event_status_value :: "processed_event_status \<Rightarrow> string" where
  "processed_event_status_value EvDONE = ''DONE''"
| "processed_event_status_value EvFAILED = ''FAILED''"

section \<open>The order of the order statuses\<close>

text \<open>
  The life cycle runs one way. As a linear order on the statuses, every allowed transition goes
  strictly up, so no sequence of transitions comes back to a status it left.
\<close>

fun order_status_rank :: "order_status \<Rightarrow> nat" where
  "order_status_rank OrdPENDING = 0"
| "order_status_rank OrdAPPROVED = 1"
| "order_status_rank OrdINVOICED = 2"
| "order_status_rank OrdCANCELLED = 3"

lemma order_status_rank_inj: "order_status_rank a = order_status_rank b \<Longrightarrow> a = b"
  by (cases a; cases b) auto

instantiation order_status :: linorder
begin

definition less_eq_order_status :: "order_status \<Rightarrow> order_status \<Rightarrow> bool" where
  "less_eq_order_status a b \<longleftrightarrow> order_status_rank a \<le> order_status_rank b"

definition less_order_status :: "order_status \<Rightarrow> order_status \<Rightarrow> bool" where
  "less_order_status a b \<longleftrightarrow> order_status_rank a < order_status_rank b"

instance
  by standard
    (auto simp: less_eq_order_status_def less_order_status_def dest: order_status_rank_inj)

end

lemma allowed_transition_less: "t \<in> allowed_order_transitions s \<Longrightarrow> s < t"
  by (cases s) (auto simp: less_order_status_def)

lemma allowed_transition_terminal: "t \<in> allowed_order_transitions s \<Longrightarrow> is_terminal t"
  by (cases s) (auto simp: is_terminal_def terminal_order_statuses_def)

lemma is_terminal_iff: "is_terminal s \<longleftrightarrow> s \<noteq> OrdPENDING"
  by (cases s) (auto simp: is_terminal_def terminal_order_statuses_def)

lemma order_status_of_value [simp]: "order_status_of (order_status_value s) = Some s"
  by (cases s) (auto simp: order_status_of_def order_statuses_def)

lemma event_type_of_value [simp]: "event_type_of (event_type_value t) = Some t"
  by (cases t) (auto simp: event_type_of_def event_types_def)

lemma event_type_of_Some: "event_type_of v = Some t \<Longrightarrow> v = event_type_value t"
  by (auto simp: event_type_of_def find_Some_iff)

lemma order_status_of_Some: "order_status_of v = Some t \<Longrightarrow> v = order_status_value t"
  by (auto simp: order_status_of_def find_Some_iff)

text \<open>The steps of an order: any sequence of allowed transitions.\<close>

definition order_step :: "order_status \<Rightarrow> order_status \<Rightarrow> bool" where
  "order_step s t \<longleftrightarrow> t \<in> allowed_order_transitions s"

lemma order_steps_less: "order_step\<^sup>+\<^sup>+ s t \<Longrightarrow> s < t"
  by (induction rule: tranclp_induct)
    (auto simp: order_step_def dest!: allowed_transition_less intro: less_trans)

text \<open>
  The order life cycle is acyclic and closed orders stay closed: after one or more allowed
  transitions the status is strictly later than it was and is terminal, so no order returns to
  PENDING or to any status it has left; INVOICED and CANCELLED are the statuses with no way out,
  and a status is terminal exactly when it is not PENDING.
\<close>

lemma order_life_cycle:
  "(order_step\<^sup>+\<^sup>+ s t \<longrightarrow> s < t \<and> is_terminal t \<and> \<not> order_step\<^sup>+\<^sup>+ t s)
   \<and> ((\<exists>u. order_step s u) \<longleftrightarrow> s \<notin> {OrdINVOICED, OrdCANCELLED})
   \<and> (is_terminal s \<longleftrightarrow> s \<noteq> OrdPENDING)"
proof -
  have "is_terminal t" if "order_step\<^sup>+\<^sup>+ s t"
    using that by cases (auto simp: order_step_def dest: allowed_transition_terminal)
  moreover have "(\<exists>u. order_step s u) \<longleftrightarrow> s \<notin> {OrdINVOICED, OrdCANCELLED}"
    by (cases s) (auto simp: order_step_def)
  ultimately show ?thesis
    by (auto simp: is_terminal_iff dest!: order_steps_less)
qed

lemma order_life_cycle_example:
  "order_step\<^sup>+\<^sup>+ OrdPENDING OrdINVOICED \<and> OrdPENDING < OrdINVOICED \<and> \<not> order_step\<^sup>+\<^sup>+ OrdINVOICED OrdPENDING"
proof -
  have "order_step OrdPENDING OrdAPPROVED" and "order_step OrdAPPROVED OrdINVOICED"
    by (simp_all add: order_step_def)
  then have run: "order_step\<^sup>+\<^sup>+ OrdPENDING OrdINVOICED"
    by (rule tranclp.trancl_into_trancl [OF tranclp.r_into_trancl])
  with order_life_cycle [of OrdPENDING OrdINVOICED] show ?thesis by blast
qed

end
