(* ===== verification/Events.thy ===== *)
theory Events
  imports Enums
begin

text \<open>
  src/shared/domain/events.py: the event envelope and the four payloads, with the constraints their
  fields declare. Turning the raw JSON object of an envelope into typed fields is pydantic's work
  and a parameter (a function into \<open>option\<close>, None for a decoding error); the declared constraints
  on the typed fields are modelled here. Amounts are in units of one ten-thousandth, the finest that
  \<open>decimal_places=4\<close> accepts.
\<close>

type_synonym money = int
type_synonym ts = int

text \<open>
  A Python datetime: the wall-clock reading and the UTC offset, if it has one, both in
  microseconds. \<open>replace(tzinfo=None)\<close> drops the offset and keeps the reading.
\<close>

record pydatetime =
  wall :: ts
  utc_offset :: "int option"

definition naive :: "pydatetime \<Rightarrow> ts" where
  "naive d = wall d"

definition instant_utc :: "pydatetime \<Rightarrow> ts" where
  "instant_utc d = wall d - (case utc_offset d of None \<Rightarrow> 0 | Some off \<Rightarrow> off)"

section \<open>The payloads\<close>

record 'd envelope =
  ev_event_id :: string
  ev_event_type :: event_type
  ev_occurred_at :: pydatetime
  ev_partner :: string
  ev_data :: 'd

record address_payload =
  ap_address_uid :: string
  ap_street :: string
  ap_number :: string
  ap_complement :: "string option"
  ap_district :: string
  ap_city :: string
  ap_state :: string
  ap_zip_code :: string

record client_upserted =
  cu_client_uid :: string
  cu_full_name :: string
  cu_document :: string
  cu_email :: string
  cu_address :: address_payload

record order_item_payload =
  oi_sku :: string
  oi_description :: string
  oi_quantity :: int
  oi_unit_price :: money

record order_created =
  oc_order_uid :: string
  oc_client_uid :: string
  oc_shipping_address_uid :: string
  oc_billing_address_uid :: "string option"
  oc_currency :: string
  oc_placed_at :: pydatetime
  oc_items :: "order_item_payload list"

record payment_updated =
  pu_order_uid :: string
  pu_provider :: string
  pu_provider_tx_id :: string
  pu_method :: payment_method
  pu_status :: payment_status
  pu_amount :: money
  pu_occurred_at :: pydatetime

record invoice_issued =
  ii_order_uid :: string
  ii_invoice_number :: string
  ii_series :: string
  ii_access_key :: string
  ii_issued_at :: pydatetime
  ii_total_amount :: money

section \<open>The declared constraints\<close>

definition len_between :: "nat \<Rightarrow> nat \<Rightarrow> string \<Rightarrow> bool" where
  "len_between lo hi s \<longleftrightarrow> lo \<le> length s \<and> length s \<le> hi"

text \<open>
  \<open>Money\<close>: at most 19 digits of which 4 are decimals, and not negative.
\<close>

definition money_ok :: "money \<Rightarrow> bool" where
  "money_ok m \<longleftrightarrow> 0 \<le> m \<and> m < 10 ^ 19"

definition envelope_ok :: "'d envelope \<Rightarrow> bool" where
  "envelope_ok e \<longleftrightarrow> len_between 8 64 (ev_event_id e) \<and> len_between 1 40 (ev_partner e)"

definition address_payload_ok :: "address_payload \<Rightarrow> bool" where
  "address_payload_ok a \<longleftrightarrow>
     len_between 1 64 (ap_address_uid a) \<and> length (ap_street a) \<le> 160
     \<and> length (ap_number a) \<le> 20
     \<and> (case ap_complement a of None \<Rightarrow> True | Some c \<Rightarrow> length c \<le> 80)
     \<and> length (ap_district a) \<le> 80 \<and> length (ap_city a) \<le> 80
     \<and> len_between 2 2 (ap_state a) \<and> len_between 8 8 (ap_zip_code a)"

definition client_upserted_ok :: "client_upserted \<Rightarrow> bool" where
  "client_upserted_ok c \<longleftrightarrow>
     len_between 1 64 (cu_client_uid c) \<and> length (cu_full_name c) \<le> 160
     \<and> len_between 11 14 (cu_document c) \<and> length (cu_email c) \<le> 160
     \<and> address_payload_ok (cu_address c)"

definition order_item_ok :: "order_item_payload \<Rightarrow> bool" where
  "order_item_ok i \<longleftrightarrow>
     length (oi_sku i) \<le> 40 \<and> length (oi_description i) \<le> 200
     \<and> 0 < oi_quantity i \<and> money_ok (oi_unit_price i)"

definition order_created_ok :: "order_created \<Rightarrow> bool" where
  "order_created_ok c \<longleftrightarrow>
     len_between 1 64 (oc_order_uid c) \<and> len_between 1 64 (oc_client_uid c)
     \<and> len_between 1 64 (oc_shipping_address_uid c) \<and> len_between 3 3 (oc_currency c)
     \<and> oc_items c \<noteq> [] \<and> (\<forall>i \<in> set (oc_items c). order_item_ok i)"

definition payment_updated_ok :: "payment_updated \<Rightarrow> bool" where
  "payment_updated_ok p \<longleftrightarrow>
     len_between 1 64 (pu_order_uid p) \<and> length (pu_provider p) \<le> 40
     \<and> length (pu_provider_tx_id p) \<le> 80 \<and> money_ok (pu_amount p)"

definition invoice_issued_ok :: "invoice_issued \<Rightarrow> bool" where
  "invoice_issued_ok i \<longleftrightarrow>
     len_between 1 64 (ii_order_uid i) \<and> length (ii_invoice_number i) \<le> 40
     \<and> length (ii_series i) \<le> 10 \<and> length (ii_access_key i) \<le> 44
     \<and> money_ok (ii_total_amount i)"

text \<open>
  The validator \<open>_upper\<close> of the address runs after the length constraints. Python's
  \<open>str.upper\<close> on the ASCII letters; other bytes stay as they are.
\<close>

definition upper_char :: "char \<Rightarrow> char" where
  "upper_char c = (let n = of_char c :: nat in if 97 \<le> n \<and> n \<le> 122 then char_of (n - 32) else c)"

definition str_upper :: "string \<Rightarrow> string" where
  "str_upper s = map upper_char s"

definition address_normalised :: "address_payload \<Rightarrow> address_payload" where
  "address_normalised a = a\<lparr>ap_state := str_upper (ap_state a)\<rparr>"

section \<open>\<open>model_validate\<close>: decode, then check the constraints, then normalise\<close>

text \<open>
  The decoders of the payload models (pydantic) and the fingerprint of an envelope (the SHA-256 of
  pydantic's \<open>model_dump_json\<close>), collected as the outside functions of the ingestion side.
\<close>

record 'd outside =
  dec_client :: "'d \<Rightarrow> client_upserted option"
  dec_order :: "'d \<Rightarrow> order_created option"
  dec_payment :: "'d \<Rightarrow> payment_updated option"
  dec_invoice :: "'d \<Rightarrow> invoice_issued option"
  fingerprint :: "'d envelope \<Rightarrow> string"

definition validate_client :: "'d outside \<Rightarrow> 'd \<Rightarrow> client_upserted option" where
  "validate_client w d =
     (case dec_client w d of
        None \<Rightarrow> None
      | Some c \<Rightarrow>
          if client_upserted_ok c then Some (c\<lparr>cu_address := address_normalised (cu_address c)\<rparr>)
          else None)"

definition validate_order :: "'d outside \<Rightarrow> 'd \<Rightarrow> order_created option" where
  "validate_order w d =
     (case dec_order w d of None \<Rightarrow> None | Some c \<Rightarrow> if order_created_ok c then Some c else None)"

definition validate_payment :: "'d outside \<Rightarrow> 'd \<Rightarrow> payment_updated option" where
  "validate_payment w d =
     (case dec_payment w d of None \<Rightarrow> None | Some c \<Rightarrow> if payment_updated_ok c then Some c else None)"

definition validate_invoice :: "'d outside \<Rightarrow> 'd \<Rightarrow> invoice_issued option" where
  "validate_invoice w d =
     (case dec_invoice w d of None \<Rightarrow> None | Some c \<Rightarrow> if invoice_issued_ok c then Some c else None)"

text \<open>\<open>OrderCreatedData.total_amount\<close>: the amount is computed from the items, never received.\<close>

definition total_amount :: "order_created \<Rightarrow> money" where
  "total_amount c = (\<Sum>i \<leftarrow> oc_items c. oi_unit_price i * oi_quantity i)"

section \<open>Facts\<close>

lemma length_str_upper [simp]: "length (str_upper s) = length s"
  by (simp add: str_upper_def)

lemma address_normalised_ok: "address_payload_ok a \<Longrightarrow> address_payload_ok (address_normalised a)"
  by (auto simp: address_payload_ok_def address_normalised_def len_between_def)

lemma validate_client_ok: "validate_client w d = Some c \<Longrightarrow> client_upserted_ok c"
  by (auto simp: validate_client_def client_upserted_ok_def address_normalised_ok
      split: option.splits if_splits)

lemma validate_order_ok: "validate_order w d = Some c \<Longrightarrow> order_created_ok c"
  by (auto simp: validate_order_def split: option.splits if_splits)

lemma validate_payment_ok: "validate_payment w d = Some c \<Longrightarrow> payment_updated_ok c"
  by (auto simp: validate_payment_def split: option.splits if_splits)

lemma validate_invoice_ok: "validate_invoice w d = Some c \<Longrightarrow> invoice_issued_ok c"
  by (auto simp: validate_invoice_def split: option.splits if_splits)

lemma total_amount_nonneg: "order_created_ok c \<Longrightarrow> 0 \<le> total_amount c"
  unfolding total_amount_def
  by (rule sum_list_nonneg) (auto simp: order_created_ok_def order_item_ok_def money_ok_def)

end
