(* ===== verification/Schema.thy ===== *)
theory Schema
  imports Events
begin

text \<open>
  The database: src/shared/db/models.py and the migrations 0001 (tables and constraints) and 0002
  (triggers). A table is the list of its rows in insertion order with its IDENTITY counter; an
  INSERT checks the declared column sizes and constraints and an UPDATE or DELETE of a table with a
  trigger runs the trigger. SQL statements are the code's own; what the server chooses by itself
  (timestamps, faults) is a parameter. String equality is exact, as under a binary collation.
\<close>

section \<open>Exceptions\<close>

text \<open>
  The exceptions the program raises or lets through; the argument is the text of the exception.
\<close>

datatype exn =
    DependencyNotReadyError string
  | IntegrityError string
  | DataError string
  | TriggerError nat string
  | ValidationError string
  | KeyError string
  | AttributeError string
  | OperationalError string
  | IndexError
  | ResponseError string
  | RedisError string
  | ErpTemporaryError string
  | ErpPermanentError string
  | JSONDecodeError string
  | BufferFullError string

section \<open>Rows\<close>

record client_row =
  cl_client_id :: int
  cl_client_uid :: string
  cl_full_name :: string
  cl_document :: string
  cl_email :: string
  cl_created_at :: ts
  cl_updated_at :: ts

record address_row =
  ad_address_id :: int
  ad_address_uid :: string
  ad_client_id :: int
  ad_street :: string
  ad_number :: string
  ad_complement :: "string option"
  ad_district :: string
  ad_city :: string
  ad_state :: string
  ad_zip_code :: string
  ad_valid_from :: ts
  ad_valid_to :: "ts option"
  ad_is_current :: bool

record order_row =
  or_order_id :: int
  or_order_uid :: string
  or_client_id :: int
  or_shipping_address_id :: int
  or_billing_address_id :: int
  or_status :: order_status
  or_currency :: string
  or_total_amount :: money
  or_placed_at :: ts
  or_closed_at :: "ts option"
  or_source_event_id :: string
  or_created_at :: ts

record item_row =
  it_order_item_id :: int
  it_order_id :: int
  it_sku :: string
  it_description :: string
  it_quantity :: int
  it_unit_price :: money
  it_line_total :: money

record payment_row =
  pa_payment_id :: int
  pa_order_id :: int
  pa_provider :: string
  pa_provider_tx_id :: string
  pa_method :: payment_method
  pa_status :: payment_status
  pa_amount :: money
  pa_authorized_at :: "ts option"
  pa_approved_at :: "ts option"
  pa_created_at :: ts

record invoice_row =
  in_invoice_id :: int
  in_order_id :: int
  in_invoice_number :: string
  in_series :: string
  in_access_key :: string
  in_issued_at :: ts
  in_total_amount :: money
  in_status :: string
  in_created_at :: ts

record processed_event_row =
  pe_event_id :: string
  pe_event_type :: string
  pe_payload_hash :: string
  pe_status :: processed_event_status
  pe_attempt_count :: int
  pe_processed_at :: ts

text \<open>
  The outbox payload is JSON text. It is kept as the tree that \<open>json.dumps\<close> prints and
  \<open>json.loads\<close> reads; \<open>JDec\<close> and \<open>JTime\<close> stand for the texts that \<open>str\<close> of a
  Decimal and \<open>isoformat\<close> of a datetime give.
\<close>

datatype json =
    JNull
  | JBool bool
  | JStr string
  | JInt int
  | JDec money
  | JTime ts
  | JObj "(string \<times> json) list"
  | JArr "json list"

record outbox_row =
  ob_outbox_id :: int
  ob_aggregate_type :: string
  ob_aggregate_id :: string
  ob_event_type :: string
  ob_payload :: json
  ob_status :: outbox_status
  ob_attempts :: int
  ob_next_attempt_at :: ts
  ob_locked_by :: "string option"
  ob_locked_at :: "ts option"
  ob_last_error :: "string option"
  ob_created_at :: ts
  ob_sent_at :: "ts option"

record db =
  clients :: "client_row list"
  addresses :: "address_row list"
  orders :: "order_row list"
  order_items :: "item_row list"
  payments :: "payment_row list"
  invoices :: "invoice_row list"
  processed_events :: "processed_event_row list"
  outbox :: "outbox_row list"
  client_seq :: int
  address_seq :: int
  order_seq :: int
  item_seq :: int
  payment_seq :: int
  invoice_seq :: int
  outbox_seq :: int

text \<open>Migration 0001 creates empty tables, with IDENTITY counters that start at 1.\<close>

definition empty_db :: db where
  "empty_db = \<lparr>clients = [], addresses = [], orders = [], order_items = [], payments = [],
     invoices = [], processed_events = [], outbox = [], client_seq = 1, address_seq = 1,
     order_seq = 1, item_seq = 1, payment_seq = 1, invoice_seq = 1, outbox_seq = 1\<rparr>"

text \<open>
  A rollback restores the rows; SQL Server does not take IDENTITY values back, so the counters stay
  where the rolled-back transaction left them.
\<close>

definition rollback :: "db \<Rightarrow> db \<Rightarrow> db" where
  "rollback before after =
     before\<lparr>client_seq := client_seq after, address_seq := address_seq after,
       order_seq := order_seq after, item_seq := item_seq after, payment_seq := payment_seq after,
       invoice_seq := invoice_seq after, outbox_seq := outbox_seq after\<rparr>"

text \<open>
  The clocks that stamp the rows of one transaction: the application's \<open>utcnow()\<close> and the
  server's SYSUTCDATETIME, each read once.
\<close>

record clock =
  app_now :: ts
  db_now :: ts

type_synonym 'a sess = "(db, exn, 'a) prog"

section \<open>Column sizes\<close>

definition numeric_19_4 :: "money \<Rightarrow> bool" where
  "numeric_19_4 m \<longleftrightarrow> - (10 ^ 19) < m \<and> m < 10 ^ 19"

definition int32 :: "int \<Rightarrow> bool" where
  "int32 i \<longleftrightarrow> - (2 ^ 31) \<le> i \<and> i < 2 ^ 31"

definition client_fits :: "client_row \<Rightarrow> bool" where
  "client_fits r \<longleftrightarrow>
     length (cl_client_uid r) \<le> 64 \<and> length (cl_full_name r) \<le> 160
     \<and> length (cl_document r) \<le> 14 \<and> length (cl_email r) \<le> 160"

definition address_fits :: "address_row \<Rightarrow> bool" where
  "address_fits r \<longleftrightarrow>
     length (ad_address_uid r) \<le> 64 \<and> length (ad_street r) \<le> 160 \<and> length (ad_number r) \<le> 20
     \<and> (case ad_complement r of None \<Rightarrow> True | Some c \<Rightarrow> length c \<le> 80)
     \<and> length (ad_district r) \<le> 80 \<and> length (ad_city r) \<le> 80
     \<and> length (ad_state r) \<le> 2 \<and> length (ad_zip_code r) \<le> 8"

definition order_fits :: "order_row \<Rightarrow> bool" where
  "order_fits r \<longleftrightarrow>
     length (or_order_uid r) \<le> 64 \<and> length (or_currency r) \<le> 3
     \<and> numeric_19_4 (or_total_amount r) \<and> length (or_source_event_id r) \<le> 64"

definition item_fits :: "item_row \<Rightarrow> bool" where
  "item_fits r \<longleftrightarrow>
     length (it_sku r) \<le> 40 \<and> length (it_description r) \<le> 200 \<and> int32 (it_quantity r)
     \<and> numeric_19_4 (it_unit_price r) \<and> numeric_19_4 (it_line_total r)"

definition payment_fits :: "payment_row \<Rightarrow> bool" where
  "payment_fits r \<longleftrightarrow>
     length (pa_provider r) \<le> 40 \<and> length (pa_provider_tx_id r) \<le> 80 \<and> numeric_19_4 (pa_amount r)"

definition invoice_fits :: "invoice_row \<Rightarrow> bool" where
  "invoice_fits r \<longleftrightarrow>
     length (in_invoice_number r) \<le> 40 \<and> length (in_series r) \<le> 10
     \<and> length (in_access_key r) \<le> 44 \<and> numeric_19_4 (in_total_amount r)"

definition processed_event_fits :: "processed_event_row \<Rightarrow> bool" where
  "processed_event_fits r \<longleftrightarrow>
     length (pe_event_id r) \<le> 64 \<and> length (pe_event_type r) \<le> 40 \<and> length (pe_payload_hash r) \<le> 64"

definition outbox_fits :: "outbox_row \<Rightarrow> bool" where
  "outbox_fits r \<longleftrightarrow>
     length (ob_aggregate_type r) \<le> 40 \<and> length (ob_aggregate_id r) \<le> 64
     \<and> length (ob_event_type r) \<le> 40"

section \<open>Triggers (migration 0002)\<close>

definition closed_row :: "order_row \<Rightarrow> bool" where
  "closed_row r \<longleftrightarrow> or_status r \<in> {OrdAPPROVED, OrdINVOICED, OrdCANCELLED}"

definition protected_columns_differ :: "order_row \<Rightarrow> order_row \<Rightarrow> bool" where
  "protected_columns_differ i d \<longleftrightarrow>
     or_total_amount i \<noteq> or_total_amount d \<or> or_client_id i \<noteq> or_client_id d
     \<or> or_shipping_address_id i \<noteq> or_shipping_address_id d
     \<or> or_billing_address_id i \<noteq> or_billing_address_id d
     \<or> or_order_uid i \<noteq> or_order_uid d \<or> or_currency i \<noteq> or_currency d
     \<or> or_placed_at i \<noteq> or_placed_at d"

text \<open>TR_orders_block_retroactive_change, over the pseudo-tables \<open>deleted\<close> and \<open>inserted\<close>.\<close>

definition orders_trigger_fires :: "order_row list \<Rightarrow> order_row list \<Rightarrow> bool" where
  "orders_trigger_fires deleted inserted \<longleftrightarrow>
     (\<exists>d \<in> set deleted. closed_row d \<and>
        ((\<forall>i \<in> set inserted. or_order_id i \<noteq> or_order_id d)
         \<or> (\<exists>i \<in> set inserted. or_order_id i = or_order_id d \<and> protected_columns_differ i d)))"

text \<open>TR_order_items_block_retroactive_change.\<close>

definition items_trigger_fires :: "order_row list \<Rightarrow> item_row list \<Rightarrow> item_row list \<Rightarrow> bool" where
  "items_trigger_fires os deleted inserted \<longleftrightarrow>
     (\<exists>r \<in> set os. closed_row r \<and>
        or_order_id r \<in> it_order_id ` (set inserted \<union> set deleted))"

definition retroactive_order :: exn where
  "retroactive_order =
     TriggerError 50001 ''Pedido fechado e imutavel: alteracao retroativa bloqueada.''"

definition retroactive_items :: exn where
  "retroactive_items = TriggerError 50002 ''Itens de pedido fechado sao imutaveis.''"

section \<open>Statements\<close>

text \<open>
  The common part of the INSERTs: the IDENTITY counter advances, a value that does not fit its
  column is a DataError, a violated constraint an IntegrityError, otherwise the row is stored.
\<close>

definition checked_insert ::
  "bool \<Rightarrow> string \<Rightarrow> (string \<times> bool) list \<Rightarrow> (db \<Rightarrow> db) \<Rightarrow> (db \<Rightarrow> db) \<Rightarrow> 'r \<Rightarrow> 'r sess" where
  "checked_insert fits table constraints advance put row =
     (\<lambda>d. if \<not> fits then (Inl (DataError table), advance d)
          else (case violation constraints of
                  Some c \<Rightarrow> (Inl (IntegrityError c), advance d)
                | None \<Rightarrow> (Inr row, put (advance d))))"

definition insert_client :: "client_row \<Rightarrow> client_row sess" where
  "insert_client r = (\<lambda>d.
     let row = r\<lparr>cl_client_id := client_seq d\<rparr> in
     checked_insert (client_fits row) ''clients''
       [(''uq_clients_client_uid'', cl_client_uid row \<in> cl_client_uid ` set (clients d))]
       (\<lambda>d. d\<lparr>client_seq := client_seq d + 1\<rparr>)
       (\<lambda>d. d\<lparr>clients := clients d @ [row]\<rparr>) row d)"

definition insert_address :: "address_row \<Rightarrow> address_row sess" where
  "insert_address r = (\<lambda>d.
     let row = r\<lparr>ad_address_id := address_seq d\<rparr> in
     checked_insert (address_fits row) ''address''
       [(''fk_address_client'', ad_client_id row \<notin> cl_client_id ` set (clients d)),
        (''ux_address_uid_current'',
           ad_is_current row \<and>
           (\<exists>a \<in> set (addresses d). ad_is_current a \<and> ad_address_uid a = ad_address_uid row))]
       (\<lambda>d. d\<lparr>address_seq := address_seq d + 1\<rparr>)
       (\<lambda>d. d\<lparr>addresses := addresses d @ [row]\<rparr>) row d)"

definition insert_order :: "order_row \<Rightarrow> order_row sess" where
  "insert_order r = (\<lambda>d.
     let row = r\<lparr>or_order_id := order_seq d\<rparr> in
     checked_insert (order_fits row) ''orders''
       [(''uq_orders_order_uid'', or_order_uid row \<in> or_order_uid ` set (orders d)),
        (''fk_orders_client'', or_client_id row \<notin> cl_client_id ` set (clients d)),
        (''fk_orders_shipping_address'',
           or_shipping_address_id row \<notin> ad_address_id ` set (addresses d)),
        (''fk_orders_billing_address'',
           or_billing_address_id row \<notin> ad_address_id ` set (addresses d)),
        (''ck_orders_total_positive'', \<not> 0 \<le> or_total_amount row)]
       (\<lambda>d. d\<lparr>order_seq := order_seq d + 1\<rparr>)
       (\<lambda>d. d\<lparr>orders := orders d @ [row]\<rparr>) row d)"

text \<open>The INSERT of an item also runs the trigger of its table.\<close>

definition insert_item :: "item_row \<Rightarrow> item_row sess" where
  "insert_item r = (\<lambda>d.
     let row = r\<lparr>it_order_item_id := item_seq d\<rparr> in
     bnd (checked_insert (item_fits row) ''order_items''
            [(''fk_order_items_order'', it_order_id row \<notin> or_order_id ` set (orders d))]
            (\<lambda>d. d\<lparr>item_seq := item_seq d + 1\<rparr>)
            (\<lambda>d. d\<lparr>order_items := order_items d @ [row]\<rparr>) row)
         (\<lambda>row. if items_trigger_fires (orders d) [] [row] then raise retroactive_items else ret row) d)"

definition insert_payment :: "payment_row \<Rightarrow> payment_row sess" where
  "insert_payment r = (\<lambda>d.
     let row = r\<lparr>pa_payment_id := payment_seq d\<rparr> in
     checked_insert (payment_fits row) ''payment''
       [(''fk_payment_order'', pa_order_id row \<notin> or_order_id ` set (orders d)),
        (''ux_payment_provider_tx'',
           \<exists>p \<in> set (payments d). pa_provider p = pa_provider row
              \<and> pa_provider_tx_id p = pa_provider_tx_id row)]
       (\<lambda>d. d\<lparr>payment_seq := payment_seq d + 1\<rparr>)
       (\<lambda>d. d\<lparr>payments := payments d @ [row]\<rparr>) row d)"

definition insert_invoice :: "invoice_row \<Rightarrow> invoice_row sess" where
  "insert_invoice r = (\<lambda>d.
     let row = r\<lparr>in_invoice_id := invoice_seq d\<rparr> in
     checked_insert (invoice_fits row) ''invoices''
       [(''fk_invoices_order'', in_order_id row \<notin> or_order_id ` set (orders d)),
        (''ux_invoice_order'', in_order_id row \<in> in_order_id ` set (invoices d)),
        (''ux_invoice_number_series'',
           \<exists>v \<in> set (invoices d). in_invoice_number v = in_invoice_number row
              \<and> in_series v = in_series row)]
       (\<lambda>d. d\<lparr>invoice_seq := invoice_seq d + 1\<rparr>)
       (\<lambda>d. d\<lparr>invoices := invoices d @ [row]\<rparr>) row d)"

definition insert_processed_event :: "processed_event_row \<Rightarrow> processed_event_row sess" where
  "insert_processed_event row = (\<lambda>d.
     checked_insert (processed_event_fits row) ''processed_events''
       [(''pk_processed_events'', pe_event_id row \<in> pe_event_id ` set (processed_events d))]
       (\<lambda>d. d)
       (\<lambda>d. d\<lparr>processed_events := processed_events d @ [row]\<rparr>) row d)"

definition insert_outbox :: "outbox_row \<Rightarrow> outbox_row sess" where
  "insert_outbox r = (\<lambda>d.
     let row = r\<lparr>ob_outbox_id := outbox_seq d\<rparr> in
     checked_insert (outbox_fits row) ''outbox'' []
       (\<lambda>d. d\<lparr>outbox_seq := outbox_seq d + 1\<rparr>)
       (\<lambda>d. d\<lparr>outbox := outbox d @ [row]\<rparr>) row d)"

text \<open>
  \<open>UPDATE orders SET f WHERE p\<close>. An IDENTITY column cannot be updated (error 8102); the
  constraints are checked on the table the statement leaves, then the trigger runs.
\<close>

definition update_orders :: "(order_row \<Rightarrow> bool) \<Rightarrow> (order_row \<Rightarrow> order_row) \<Rightarrow> nat sess" where
  "update_orders p f = (\<lambda>d.
     let deleted = filter p (orders d); inserted = map f deleted;
         table = upd_where p f (orders d) in
     if \<exists>r \<in> set deleted. or_order_id (f r) \<noteq> or_order_id r
     then (Inl (TriggerError 8102 ''identity''), d)
     else if \<exists>r \<in> set inserted. \<not> order_fits r then (Inl (DataError ''orders''), d)
     else case violation
         [(''uq_orders_order_uid'', \<not> distinct (map or_order_uid table)),
          (''fk_orders_client'', \<exists>r \<in> set inserted. or_client_id r \<notin> cl_client_id ` set (clients d)),
          (''fk_orders_shipping_address'',
             \<exists>r \<in> set inserted. or_shipping_address_id r \<notin> ad_address_id ` set (addresses d)),
          (''fk_orders_billing_address'',
             \<exists>r \<in> set inserted. or_billing_address_id r \<notin> ad_address_id ` set (addresses d)),
          (''ck_orders_total_positive'', \<exists>r \<in> set inserted. \<not> 0 \<le> or_total_amount r)] of
       Some c \<Rightarrow> (Inl (IntegrityError c), d)
     | None \<Rightarrow>
         if orders_trigger_fires deleted inserted then (Inl retroactive_order, d)
         else (Inr (length deleted), d\<lparr>orders := table\<rparr>))"

definition delete_orders :: "(order_row \<Rightarrow> bool) \<Rightarrow> nat sess" where
  "delete_orders p = (\<lambda>d.
     let deleted = filter p (orders d); ids = or_order_id ` set deleted in
     case violation
         [(''fk_order_items_order'', \<exists>i \<in> set (order_items d). it_order_id i \<in> ids),
          (''fk_payment_order'', \<exists>q \<in> set (payments d). pa_order_id q \<in> ids),
          (''fk_invoices_order'', \<exists>v \<in> set (invoices d). in_order_id v \<in> ids)] of
       Some c \<Rightarrow> (Inl (IntegrityError c), d)
     | None \<Rightarrow>
         if orders_trigger_fires deleted [] then (Inl retroactive_order, d)
         else (Inr (length deleted), d\<lparr>orders := filter (\<lambda>r. \<not> p r) (orders d)\<rparr>))"

definition update_items :: "(item_row \<Rightarrow> bool) \<Rightarrow> (item_row \<Rightarrow> item_row) \<Rightarrow> nat sess" where
  "update_items p f = (\<lambda>d.
     let deleted = filter p (order_items d); inserted = map f deleted in
     if \<exists>r \<in> set deleted. it_order_item_id (f r) \<noteq> it_order_item_id r
     then (Inl (TriggerError 8102 ''identity''), d)
     else if \<exists>r \<in> set inserted. \<not> item_fits r then (Inl (DataError ''order_items''), d)
     else if \<exists>r \<in> set inserted. it_order_id r \<notin> or_order_id ` set (orders d)
     then (Inl (IntegrityError ''fk_order_items_order''), d)
     else if items_trigger_fires (orders d) deleted inserted then (Inl retroactive_items, d)
     else (Inr (length deleted), d\<lparr>order_items := upd_where p f (order_items d)\<rparr>))"

definition delete_items :: "(item_row \<Rightarrow> bool) \<Rightarrow> nat sess" where
  "delete_items p = (\<lambda>d.
     let deleted = filter p (order_items d) in
     if items_trigger_fires (orders d) deleted [] then (Inl retroactive_items, d)
     else (Inr (length deleted), d\<lparr>order_items := filter (\<lambda>r. \<not> p r) (order_items d)\<rparr>))"

text \<open>The tables without a trigger: an UPDATE of rows by primary key, as the ORM issues it.\<close>

definition update_client :: "int \<Rightarrow> (client_row \<Rightarrow> client_row) \<Rightarrow> unit sess" where
  "update_client cid f = (\<lambda>d.
     if \<exists>r \<in> set (clients d). cl_client_id r = cid \<and> \<not> client_fits (f r)
     then (Inl (DataError ''clients''), d)
     else (Inr (), d\<lparr>clients := upd_where (\<lambda>r. cl_client_id r = cid) f (clients d)\<rparr>))"

definition update_address :: "int \<Rightarrow> (address_row \<Rightarrow> address_row) \<Rightarrow> unit sess" where
  "update_address aid f = (\<lambda>d.
     (Inr (), d\<lparr>addresses := upd_where (\<lambda>r. ad_address_id r = aid) f (addresses d)\<rparr>))"

definition update_payment :: "int \<Rightarrow> (payment_row \<Rightarrow> payment_row) \<Rightarrow> unit sess" where
  "update_payment pid f = (\<lambda>d.
     (Inr (), d\<lparr>payments := upd_where (\<lambda>r. pa_payment_id r = pid) f (payments d)\<rparr>))"

definition update_outbox :: "(outbox_row \<Rightarrow> bool) \<Rightarrow> (outbox_row \<Rightarrow> outbox_row) \<Rightarrow> nat sess" where
  "update_outbox p f = (\<lambda>d.
     (Inr (length (filter p (outbox d))), d\<lparr>outbox := upd_where p f (outbox d)\<rparr>))"

end
