(* ===== verification/Repositories.thy ===== *)
theory Repositories
  imports Schema
begin

text \<open>
  src/shared/db/repositories.py: the queries and writes of each repository as programs over the
  session's database. A Python object that the code mutates and flushes is the row that the program
  returns. An UPDATE of a loaded row goes by its primary key.
\<close>

definition max_error_length :: nat where
  "max_error_length = 1000"

section \<open>ClientRepository\<close>

definition clients_get_by_uid :: "string \<Rightarrow> client_row option sess" where
  "clients_get_by_uid uid = gets (\<lambda>d. find (\<lambda>r. cl_client_uid r = uid) (clients d))"

definition clients_insert :: "clock \<Rightarrow> string \<Rightarrow> string \<Rightarrow> string \<Rightarrow> string \<Rightarrow> client_row sess" where
  "clients_insert clk uid full_name document email =
     insert_client \<lparr>cl_client_id = 0, cl_client_uid = uid, cl_full_name = full_name,
       cl_document = document, cl_email = email,
       cl_created_at = db_now clk, cl_updated_at = db_now clk\<rparr>"

definition client_refresh :: "clock \<Rightarrow> string \<Rightarrow> string \<Rightarrow> string \<Rightarrow> client_row \<Rightarrow> client_row" where
  "client_refresh clk full_name document email r =
     r\<lparr>cl_full_name := full_name, cl_document := document, cl_email := email,
       cl_updated_at := app_now clk\<rparr>"

definition clients_upsert :: "clock \<Rightarrow> string \<Rightarrow> string \<Rightarrow> string \<Rightarrow> string \<Rightarrow> client_row sess" where
  "clients_upsert clk uid full_name document email =
     bnd (clients_get_by_uid uid) (\<lambda>client.
       case client of
         None \<Rightarrow> clients_insert clk uid full_name document email
       | Some c \<Rightarrow>
           bnd (update_client (cl_client_id c) (client_refresh clk full_name document email))
             (\<lambda>_. ret (client_refresh clk full_name document email c)))"

section \<open>AddressRepository\<close>

definition addresses_get_current_version :: "string \<Rightarrow> address_row option sess" where
  "addresses_get_current_version uid =
     gets (\<lambda>d. find (\<lambda>r. ad_address_uid r = uid \<and> ad_is_current r) (addresses d))"

definition addresses_get_by_id :: "int \<Rightarrow> address_row option sess" where
  "addresses_get_by_id aid = gets (\<lambda>d. find (\<lambda>r. ad_address_id r = aid) (addresses d))"

text \<open>The comparison of the fields ADDRESS_VERSIONED_FIELDS.\<close>

definition address_differs_from :: "address_row \<Rightarrow> address_payload \<Rightarrow> bool" where
  "address_differs_from a p \<longleftrightarrow>
     ad_street a \<noteq> ap_street p \<or> ad_number a \<noteq> ap_number p
     \<or> ad_complement a \<noteq> ap_complement p \<or> ad_district a \<noteq> ap_district p
     \<or> ad_city a \<noteq> ap_city p \<or> ad_state a \<noteq> ap_state p \<or> ad_zip_code a \<noteq> ap_zip_code p"

definition address_closed :: "ts \<Rightarrow> address_row \<Rightarrow> address_row" where
  "address_closed closed_at r = r\<lparr>ad_valid_to := Some closed_at, ad_is_current := False\<rparr>"

definition addresses_close_version :: "address_row \<Rightarrow> ts \<Rightarrow> unit sess" where
  "addresses_close_version a closed_at = update_address (ad_address_id a) (address_closed closed_at)"

definition addresses_open_version :: "int \<Rightarrow> address_payload \<Rightarrow> ts \<Rightarrow> address_row sess" where
  "addresses_open_version client_id p opened_at =
     insert_address \<lparr>ad_address_id = 0, ad_address_uid = ap_address_uid p, ad_client_id = client_id,
       ad_street = ap_street p, ad_number = ap_number p, ad_complement = ap_complement p,
       ad_district = ap_district p, ad_city = ap_city p, ad_state = ap_state p,
       ad_zip_code = ap_zip_code p, ad_valid_from = opened_at, ad_valid_to = None,
       ad_is_current = True\<rparr>"

definition addresses_upsert_version :: "clock \<Rightarrow> int \<Rightarrow> address_payload \<Rightarrow> address_row sess" where
  "addresses_upsert_version clk client_id p =
     bnd (addresses_get_current_version (ap_address_uid p)) (\<lambda>current.
       case current of
         None \<Rightarrow> addresses_open_version client_id p (app_now clk)
       | Some a \<Rightarrow>
           if \<not> address_differs_from a p then ret a
           else bnd (addresses_close_version a (app_now clk))
                  (\<lambda>_. addresses_open_version client_id p (app_now clk)))"

section \<open>OrderRepository\<close>

definition orders_get_by_uid :: "string \<Rightarrow> order_row option sess" where
  "orders_get_by_uid uid = gets (\<lambda>d. find (\<lambda>r. or_order_uid r = uid) (orders d))"

definition orders_exists :: "string \<Rightarrow> bool sess" where
  "orders_exists uid = gets (\<lambda>d. length (filter (\<lambda>r. or_order_uid r = uid) (orders d)) > 0)"

definition orders_add_items :: "order_row \<Rightarrow> order_item_payload list \<Rightarrow> unit sess" where
  "orders_add_items o1 items =
     for_each (\<lambda>i. insert_item \<lparr>it_order_item_id = 0, it_order_id = or_order_id o1,
       it_sku = oi_sku i, it_description = oi_description i, it_quantity = oi_quantity i,
       it_unit_price = oi_unit_price i, it_line_total = oi_unit_price i * oi_quantity i\<rparr>) items"

definition orders_create ::
  "clock \<Rightarrow> string \<Rightarrow> int \<Rightarrow> int \<Rightarrow> int \<Rightarrow> string \<Rightarrow> money \<Rightarrow> ts \<Rightarrow> string
    \<Rightarrow> order_item_payload list \<Rightarrow> order_row sess" where
  "orders_create clk uid client_id shipping billing currency amount placed_at source_event_id items =
     bnd (insert_order \<lparr>or_order_id = 0, or_order_uid = uid, or_client_id = client_id,
            or_shipping_address_id = shipping, or_billing_address_id = billing,
            or_status = OrdPENDING, or_currency = currency, or_total_amount = amount,
            or_placed_at = placed_at, or_closed_at = None, or_source_event_id = source_event_id,
            or_created_at = db_now clk\<rparr>)
       (\<lambda>o1. bnd (orders_add_items o1 items) (\<lambda>_. ret o1))"

definition transition_is_allowed :: "order_status \<Rightarrow> order_status \<Rightarrow> bool" where
  "transition_is_allowed current target \<longleftrightarrow> target \<in> allowed_order_transitions current"

definition order_moved :: "order_status \<Rightarrow> ts \<Rightarrow> order_row \<Rightarrow> order_row" where
  "order_moved new_status closed_at r = r\<lparr>or_status := new_status, or_closed_at := Some closed_at\<rparr>"

text \<open>The result is the returned Boolean and the order object as the caller sees it afterwards.\<close>

definition orders_transition :: "order_row \<Rightarrow> order_status \<Rightarrow> ts \<Rightarrow> (bool \<times> order_row) sess" where
  "orders_transition o1 new_status closed_at =
     (if \<not> transition_is_allowed (or_status o1) new_status then ret (False, o1)
      else bnd (update_orders (\<lambda>r. or_order_id r = or_order_id o1) (order_moved new_status closed_at))
             (\<lambda>_. ret (True, order_moved new_status closed_at o1)))"

section \<open>PaymentRepository\<close>

definition payments_get_by_provider_transaction :: "string \<Rightarrow> string \<Rightarrow> payment_row option sess" where
  "payments_get_by_provider_transaction provider tx =
     gets (\<lambda>d. find (\<lambda>r. pa_provider r = provider \<and> pa_provider_tx_id r = tx) (payments d))"

text \<open>
  The assignments after the lookup: the status always, \<open>approved_at\<close> only the first time.
\<close>

definition payment_refresh :: "payment_status \<Rightarrow> ts \<Rightarrow> bool \<Rightarrow> payment_row \<Rightarrow> payment_row" where
  "payment_refresh status occurred_at approved r =
     r\<lparr>pa_status := status,
       pa_approved_at := (if approved \<and> pa_approved_at r = None then Some occurred_at
                          else pa_approved_at r)\<rparr>"

definition payments_upsert ::
  "clock \<Rightarrow> int \<Rightarrow> string \<Rightarrow> string \<Rightarrow> payment_method \<Rightarrow> payment_status \<Rightarrow> money \<Rightarrow> ts \<Rightarrow> bool
    \<Rightarrow> (payment_row \<times> bool) sess" where
  "payments_upsert clk order_id provider tx method status amount occurred_at approved =
     bnd (payments_get_by_provider_transaction provider tx) (\<lambda>payment.
       case payment of
         None \<Rightarrow>
           bnd (insert_payment (payment_refresh status occurred_at approved
                  \<lparr>pa_payment_id = 0, pa_order_id = order_id, pa_provider = provider,
                   pa_provider_tx_id = tx, pa_method = method, pa_status = status,
                   pa_amount = amount, pa_authorized_at = None, pa_approved_at = None,
                   pa_created_at = db_now clk\<rparr>))
             (\<lambda>p. ret (p, True))
       | Some p \<Rightarrow>
           bnd (update_payment (pa_payment_id p) (payment_refresh status occurred_at approved))
             (\<lambda>_. ret (payment_refresh status occurred_at approved p, False)))"

definition later_payment :: "payment_row option \<Rightarrow> payment_row \<Rightarrow> payment_row option" where
  "later_payment best p =
     (case best of None \<Rightarrow> Some p
      | Some b \<Rightarrow> if pa_payment_id b < pa_payment_id p then Some p else Some b)"

definition payments_latest_for_order :: "int \<Rightarrow> payment_row option sess" where
  "payments_latest_for_order order_id =
     gets (\<lambda>d. foldl later_payment None (filter (\<lambda>r. pa_order_id r = order_id) (payments d)))"

section \<open>InvoiceRepository\<close>

definition invoices_exists_for_order :: "int \<Rightarrow> bool sess" where
  "invoices_exists_for_order order_id =
     gets (\<lambda>d. length (filter (\<lambda>r. in_order_id r = order_id) (invoices d)) > 0)"

definition invoices_create ::
  "clock \<Rightarrow> int \<Rightarrow> string \<Rightarrow> string \<Rightarrow> string \<Rightarrow> ts \<Rightarrow> money \<Rightarrow> invoice_row sess" where
  "invoices_create clk order_id invoice_number series access_key issued_at amount =
     insert_invoice \<lparr>in_invoice_id = 0, in_order_id = order_id, in_invoice_number = invoice_number,
       in_series = series, in_access_key = access_key, in_issued_at = issued_at,
       in_total_amount = amount, in_status = ''ISSUED'', in_created_at = db_now clk\<rparr>"

section \<open>ProcessedEventRepository\<close>

definition processed_register :: "clock \<Rightarrow> string \<Rightarrow> string \<Rightarrow> string \<Rightarrow> unit sess" where
  "processed_register clk event_id event_type payload_hash =
     bnd (insert_processed_event \<lparr>pe_event_id = event_id, pe_event_type = event_type,
            pe_payload_hash = payload_hash, pe_status = EvDONE, pe_attempt_count = 1,
            pe_processed_at = db_now clk\<rparr>) (\<lambda>_. ret ())"

definition was_processed :: "string \<Rightarrow> bool sess" where
  "was_processed event_id =
     gets (\<lambda>d. find (\<lambda>r. pe_event_id r = event_id) (processed_events d) \<noteq> None)"

section \<open>OutboxRepository\<close>

definition outbox_enqueue :: "clock \<Rightarrow> string \<Rightarrow> string \<Rightarrow> string \<Rightarrow> json \<Rightarrow> outbox_row sess" where
  "outbox_enqueue clk aggregate_type aggregate_id event_type payload =
     insert_outbox \<lparr>ob_outbox_id = 0, ob_aggregate_type = aggregate_type,
       ob_aggregate_id = aggregate_id, ob_event_type = event_type, ob_payload = payload,
       ob_status = ObPENDING, ob_attempts = 0, ob_next_attempt_at = app_now clk,
       ob_locked_by = None, ob_locked_at = None, ob_last_error = None,
       ob_created_at = db_now clk, ob_sent_at = None\<rparr>"

definition outbox_set :: "int \<Rightarrow> (outbox_row \<Rightarrow> outbox_row) \<Rightarrow> unit sess" where
  "outbox_set oid f = bnd (update_outbox (\<lambda>r. ob_outbox_id r = oid) f) (\<lambda>_. ret ())"

definition mark_sent :: "ts \<Rightarrow> int \<Rightarrow> unit sess" where
  "mark_sent now oid =
     outbox_set oid (\<lambda>r. r\<lparr>ob_status := ObSENT, ob_sent_at := Some now, ob_locked_by := None,
       ob_locked_at := None, ob_last_error := None\<rparr>)"

definition mark_retry :: "int \<Rightarrow> ts \<Rightarrow> string \<Rightarrow> unit sess" where
  "mark_retry oid next_attempt_at error =
     outbox_set oid (\<lambda>r. r\<lparr>ob_status := ObPENDING, ob_next_attempt_at := next_attempt_at,
       ob_last_error := Some (take max_error_length error), ob_locked_by := None,
       ob_locked_at := None\<rparr>)"

definition mark_dead_letter :: "int \<Rightarrow> string \<Rightarrow> unit sess" where
  "mark_dead_letter oid error =
     outbox_set oid (\<lambda>r. r\<lparr>ob_status := ObDLQ,
       ob_last_error := Some (take max_error_length error), ob_locked_by := None,
       ob_locked_at := None\<rparr>)"

end
