(* ===== verification/Order_Payload.thy ===== *)
theory Order_Payload
  imports Repositories
begin

text \<open>
  src/shared/domain/order_payload.py: the JSON document that the ERP receives. The related rows of
  the order (client, both addresses, items) are what the ORM loads through its relationships; a
  missing one is the AttributeError on None, modelled as no document.
\<close>

definition json_opt :: "('a \<Rightarrow> json) \<Rightarrow> 'a option \<Rightarrow> json" where
  "json_opt f o1 = (case o1 of None \<Rightarrow> JNull | Some x \<Rightarrow> f x)"

definition order_section :: "order_row \<Rightarrow> json" where
  "order_section o1 = JObj
     [(''order_uid'', JStr (or_order_uid o1)),
      (''status'', JStr (order_status_value (or_status o1))),
      (''currency'', JStr (or_currency o1)),
      (''total_amount'', JDec (or_total_amount o1)),
      (''placed_at'', JTime (or_placed_at o1)),
      (''closed_at'', json_opt JTime (or_closed_at o1))]"

definition customer_section :: "client_row \<Rightarrow> json" where
  "customer_section c = JObj
     [(''client_uid'', JStr (cl_client_uid c)),
      (''full_name'', JStr (cl_full_name c)),
      (''document'', JStr (cl_document c)),
      (''email'', JStr (cl_email c))]"

definition address_section :: "address_row \<Rightarrow> json" where
  "address_section a = JObj
     [(''address_uid'', JStr (ad_address_uid a)),
      (''version_id'', JInt (ad_address_id a)),
      (''street'', JStr (ad_street a)),
      (''number'', JStr (ad_number a)),
      (''complement'', json_opt JStr (ad_complement a)),
      (''district'', JStr (ad_district a)),
      (''city'', JStr (ad_city a)),
      (''state'', JStr (ad_state a)),
      (''zip_code'', JStr (ad_zip_code a))]"

definition item_section :: "item_row \<Rightarrow> json" where
  "item_section i = JObj
     [(''sku'', JStr (it_sku i)),
      (''description'', JStr (it_description i)),
      (''quantity'', JInt (it_quantity i)),
      (''unit_price'', JDec (it_unit_price i)),
      (''line_total'', JDec (it_line_total i))]"

definition payment_section :: "payment_row option \<Rightarrow> json" where
  "payment_section p =
     (case p of
        None \<Rightarrow> JNull
      | Some q \<Rightarrow> JObj
          [(''provider'', JStr (pa_provider q)),
           (''provider_tx_id'', JStr (pa_provider_tx_id q)),
           (''method'', JStr (payment_method_value (pa_method q))),
           (''status'', JStr (payment_status_value (pa_status q))),
           (''amount'', JDec (pa_amount q)),
           (''approved_at'', json_opt JTime (pa_approved_at q))])"

text \<open>The relationships of an order.\<close>

definition order_client :: "db \<Rightarrow> order_row \<Rightarrow> client_row option" where
  "order_client d o1 = find (\<lambda>c. cl_client_id c = or_client_id o1) (clients d)"

definition order_shipping_address :: "db \<Rightarrow> order_row \<Rightarrow> address_row option" where
  "order_shipping_address d o1 = find (\<lambda>a. ad_address_id a = or_shipping_address_id o1) (addresses d)"

definition order_billing_address :: "db \<Rightarrow> order_row \<Rightarrow> address_row option" where
  "order_billing_address d o1 = find (\<lambda>a. ad_address_id a = or_billing_address_id o1) (addresses d)"

definition items_of :: "db \<Rightarrow> order_row \<Rightarrow> item_row list" where
  "items_of d o1 = filter (\<lambda>i. it_order_id i = or_order_id o1) (order_items d)"

definition build_order_payload :: "db \<Rightarrow> order_row \<Rightarrow> payment_row option \<Rightarrow> json option" where
  "build_order_payload d o1 payment =
     (case (order_client d o1, order_shipping_address d o1, order_billing_address d o1) of
        (Some c, Some s, Some b) \<Rightarrow> Some (JObj
          [(''order'', order_section o1),
           (''customer'', customer_section c),
           (''shipping_address'', address_section s),
           (''billing_address'', address_section b),
           (''items'', JArr (map item_section (items_of d o1))),
           (''payment'', payment_section payment)])
      | _ \<Rightarrow> None)"

text \<open>Reading a document: the lookup \<open>doc[key]\<close> and the walk along a path of keys.\<close>

fun json_get :: "string \<Rightarrow> json \<Rightarrow> json option" where
  "json_get k (JObj kvs) = map_of kvs k"
| "json_get k _ = None"

fun json_path :: "string list \<Rightarrow> json \<Rightarrow> json option" where
  "json_path [] j = Some j"
| "json_path (k # ks) j = (case json_get k j of None \<Rightarrow> None | Some v \<Rightarrow> json_path ks v)"

lemma build_order_payload_Some:
  "order_client d o1 = Some c \<Longrightarrow> order_shipping_address d o1 = Some s \<Longrightarrow>
   order_billing_address d o1 = Some b \<Longrightarrow>
   \<exists>j. build_order_payload d o1 p = Some j
     \<and> json_path [''order'', ''order_uid''] j = Some (JStr (or_order_uid o1))
     \<and> json_path [''order'', ''total_amount''] j = Some (JDec (or_total_amount o1))
     \<and> json_path [''shipping_address'', ''version_id''] j = Some (JInt (ad_address_id s))
     \<and> json_path [''items''] j = Some (JArr (map item_section (items_of d o1)))"
  by (auto simp: build_order_payload_def order_section_def address_section_def)

end
