(* ===== verification/Handlers.thy ===== *)
theory Handlers
  imports Order_Payload
begin

text \<open>
  src/ingest_worker/handlers: the registry and the four event handlers, each a program over the
  session that the unit of work opened. A raised exception leaves the handler at once.
\<close>

type_synonym 'd handler = "'d outside \<Rightarrow> clock \<Rightarrow> 'd envelope \<Rightarrow> unit sess"

section \<open>ClientUpsertedHandler\<close>

definition handle_client :: "'d handler" where
  "handle_client w clk e =
     (case validate_client w (ev_data e) of
        None \<Rightarrow> raise (ValidationError ''ClientUpsertedData'')
      | Some c \<Rightarrow>
          bnd (clients_upsert clk (cu_client_uid c) (cu_full_name c) (cu_document c) (cu_email c))
            (\<lambda>client. bnd (addresses_upsert_version clk (cl_client_id client) (cu_address c))
              (\<lambda>_. ret ())))"

section \<open>OrderCreatedHandler\<close>

definition require_current_address :: "string \<Rightarrow> address_row sess" where
  "require_current_address uid =
     bnd (addresses_get_current_version uid) (\<lambda>a.
       case a of
         None \<Rightarrow> raise (DependencyNotReadyError (''endereco '' @ uid @ '' ausente''))
       | Some r \<Rightarrow> ret r)"

text \<open>\<open>not data.billing_address_uid\<close> is true for None and for the empty string.\<close>

definition resolve_billing_address :: "order_created \<Rightarrow> address_row \<Rightarrow> address_row sess" where
  "resolve_billing_address c shipping =
     (case oc_billing_address_uid c of
        None \<Rightarrow> ret shipping
      | Some uid \<Rightarrow>
          if uid = [] \<or> uid = oc_shipping_address_uid c then ret shipping
          else require_current_address uid)"

definition handle_order :: "'d handler" where
  "handle_order w clk e =
     (case validate_order w (ev_data e) of
        None \<Rightarrow> raise (ValidationError ''OrderCreatedData'')
      | Some c \<Rightarrow>
          bnd (orders_exists (oc_order_uid c)) (\<lambda>known.
            if known then ret ()
            else bnd (clients_get_by_uid (oc_client_uid c)) (\<lambda>client.
              case client of
                None \<Rightarrow> raise (DependencyNotReadyError
                          (''cliente '' @ oc_client_uid c @ '' ainda nao ingerido''))
              | Some cl \<Rightarrow>
                  bnd (require_current_address (oc_shipping_address_uid c)) (\<lambda>shipping.
                  bnd (resolve_billing_address c shipping) (\<lambda>billing.
                  bnd (orders_create clk (oc_order_uid c) (cl_client_id cl)
                         (ad_address_id shipping) (ad_address_id billing) (oc_currency c)
                         (total_amount c) (naive (oc_placed_at c)) (ev_event_id e) (oc_items c))
                    (\<lambda>_. ret ()))))))"

section \<open>PaymentUpdatedHandler\<close>

definition require_order :: "string \<Rightarrow> order_row sess" where
  "require_order uid =
     bnd (orders_get_by_uid uid) (\<lambda>o1.
       case o1 of
         None \<Rightarrow> raise (DependencyNotReadyError (''pedido '' @ uid @ '' ainda nao ingerido''))
       | Some r \<Rightarrow> ret r)"

definition record_payment :: "clock \<Rightarrow> order_row \<Rightarrow> payment_updated \<Rightarrow> ts \<Rightarrow> unit sess" where
  "record_payment clk o1 p occurred_at =
     bnd (payments_upsert clk (or_order_id o1) (pu_provider p) (pu_provider_tx_id p) (pu_method p)
            (pu_status p) (pu_amount p) occurred_at (pu_status p = PayAPPROVED))
       (\<lambda>_. ret ())"

definition enqueue_erp_notification :: "clock \<Rightarrow> order_row \<Rightarrow> unit sess" where
  "enqueue_erp_notification clk o1 =
     bnd (payments_latest_for_order (or_order_id o1)) (\<lambda>payment.
     bnd (gets (\<lambda>d. build_order_payload d o1 payment)) (\<lambda>doc.
       case doc of
         None \<Rightarrow> raise (AttributeError ''NoneType'')
       | Some j \<Rightarrow>
           bnd (outbox_enqueue clk ''order'' (or_order_uid o1) ''order.approved'' j) (\<lambda>_. ret ())))"

definition handle_payment :: "'d handler" where
  "handle_payment w clk e =
     (case validate_payment w (ev_data e) of
        None \<Rightarrow> raise (ValidationError ''PaymentUpdatedData'')
      | Some p \<Rightarrow>
          bnd (require_order (pu_order_uid p)) (\<lambda>o1.
          bnd (record_payment clk o1 p (naive (pu_occurred_at p))) (\<lambda>_.
            if pu_status p \<noteq> PayAPPROVED then ret ()
            else bnd (orders_transition o1 OrdAPPROVED (naive (pu_occurred_at p))) (\<lambda>(approved_now, o2).
                   if approved_now then enqueue_erp_notification clk o2 else ret ()))))"

section \<open>InvoiceIssuedHandler\<close>

text \<open>The result of \<open>transition\<close> is not looked at.\<close>

definition handle_invoice :: "'d handler" where
  "handle_invoice w clk e =
     (case validate_invoice w (ev_data e) of
        None \<Rightarrow> raise (ValidationError ''InvoiceIssuedData'')
      | Some v \<Rightarrow>
          bnd (require_order (ii_order_uid v)) (\<lambda>o1.
          bnd (invoices_exists_for_order (or_order_id o1)) (\<lambda>known.
            if known then ret ()
            else bnd (invoices_create clk (or_order_id o1) (ii_invoice_number v) (ii_series v)
                        (ii_access_key v) (naive (ii_issued_at v)) (ii_total_amount v)) (\<lambda>_.
                 bnd (orders_transition o1 OrdINVOICED (naive (ii_issued_at v))) (\<lambda>_. ret ())))))"

section \<open>HandlerRegistry\<close>

text \<open>
  The dictionary comprehension keeps the last handler of a type. \<open>registry_get\<close> raises KeyError
  for a type without one.
\<close>

type_synonym 'd registry = "event_type \<rightharpoonup> 'd handler"

definition handler_registry :: "(event_type \<times> 'd handler) list \<Rightarrow> 'd registry" where
  "handler_registry handlers = map_of (rev handlers)"

definition registry_supports :: "'d registry \<Rightarrow> event_type \<Rightarrow> bool" where
  "registry_supports reg t \<longleftrightarrow> reg t \<noteq> None"

definition registry_get :: "'d registry \<Rightarrow> event_type \<Rightarrow> exn + 'd handler" where
  "registry_get reg t =
     (case reg t of
        None \<Rightarrow> Inl (KeyError (''sem handler registrado para '' @ event_type_value t))
      | Some h \<Rightarrow> Inr h)"

definition build_registry :: "'d registry" where
  "build_registry = handler_registry
     [(CLIENT_UPSERTED, handle_client), (ORDER_CREATED, handle_order),
      (PAYMENT_UPDATED, handle_payment), (INVOICE_ISSUED, handle_invoice)]"

lemma build_registry_eq:
  "build_registry t = Some (case t of
     CLIENT_UPSERTED \<Rightarrow> handle_client | ORDER_CREATED \<Rightarrow> handle_order
   | PAYMENT_UPDATED \<Rightarrow> handle_payment | INVOICE_ISSUED \<Rightarrow> handle_invoice)"
  by (cases t) (simp_all add: build_registry_def handler_registry_def)

lemma build_registry_supports: "registry_supports build_registry t"
  by (simp add: registry_supports_def build_registry_eq)

end
