(* ===== verification/Repo_Invariants.thy ===== *)
theory Repo_Invariants
  imports Db_Invariants
begin

text \<open>
  The repository operations against the database invariant: what each leaves behind when it
  succeeds, and that it keeps \<open>db_ok\<close>. The operations whose parts break the invariant for a
  moment (an order before its items, an approval before its message) are treated as a whole.
\<close>

lemmas db_ok_defs = db_ok_def db_keys_def db_refs_def db_versions_def db_totals_def db_closed_def
  db_notified_def db_fits_def

section \<open>Clients\<close>

lemma insert_client_ok: "keeps db_ok (insert_client r)"
  using insert_client_keys [of r] unfolding keeps_def
  by (auto simp: db_ok_def insert_client_Inr)
    (auto simp: db_versions_def db_totals_def db_closed_def db_notified_def db_fits_def)

lemma client_refresh_key [simp]:
  "cl_client_id (client_refresh clk n dc em r) = cl_client_id r"
  "cl_client_uid (client_refresh clk n dc em r) = cl_client_uid r"
  by (simp_all add: client_refresh_def)

lemma update_client_refresh_ok: "keeps db_ok (update_client cid (client_refresh clk n dc em))"
proof (rule keepsI)
  fix d a d'
  assume ok: "db_ok d" and "update_client cid (client_refresh clk n dc em) d = (Inr a, d')"
  then have d': "d' = d\<lparr>clients := upd_where (\<lambda>r. cl_client_id r = cid) (client_refresh clk n dc em) (clients d)\<rparr>"
    by (blast dest: update_client_Inr)
  have "db_keys d'" and "db_refs d'"
    using db_okD(1,2) [OF ok] d'
    by (simp_all add: db_keys_def db_refs_def keyed_upd_where map_upd_where_same image_upd_where)
  then show "db_ok d'"
    using ok d'
    by (simp add: db_ok_def db_versions_def db_totals_def db_closed_def db_notified_def db_fits_def)
qed

lemma clients_upsert_ok [keep_rules]: "keeps db_ok (clients_upsert clk uid n dc em)"
  unfolding clients_upsert_def clients_get_by_uid_def clients_insert_def
  by (auto intro!: keep_rules insert_client_ok update_client_refresh_ok split: option.splits)

text \<open>After an upsert the client is found under its uid with the new data.\<close>

lemma clients_upsert_lookup:
  assumes "clients_upsert clk uid n dc em d = (Inr c, d')" and "db_keys d"
  shows "find (\<lambda>r. cl_client_uid r = uid) (clients d') = Some c
    \<and> cl_client_uid c = uid \<and> cl_full_name c = n \<and> cl_document c = dc \<and> cl_email c = em"
proof (cases "find (\<lambda>r. cl_client_uid r = uid) (clients d)")
  case None
  with assms show ?thesis
    by (auto simp: clients_upsert_def clients_get_by_uid_def clients_insert_def insert_client_Inr
        find_append)
next
  case (Some c0)
  then have c0: "c0 \<in> set (clients d)" "cl_client_uid c0 = uid"
    by (auto dest: find_SomeD)
  let ?f = "client_refresh clk n dc em"
  from assms(1) Some have c: "c = ?f c0"
    and d': "d' = d\<lparr>clients := upd_where (\<lambda>r. cl_client_id r = cl_client_id c0) ?f (clients d)\<rparr>"
    by (auto simp: clients_upsert_def clients_get_by_uid_def bnd_Inr_iff dest: update_client_Inr)
  have "distinct (map cl_client_uid (clients d'))"
    using assms(2) d' by (simp add: db_keys_def map_upd_where_same)
  moreover have "c \<in> set (clients d')"
    using c0 c d' by (auto simp: set_upd_where)
  ultimately have "find (\<lambda>r. cl_client_uid r = uid) (clients d') = Some c"
    using c c0 by (intro find_key_unique) auto
  with c c0 show ?thesis by (simp add: client_refresh_def)
qed

section \<open>Addresses\<close>

lemma insert_address_ok:
  "ad_is_current r \<longleftrightarrow> ad_valid_to r = None \<Longrightarrow> keeps db_ok (insert_address r)"
  using insert_address_keys [of r] unfolding keeps_def
  by (auto simp: db_ok_def insert_address_Inr)
    (auto simp: db_versions_def db_totals_def db_closed_def db_notified_def db_fits_def)

lemma address_closed_key [simp]:
  "ad_address_id (address_closed t r) = ad_address_id r"
  "ad_client_id (address_closed t r) = ad_client_id r"
  "ad_address_uid (address_closed t r) = ad_address_uid r"
  "ad_is_current (address_closed t r) = False"
  "ad_valid_to (address_closed t r) = Some t"
  by (simp_all add: address_closed_def)

lemma current_uids_closed:
  "distinct (map ad_address_uid (filter ad_is_current rs)) \<Longrightarrow>
   distinct (map ad_address_uid (filter ad_is_current (upd_where P (address_closed t) rs)))"
proof (induction rs)
  case (Cons r rs)
  have sub: "x \<in> set rs" if "x \<in> set (upd_where P (address_closed t) rs)" "ad_is_current x" for x
    using that by (auto simp: set_upd_where)
  show ?case
    using Cons by (auto split: if_splits dest: sub)
qed simp

lemma update_address_closed_ok [keep_rules]: "keeps db_ok (update_address aid (address_closed t))"
proof (rule keepsI)
  fix d a d'
  assume "db_ok d" and "update_address aid (address_closed t) d = (Inr a, d')"
  then have ok: "db_ok d"
    and d': "d' = d\<lparr>addresses := upd_where (\<lambda>r. ad_address_id r = aid) (address_closed t) (addresses d)\<rparr>"
    by (auto simp: update_address_def)
  have "db_versions d'"
    using db_okD(3) [OF ok] d'
    by (auto simp: db_versions_def current_uids_closed set_upd_where)
  moreover have "db_keys d'" "db_refs d'"
    using db_okD(1,2) [OF ok] d'
    by (auto simp: db_keys_def db_refs_def keyed_upd_where image_upd_where)
  ultimately show "db_ok d'"
    using ok d' by (simp add: db_ok_def db_totals_def db_closed_def db_notified_def db_fits_def)
qed

lemma addresses_upsert_version_ok [keep_rules]: "keeps db_ok (addresses_upsert_version clk cid p)"
  unfolding addresses_upsert_version_def addresses_get_current_version_def
    addresses_open_version_def addresses_close_version_def
  by (auto intro!: keep_rules insert_address_ok split: option.splits)

section \<open>Orders\<close>

lemma orders_add_items_Inr:
  assumes "orders_add_items o1 items d = (Inr u, d')"
  shows "\<exists>rows. d' = d\<lparr>item_seq := item_seq d + int (length items), order_items := order_items d @ rows\<rparr>
    \<and> map it_line_total rows = map (\<lambda>i. oi_unit_price i * oi_quantity i) items
    \<and> (\<forall>r \<in> set rows. it_order_id r = or_order_id o1
           \<and> it_line_total r = it_unit_price r * it_quantity r)"
  using assms
proof (induction items arbitrary: d)
  case Nil
  then show ?case by (intro exI [of _ "[]"]) (simp add: orders_add_items_def)
next
  case (Cons i items)
  from Cons.prems obtain row d1 where
    row: "row = \<lparr>it_order_item_id = item_seq d, it_order_id = or_order_id o1,
       it_sku = oi_sku i, it_description = oi_description i, it_quantity = oi_quantity i,
       it_unit_price = oi_unit_price i, it_line_total = oi_unit_price i * oi_quantity i\<rparr>"
    and d1: "d1 = d\<lparr>item_seq := item_seq d + 1, order_items := order_items d @ [row]\<rparr>"
    and rest: "orders_add_items o1 items d1 = (Inr u, d')"
    by (auto simp: orders_add_items_def bnd_Inr_iff insert_item_Inr)
  from Cons.IH [OF rest] obtain rows where
    "d' = d1\<lparr>item_seq := item_seq d1 + int (length items), order_items := order_items d1 @ rows\<rparr>"
    and "map it_line_total rows = map (\<lambda>i. oi_unit_price i * oi_quantity i) items"
    and "\<forall>r \<in> set rows. it_order_id r = or_order_id o1
           \<and> it_line_total r = it_unit_price r * it_quantity r"
    by blast
  with row d1 show ?case by (intro exI [of _ "row # rows"]) simp
qed

lemma orders_create_Inr:
  assumes "orders_create clk uid cid sa ba cur amount pl ev items d = (Inr o1, d')"
  shows "o1 = \<lparr>or_order_id = order_seq d, or_order_uid = uid, or_client_id = cid,
            or_shipping_address_id = sa, or_billing_address_id = ba,
            or_status = OrdPENDING, or_currency = cur, or_total_amount = amount,
            or_placed_at = pl, or_closed_at = None, or_source_event_id = ev,
            or_created_at = db_now clk\<rparr>"
    and "order_fits o1" and "0 \<le> amount" and "uid \<notin> or_order_uid ` set (orders d)"
    and "\<exists>rows. d' = d\<lparr>order_seq := order_seq d + 1, orders := orders d @ [o1],
              item_seq := item_seq d + int (length items), order_items := order_items d @ rows\<rparr>
        \<and> map it_line_total rows = map (\<lambda>i. oi_unit_price i * oi_quantity i) items
        \<and> (\<forall>r \<in> set rows. it_order_id r = or_order_id o1
               \<and> it_line_total r = it_unit_price r * it_quantity r)"
  using assms by (auto simp: orders_create_def bnd_Inr_iff insert_order_Inr dest!: orders_add_items_Inr)

lemma orders_add_items_keys: "keeps (\<lambda>d. db_keys d \<and> db_refs d) (orders_add_items o1 items)"
  unfolding orders_add_items_def by (intro keep_rules insert_item_keys)

lemma orders_create_keys:
  "keeps (\<lambda>d. db_keys d \<and> db_refs d) (orders_create clk uid cid sa ba cur amount pl ev items)"
  unfolding orders_create_def by (intro keep_rules insert_order_keys orders_add_items_keys)

lemma filter_none: "(\<And>x. x \<in> set xs \<Longrightarrow> \<not> P x) \<Longrightarrow> filter P xs = []"
  by (simp add: filter_empty_conv)

lemma orders_create_ok:
  assumes "amount = (\<Sum>i \<leftarrow> items. oi_unit_price i * oi_quantity i)"
  shows "keeps db_ok (orders_create clk uid cid sa ba cur amount pl ev items)"
proof (rule keepsI)
  fix d o1 d'
  assume ok: "db_ok d" and run: "orders_create clk uid cid sa ba cur amount pl ev items d = (Inr o1, d')"
  note o1 = orders_create_Inr(1-4) [OF run]
  obtain rows where
    d': "d' = d\<lparr>order_seq := order_seq d + 1, orders := orders d @ [o1],
              item_seq := item_seq d + int (length items), order_items := order_items d @ rows\<rparr>"
    and lines: "map it_line_total rows = map (\<lambda>i. oi_unit_price i * oi_quantity i) items"
    and rows: "\<forall>r \<in> set rows. it_order_id r = or_order_id o1
           \<and> it_line_total r = it_unit_price r * it_quantity r"
    using orders_create_Inr(5) [OF run] by blast
  have keys: "db_keys d' \<and> db_refs d'"
    using orders_create_keys run db_okD(1,2) [OF ok] by (blast dest: keepsD)
  have id_new: "or_order_id o2 \<noteq> or_order_id o1" if "o2 \<in> set (orders d)" for o2
    using that db_okD(1) [OF ok] o1(1) by (force simp: db_keys_def keyed_def)
  have old_items: "it_order_id i \<noteq> or_order_id o1" if "i \<in> set (order_items d)" for i
    using that db_okD(2) [OF ok] id_new by (force simp: db_refs_def)
  have "order_total_ok (order_items d @ rows) o1"
    using o1(1,3) assms lines rows old_items
    by (simp add: order_total_ok_def filter_none filter_id_conv)
  moreover have "order_total_ok (order_items d @ rows) o2 = order_total_ok (order_items d) o2"
    if "o2 \<in> set (orders d)" for o2
    using id_new [OF that] rows by (auto simp: order_total_ok_def filter_none)
  ultimately have "db_totals d'"
    using db_okD(4) [OF ok] d' rows by (auto simp: db_totals_def)
  moreover have "messages_for (or_order_uid o1) (outbox d) = []"
    using db_okD(6) [OF ok] o1(1,4)
    by (auto simp: db_notified_def messages_for_def filter_empty_conv)
  then have "db_notified d'"
    using db_okD(6) [OF ok] d' o1(1) by (auto simp: db_notified_def)
  ultimately show "db_ok d'"
    using ok d' keys o1(1,2) by (auto simp: db_ok_def db_versions_def db_closed_def db_fits_def)
qed

lemma order_moved_simps [simp]:
  "or_order_id (order_moved s t r) = or_order_id r"
  "or_order_uid (order_moved s t r) = or_order_uid r"
  "or_client_id (order_moved s t r) = or_client_id r"
  "or_shipping_address_id (order_moved s t r) = or_shipping_address_id r"
  "or_billing_address_id (order_moved s t r) = or_billing_address_id r"
  "or_total_amount (order_moved s t r) = or_total_amount r"
  "or_currency (order_moved s t r) = or_currency r"
  "or_placed_at (order_moved s t r) = or_placed_at r"
  "or_source_event_id (order_moved s t r) = or_source_event_id r"
  "or_status (order_moved s t r) = s"
  "or_closed_at (order_moved s t r) = Some t"
  "order_fits (order_moved s t r) = order_fits r"
  by (simp_all add: order_moved_def order_fits_def)

definition orders_after_move :: "order_row \<Rightarrow> order_status \<Rightarrow> ts \<Rightarrow> db \<Rightarrow> db" where
  "orders_after_move o1 st t d =
     d\<lparr>orders := upd_where (\<lambda>r. or_order_id r = or_order_id o1) (order_moved st t) (orders d)\<rparr>"

lemma order_total_okD: "order_total_ok items r \<Longrightarrow> 0 \<le> or_total_amount r"
  by (simp add: order_total_ok_def)

lemma order_total_ok_moved [simp]: "order_total_ok items (order_moved s t r) = order_total_ok items r"
  by (simp add: order_total_ok_def)

lemma order_rows_same:
  assumes "db_keys d" and "r \<in> set (orders d)" and "r' \<in> set (orders d)"
    and "or_order_id r = or_order_id r'"
  shows "r = r'"
proof -
  have "distinct (map or_order_id (orders d))"
    using assms(1) by (simp add: db_keys_def keyed_def)
  then show ?thesis using assms(2-4) by (rule distinct_map_eq)
qed

lemma update_orders_move:
  assumes keys: "db_keys d" and refs: "db_refs d" and fits: "db_fits d" and totals: "db_totals d"
  shows "update_orders (\<lambda>r. or_order_id r = k) (order_moved st t) d =
    (Inr (length (filter (\<lambda>r. or_order_id r = k) (orders d))),
     d\<lparr>orders := upd_where (\<lambda>r. or_order_id r = k) (order_moved st t) (orders d)\<rparr>)"
proof -
  let ?p = "\<lambda>r. or_order_id r = k" and ?f = "order_moved st t"
  note same = order_rows_same [OF keys]
  have trigger: "\<not> orders_trigger_fires (filter ?p (orders d)) (map ?f (filter ?p (orders d)))"
  proof
    assume "orders_trigger_fires (filter ?p (orders d)) (map ?f (filter ?p (orders d)))"
    then obtain r where r: "r \<in> set (filter ?p (orders d))"
      and "(\<forall>i \<in> set (map ?f (filter ?p (orders d))). or_order_id i \<noteq> or_order_id r)
         \<or> (\<exists>r' \<in> set (filter ?p (orders d)). or_order_id r' = or_order_id r
                \<and> protected_columns_differ (?f r') r)"
      unfolding orders_trigger_fires_def by auto
    moreover have "\<not> (\<forall>i \<in> set (map ?f (filter ?p (orders d))). or_order_id i \<noteq> or_order_id r)"
      using r by (auto intro!: bexI [of _ r])
    ultimately obtain r' where r': "r' \<in> set (orders d)" "or_order_id r' = or_order_id r"
      and differ: "protected_columns_differ (?f r') r"
      by auto
    have "r' = r"
      using same [OF r'(1) _ r'(2)] r by simp
    with differ show False by (simp add: protected_columns_differ_def)
  qed
  have uids: "distinct (map or_order_uid (upd_where ?p ?f (orders d)))"
    using keys by (simp add: map_upd_where_same db_keys_def)
  have row1: "order_fits r" "0 \<le> or_total_amount r" if "r \<in> set (orders d)" for r
    using that fits totals by (auto simp: db_fits_def db_totals_def dest: order_total_okD)
  have row2: "or_client_id r \<in> cl_client_id ` set (clients d)"
    "or_shipping_address_id r \<in> ad_address_id ` set (addresses d)"
    "or_billing_address_id r \<in> ad_address_id ` set (addresses d)"
    if "r \<in> set (orders d)" for r
    using that refs by (simp_all add: db_refs_def image_subset_iff)
  from trigger uids show ?thesis
    unfolding update_orders_def Let_def by (simp add: row1 row2)
qed

lemma orders_transition_run:
  assumes "db_keys d" and "db_refs d" and "db_fits d" and "db_totals d"
  shows "orders_transition o1 st t d =
    (if transition_is_allowed (or_status o1) st
     then (Inr (True, order_moved st t o1), orders_after_move o1 st t d)
     else (Inr (False, o1), d))"
  by (simp add: orders_transition_def bnd_def update_orders_move [OF assms] orders_after_move_def)

text \<open>Moving an order that is in the table changes that row and no other.\<close>

lemma orders_after_move_rows:
  assumes "db_keys d" and "o1 \<in> set (orders d)"
  shows "r \<in> set (orders (orders_after_move o1 st t d)) \<longleftrightarrow>
    r = order_moved st t o1 \<or> (r \<in> set (orders d) \<and> r \<noteq> o1)"
proof -
  have same: "r' = o1" if "r' \<in> set (orders d)" "or_order_id r' = or_order_id o1" for r'
    using order_rows_same [OF assms(1) that(1) assms(2) that(2)] .
  have "{r \<in> set (orders d). or_order_id r = or_order_id o1} = {o1}"
    using assms(2) same by blast
  moreover have "{r \<in> set (orders d). or_order_id r \<noteq> or_order_id o1} = {r \<in> set (orders d). r \<noteq> o1}"
    using same by blast
  ultimately show ?thesis
    by (simp add: orders_after_move_def set_upd_where)
qed

lemma orders_after_move_frame [simp]:
  "clients (orders_after_move o1 st t d) = clients d"
  "addresses (orders_after_move o1 st t d) = addresses d"
  "order_items (orders_after_move o1 st t d) = order_items d"
  "payments (orders_after_move o1 st t d) = payments d"
  "invoices (orders_after_move o1 st t d) = invoices d"
  "processed_events (orders_after_move o1 st t d) = processed_events d"
  "outbox (orders_after_move o1 st t d) = outbox d"
  by (simp_all add: orders_after_move_def)

lemma orders_after_move_core:
  fixes t :: ts
  assumes ok: "db_ok d" and o1: "o1 \<in> set (orders d)" and st: "st \<noteq> OrdPENDING" "st \<noteq> OrdCANCELLED"
  defines "d' \<equiv> orders_after_move o1 st t d"
  shows "db_keys d'" and "db_refs d'" and "db_versions d'" and "db_totals d'" and "db_closed d'"
    and "db_fits d'"
proof -
  show "db_keys d'" "db_refs d'"
    using db_okD(1,2) [OF ok]
    by (simp_all add: d'_def orders_after_move_def db_keys_def db_refs_def keyed_upd_where
        map_upd_where_same image_upd_where)
  show "db_versions d'"
    using db_okD(3) [OF ok] by (simp add: d'_def db_versions_def)
  note rows = orders_after_move_rows [OF db_okD(1) [OF ok] o1, of _ st t, folded d'_def]
  show "db_totals d'"
    using db_okD(4) [OF ok] o1 rows by (auto simp: db_totals_def d'_def)
  show "db_closed d'"
    using db_okD(5) [OF ok] st rows by (auto simp: db_closed_def)
  show "db_fits d'"
    using db_okD(7) [OF ok] o1 rows by (auto simp: db_fits_def)
qed

end
