(* ===== verification/Db_Growth.thy ===== *)
theory Db_Growth
  imports Repo_Invariants
begin

text \<open>
  What no application transaction ever undoes: rows are only added, the terms of an order, the
  contents of an address version, items, invoices and outbox messages never change, the ledger is
  not touched by the handlers, and the IDENTITY counters only grow. The relation holds between the
  start and every later point of a handler, also when the handler raises.
\<close>

definition order_terms ::
  "order_row \<Rightarrow> int \<times> string \<times> int \<times> int \<times> int \<times> string \<times> money \<times> ts \<times> string" where
  "order_terms r =
     (or_order_id r, or_order_uid r, or_client_id r, or_shipping_address_id r,
      or_billing_address_id r, or_currency r, or_total_amount r, or_placed_at r, or_source_event_id r)"

definition address_content ::
  "address_row \<Rightarrow> int \<times> string \<times> int \<times> string \<times> string \<times> string option \<times> string \<times> string \<times> string
    \<times> string \<times> ts" where
  "address_content r =
     (ad_address_id r, ad_address_uid r, ad_client_id r, ad_street r, ad_number r, ad_complement r,
      ad_district r, ad_city r, ad_state r, ad_zip_code r, ad_valid_from r)"

definition payment_identity :: "payment_row \<Rightarrow> int \<times> int \<times> string \<times> string \<times> payment_method \<times> money" where
  "payment_identity r =
     (pa_payment_id r, pa_order_id r, pa_provider r, pa_provider_tx_id r, pa_method r, pa_amount r)"

definition counters_le :: "db \<Rightarrow> db \<Rightarrow> bool" where
  "counters_le d d' \<longleftrightarrow>
     client_seq d \<le> client_seq d' \<and> address_seq d \<le> address_seq d' \<and> order_seq d \<le> order_seq d'
     \<and> item_seq d \<le> item_seq d' \<and> payment_seq d \<le> payment_seq d' \<and> invoice_seq d \<le> invoice_seq d'
     \<and> outbox_seq d \<le> outbox_seq d'"

definition rows_grow :: "db \<Rightarrow> db \<Rightarrow> bool" where
  "rows_grow d d' \<longleftrightarrow>
     prefix (map (\<lambda>r. (cl_client_id r, cl_client_uid r)) (clients d))
       (map (\<lambda>r. (cl_client_id r, cl_client_uid r)) (clients d'))
     \<and> prefix (map address_content (addresses d)) (map address_content (addresses d'))
     \<and> prefix (map order_terms (orders d)) (map order_terms (orders d'))
     \<and> prefix (order_items d) (order_items d')
     \<and> prefix (map payment_identity (payments d)) (map payment_identity (payments d'))
     \<and> prefix (invoices d) (invoices d')
     \<and> prefix (outbox d) (outbox d')"

definition db_grows :: "db \<Rightarrow> db \<Rightarrow> bool" where
  "db_grows d d' \<longleftrightarrow>
     rows_grow d d' \<and> counters_le d d' \<and> processed_events d' = processed_events d"

lemma db_grows_refl [simp]: "db_grows d d"
  by (simp add: db_grows_def rows_grow_def counters_le_def)

lemma db_grows_trans: "db_grows a b \<Longrightarrow> db_grows b c \<Longrightarrow> db_grows a c"
  unfolding db_grows_def rows_grow_def counters_le_def
  by (auto intro: prefix_order.trans)

interpretation growth: step_preorder db_grows
  by unfold_locales (auto intro: db_grows_trans)

section \<open>The statements the application issues\<close>

lemma checked_insert_grows:
  assumes "\<And>d. db_grows d (adv d)" and "\<And>d. db_grows d (put d)"
  shows "db_grows d (snd (checked_insert fits t cs adv put row d))"
  using assms by (auto simp: checked_insert_def intro: db_grows_trans split: option.splits)

lemmas insert_grows_defs = db_grows_def rows_grow_def counters_le_def

lemma insert_client_grows: "stays db_grows (insert_client r)"
  unfolding stays_def insert_client_def Let_def
  by (intro allI checked_insert_grows) (simp_all add: insert_grows_defs)

lemma insert_address_grows: "stays db_grows (insert_address r)"
  unfolding stays_def insert_address_def Let_def
  by (intro allI checked_insert_grows) (simp_all add: insert_grows_defs)

lemma insert_order_grows: "stays db_grows (insert_order r)"
  unfolding stays_def insert_order_def Let_def
  by (intro allI checked_insert_grows) (simp_all add: insert_grows_defs)

lemma insert_payment_grows: "stays db_grows (insert_payment r)"
  unfolding stays_def insert_payment_def Let_def
  by (intro allI checked_insert_grows) (simp_all add: insert_grows_defs)

lemma insert_invoice_grows: "stays db_grows (insert_invoice r)"
  unfolding stays_def insert_invoice_def Let_def
  by (intro allI checked_insert_grows) (simp_all add: insert_grows_defs)

lemma insert_outbox_grows: "stays db_grows (insert_outbox r)"
  unfolding stays_def insert_outbox_def Let_def
  by (intro allI checked_insert_grows) (simp_all add: insert_grows_defs)

lemma insert_item_grows: "stays db_grows (insert_item r)"
proof (rule staysI)
  fix d x d'
  assume run: "insert_item r d = (x, d')"
  let ?row = "r\<lparr>it_order_item_id := item_seq d\<rparr>"
  let ?ins = "checked_insert (item_fits ?row) ''order_items''
            [(''fk_order_items_order'', it_order_id ?row \<notin> or_order_id ` set (orders d))]
            (\<lambda>d. d\<lparr>item_seq := item_seq d + 1\<rparr>)
            (\<lambda>d. d\<lparr>order_items := order_items d @ [?row]\<rparr>) ?row"
  have "db_grows d (snd (?ins d))"
    by (rule checked_insert_grows) (auto simp: db_grows_def rows_grow_def counters_le_def)
  moreover have "snd (insert_item r d) = snd (?ins d)"
    by (auto simp: insert_item_def Let_def bnd_def split: prod.splits sum.splits)
  ultimately show "db_grows d d'"
    using run by simp
qed

lemma update_client_grows: "stays db_grows (update_client cid (client_refresh clk n dc em))"
proof -
  let ?key = "\<lambda>r. (cl_client_id r, cl_client_uid r)"
  have "map ?key (upd_where P (client_refresh clk n dc em) rs) = map ?key rs" for P rs
    by (rule map_upd_where_same) simp
  then show ?thesis
    by (auto simp: stays_def update_client_def db_grows_def rows_grow_def counters_le_def)
qed

lemma update_address_grows: "stays db_grows (update_address aid (address_closed t))"
proof -
  have "map address_content (upd_where P (address_closed t) rs) = map address_content rs" for P rs
    by (rule map_upd_where_same) (simp add: address_content_def address_closed_def)
  then show ?thesis
    by (auto simp: stays_def update_address_def db_grows_def rows_grow_def counters_le_def)
qed

lemma update_payment_grows: "stays db_grows (update_payment pid (payment_refresh st t ap))"
proof -
  have "map payment_identity (upd_where P (payment_refresh st t ap) rs) = map payment_identity rs" for P rs
    by (rule map_upd_where_same) (simp add: payment_identity_def payment_refresh_def)
  then show ?thesis
    by (auto simp: stays_def update_payment_def db_grows_def rows_grow_def counters_le_def)
qed

lemma update_orders_grows: "stays db_grows (update_orders p (order_moved st t))"
proof (rule staysI)
  fix d x d'
  assume run: "update_orders p (order_moved st t) d = (x, d')"
  have "map order_terms (upd_where p (order_moved st t) rs) = map order_terms rs" for rs
    by (rule map_upd_where_same) (simp add: order_terms_def)
  moreover have "d' = d \<or> d' = d\<lparr>orders := upd_where p (order_moved st t) (orders d)\<rparr>"
    using run by (auto simp: update_orders_def Let_def split: if_splits option.splits)
  ultimately show "db_grows d d'"
    by (auto simp: db_grows_def rows_grow_def counters_le_def)
qed

lemmas statement_grows = insert_client_grows insert_address_grows insert_order_grows
  insert_payment_grows insert_invoice_grows insert_outbox_grows insert_item_grows update_client_grows update_address_grows
  update_payment_grows update_orders_grows

section \<open>The repositories and the handlers\<close>

lemma clients_upsert_grows: "stays db_grows (clients_upsert clk uid n dc em)"
  unfolding clients_upsert_def clients_get_by_uid_def clients_insert_def
  by (intro growth.stays_rules statement_grows)

lemma addresses_upsert_version_grows: "stays db_grows (addresses_upsert_version clk cid p)"
  unfolding addresses_upsert_version_def addresses_get_current_version_def
    addresses_open_version_def addresses_close_version_def
  by (intro growth.stays_rules statement_grows)

lemma orders_create_grows: "stays db_grows (orders_create clk uid cid sa ba cur am pl ev items)"
  unfolding orders_create_def orders_add_items_def
  by (intro growth.stays_rules statement_grows)

lemma orders_transition_grows: "stays db_grows (orders_transition o1 st t)"
  unfolding orders_transition_def by (intro growth.stays_rules statement_grows)

lemma payments_upsert_grows: "stays db_grows (payments_upsert clk oid pr tx m st am t ap)"
  unfolding payments_upsert_def payments_get_by_provider_transaction_def
  by (intro growth.stays_rules statement_grows)

lemma invoices_create_grows: "stays db_grows (invoices_create clk oid nr se ak t am)"
  unfolding invoices_create_def by (intro statement_grows)

lemma enqueue_erp_notification_grows: "stays db_grows (enqueue_erp_notification clk o1)"
  unfolding enqueue_erp_notification_def payments_latest_for_order_def outbox_enqueue_def
  by (intro growth.stays_rules statement_grows)

lemmas repository_grows = clients_upsert_grows addresses_upsert_version_grows orders_create_grows
  orders_transition_grows payments_upsert_grows invoices_create_grows enqueue_erp_notification_grows

lemma handle_client_grows: "stays db_grows (handle_client w clk e)"
  unfolding handle_client_def by (intro growth.stays_rules repository_grows)

lemma handle_order_grows: "stays db_grows (handle_order w clk e)"
  unfolding handle_order_def orders_exists_def clients_get_by_uid_def require_current_address_def
    resolve_billing_address_def addresses_get_current_version_def
  by (intro growth.stays_rules repository_grows)

lemma handle_payment_grows: "stays db_grows (handle_payment w clk e)"
  unfolding handle_payment_def require_order_def orders_get_by_uid_def record_payment_def
  by (intro growth.stays_rules repository_grows)

lemma handle_invoice_grows: "stays db_grows (handle_invoice w clk e)"
  unfolding handle_invoice_def require_order_def orders_get_by_uid_def invoices_exists_for_order_def
  by (intro growth.stays_rules repository_grows)

end
