(* ===== verification/Handler_Proofs.thy ===== *)
theory Handler_Proofs
  imports Db_Growth
begin

text \<open>
  The handlers against the database invariant: what each does on every branch, and that a handler
  that returns leaves \<open>db_ok\<close> behind. The contract of the \<open>EventHandler\<close> protocol is the locale
  \<open>event_handler\<close>, with the four handlers as its instances.
\<close>

section \<open>Payments and invoices\<close>

lemma payment_refresh_key [simp]:
  "pa_payment_id (payment_refresh st t ap r) = pa_payment_id r"
  "pa_order_id (payment_refresh st t ap r) = pa_order_id r"
  "pa_provider (payment_refresh st t ap r) = pa_provider r"
  "pa_provider_tx_id (payment_refresh st t ap r) = pa_provider_tx_id r"
  "pa_method (payment_refresh st t ap r) = pa_method r"
  "pa_amount (payment_refresh st t ap r) = pa_amount r"
  "pa_status (payment_refresh st t ap r) = st"
  by (simp_all add: payment_refresh_def)

lemma update_payment_refresh_ok: "keeps db_ok (update_payment pid (payment_refresh st t ap))"
proof (rule keepsI)
  fix d a d'
  assume ok: "db_ok d" and "update_payment pid (payment_refresh st t ap) d = (Inr a, d')"
  then have d': "d' = d\<lparr>payments := upd_where (\<lambda>r. pa_payment_id r = pid) (payment_refresh st t ap) (payments d)\<rparr>"
    by (simp add: update_payment_def)
  have "db_keys d'" and "db_refs d'"
    using db_okD(1,2) [OF ok] d'
    by (simp_all add: db_keys_def db_refs_def keyed_upd_where map_upd_where_same image_upd_where)
  then show "db_ok d'"
    using ok d'
    by (simp add: db_ok_def db_versions_def db_totals_def db_closed_def db_notified_def db_fits_def)
qed

lemma insert_payment_ok: "keeps db_ok (insert_payment r)"
  using insert_payment_keys [of r] unfolding keeps_def
  by (auto simp: db_ok_def insert_payment_Inr)
    (auto simp: db_versions_def db_totals_def db_closed_def db_notified_def db_fits_def)

lemma insert_invoice_ok: "keeps db_ok (insert_invoice r)"
  using insert_invoice_keys [of r] unfolding keeps_def
  by (auto simp: db_ok_def insert_invoice_Inr)
    (auto simp: db_versions_def db_totals_def db_closed_def db_notified_def db_fits_def)

lemma payments_upsert_ok [keep_rules]: "keeps db_ok (payments_upsert clk oid pr tx m st am t ap)"
  unfolding payments_upsert_def payments_get_by_provider_transaction_def
  by (auto intro!: keep_rules insert_payment_ok update_payment_refresh_ok split: option.splits)

lemma invoices_create_ok [keep_rules]: "keeps db_ok (invoices_create clk oid nr se ak t am)"
  unfolding invoices_create_def by (rule insert_invoice_ok)

text \<open>A payment upsert touches the payments only, and succeeds on a known order.\<close>

lemma payments_upsert_frame:
  assumes "payments_upsert clk oid pr tx m st am t ap d = (x, d')"
  shows "d' = d\<lparr>payments := payments d', payment_seq := payment_seq d'\<rparr>"
  using assms
  by (auto simp: payments_upsert_def payments_get_by_provider_transaction_def bnd_def
      insert_payment_def update_payment_def checked_insert_def Let_def
      split: option.splits prod.splits sum.splits if_splits)

lemma payments_upsert_total:
  assumes "length pr \<le> 40" and "length tx \<le> 80" and "numeric_19_4 am"
    and "oid \<in> or_order_id ` set (orders d)"
  shows "\<exists>p new d'. payments_upsert clk oid pr tx m st am t ap d = (Inr (p, new), d')
    \<and> pa_provider p = pr \<and> pa_provider_tx_id p = tx \<and> pa_status p = st \<and> p \<in> set (payments d')
    \<and> (new \<longleftrightarrow> find (\<lambda>r. pa_provider r = pr \<and> pa_provider_tx_id r = tx) (payments d) = None)
    \<and> (new \<longrightarrow> pa_order_id p = oid)"
proof (cases "find (\<lambda>r. pa_provider r = pr \<and> pa_provider_tx_id r = tx) (payments d)")
  case None
  then have "\<not> (\<exists>p \<in> set (payments d). pa_provider p = pr \<and> pa_provider_tx_id p = tx)"
    by (auto simp: find_None_iff)
  with None show ?thesis
    using assms
    by (simp add: payments_upsert_def payments_get_by_provider_transaction_def bnd_def
        insert_payment_def checked_insert_def payment_fits_def Let_def ex_bool_eq)
next
  case (Some p)
  then have "p \<in> set (payments d)" and "pa_provider p = pr" and "pa_provider_tx_id p = tx"
    by (auto dest: find_SomeD)
  with Some show ?thesis
    by (auto simp: payments_upsert_def payments_get_by_provider_transaction_def bnd_def
        update_payment_def set_upd_where intro!: exI)
qed

section \<open>Approval: the transition and its message\<close>

lemma order_relations:
  assumes "db_refs d" and "o1 \<in> set (orders d)"
  shows "\<exists>c s b. order_client d o1 = Some c \<and> order_shipping_address d o1 = Some s
    \<and> order_billing_address d o1 = Some b \<and> ad_address_id s = or_shipping_address_id o1
    \<and> ad_address_id b = or_billing_address_id o1 \<and> cl_client_id c = or_client_id o1"
proof -
  have ex: "\<exists>x. find (\<lambda>x. f x = k) xs = Some x \<and> f x = k" if "k \<in> f ` set xs" for f xs and k :: int
    using that by (cases "find (\<lambda>x. f x = k) xs") (auto simp: find_None_iff dest: find_SomeD)
  have "or_client_id o1 \<in> cl_client_id ` set (clients d)"
    "or_shipping_address_id o1 \<in> ad_address_id ` set (addresses d)"
    "or_billing_address_id o1 \<in> ad_address_id ` set (addresses d)"
    using assms by (auto simp: db_refs_def)
  then show ?thesis
    unfolding order_client_def order_shipping_address_def order_billing_address_def
    by (metis ex)
qed

definition erp_message :: "clock \<Rightarrow> int \<Rightarrow> order_row \<Rightarrow> json \<Rightarrow> outbox_row" where
  "erp_message clk k o1 j =
     \<lparr>ob_outbox_id = k, ob_aggregate_type = ''order'', ob_aggregate_id = or_order_uid o1,
       ob_event_type = ''order.approved'', ob_payload = j,
       ob_status = ObPENDING, ob_attempts = 0, ob_next_attempt_at = app_now clk,
       ob_locked_by = None, ob_locked_at = None, ob_last_error = None,
       ob_created_at = db_now clk, ob_sent_at = None\<rparr>"

lemma enqueue_erp_notification_run:
  assumes "db_refs d" and "db_fits d" and "o1 \<in> set (orders d)"
  shows "\<exists>j. build_order_payload d o1
        (foldl later_payment None (filter (\<lambda>r. pa_order_id r = or_order_id o1) (payments d))) = Some j
    \<and> enqueue_erp_notification clk o1 d =
        (Inr (), d\<lparr>outbox_seq := outbox_seq d + 1,
                   outbox := outbox d @ [erp_message clk (outbox_seq d) o1 j]\<rparr>)"
proof -
  let ?p = "foldl later_payment None (filter (\<lambda>r. pa_order_id r = or_order_id o1) (payments d))"
  obtain j where j: "build_order_payload d o1 ?p = Some j"
    using order_relations [OF assms(1,3)] by (auto simp: build_order_payload_def)
  have "length (or_order_uid o1) \<le> 64"
    using assms(2,3) by (simp add: db_fits_def order_fits_def)
  with j show ?thesis
    by (simp add: enqueue_erp_notification_def payments_latest_for_order_def outbox_enqueue_def
        insert_outbox_def checked_insert_def outbox_fits_def Let_def erp_message_def bnd_def)
qed

lemma order_uid_same:
  assumes "db_keys d" and "r \<in> set (orders d)" and "r' \<in> set (orders d)"
    and "or_order_uid r = or_order_uid r'"
  shows "r = r'"
proof -
  have "distinct (map or_order_uid (orders d))"
    using assms(1) by (simp add: db_keys_def)
  then show ?thesis using assms(2-4) by (rule distinct_map_eq)
qed

lemma messages_for_snoc:
  "messages_for uid (ms @ [m]) = messages_for uid ms @ (if ob_aggregate_id m = uid then [m] else [])"
  by (simp add: messages_for_def)

lemma message_count:
  assumes "db_notified d" and "r \<in> set (orders d)"
  shows "length (messages_for (or_order_uid r) (outbox d)) = (if or_status r = OrdPENDING then 0 else 1)"
  using assms unfolding db_notified_def by blast

lemma approved_ok:
  fixes t :: ts
  assumes ok: "db_ok d" and o1: "o1 \<in> set (orders d)" "or_status o1 = OrdPENDING"
    and o2: "o2 = order_moved OrdAPPROVED t o1" and mid: "mid = orders_after_move o1 OrdAPPROVED t d"
    and m: "ob_outbox_id m = outbox_seq mid" "ob_aggregate_id m = or_order_uid o2"
    and d': "d' = mid\<lparr>outbox_seq := outbox_seq mid + 1, outbox := outbox mid @ [m]\<rparr>"
  shows "db_ok d'"
proof -
  note core = orders_after_move_core [OF ok o1(1), of OrdAPPROVED t, folded mid, simplified]
  note rows = orders_after_move_rows [OF db_okD(1) [OF ok] o1(1), of _ OrdAPPROVED t, folded mid o2]
  have keys: "db_keys d'" and refs: "db_refs d'"
    using core(1,2) m(1) d' by (simp_all add: db_keys_def db_refs_def keyed_snoc)
  have other: "or_order_uid r \<noteq> or_order_uid o1" if "r \<in> set (orders d)" "r \<noteq> o1" for r
    using order_uid_same [OF db_okD(1) [OF ok] that(1) o1(1)] that(2) by blast
  note count = message_count [OF db_okD(6) [OF ok]]
  have "length (messages_for (or_order_uid r) (outbox d')) = (if or_status r = OrdPENDING then 0 else 1)"
    if "r \<in> set (orders d')" for r
  proof -
    have out: "outbox d' = outbox d @ [m]"
      using d' mid by simp
    have "r = o2 \<or> (r \<in> set (orders d) \<and> r \<noteq> o1)"
      using that d' rows by simp
    then show ?thesis
    proof
      assume "r = o2"
      then show ?thesis
        using count [OF o1(1)] o1(2) o2 m(2) by (simp add: out messages_for_snoc)
    next
      assume r: "r \<in> set (orders d) \<and> r \<noteq> o1"
      then have "or_order_uid o1 \<noteq> or_order_uid r"
        using other [of r] by auto
      then show ?thesis
        using count [of r] r o2 m(2) by (simp add: out messages_for_snoc)
    qed
  qed
  moreover have "ob_aggregate_id ` set (outbox d') \<subseteq> or_order_uid ` set (orders d')"
  proof -
    have "or_order_uid ` set (orders mid) = or_order_uid ` set (orders d)"
      by (simp add: mid orders_after_move_def image_upd_where)
    then show ?thesis
      using db_okD(6) [OF ok] d' m(2) mid o1(1) o2 by (auto simp: db_notified_def)
  qed
  ultimately have "db_notified d'" unfolding db_notified_def by blast
  with keys refs core(3-6) d' show ?thesis
    by (simp add: db_ok_def db_versions_def db_totals_def db_closed_def db_fits_def)
qed

lemma invoiced_ok:
  fixes t :: ts
  assumes ok: "db_ok d" and o1: "o1 \<in> set (orders d)" "or_status o1 = OrdAPPROVED"
  shows "db_ok (orders_after_move o1 OrdINVOICED t d)" (is "db_ok ?d'")
proof -
  note core = orders_after_move_core [OF ok o1(1), of OrdINVOICED t, simplified]
  note rows = orders_after_move_rows [OF db_okD(1) [OF ok] o1(1), of _ OrdINVOICED t]
  have "or_order_uid ` set (orders ?d') = or_order_uid ` set (orders d)"
    by (simp add: orders_after_move_def image_upd_where)
  moreover have "length (messages_for (or_order_uid r) (outbox ?d')) = (if or_status r = OrdPENDING then 0 else 1)"
    if "r \<in> set (orders ?d')" for r
  proof (cases "r = order_moved OrdINVOICED t o1")
    case True
    then show ?thesis using message_count [OF db_okD(6) [OF ok] o1(1)] o1(2) by simp
  next
    case False
    then show ?thesis using message_count [OF db_okD(6) [OF ok], of r] that rows by simp
  qed
  ultimately have "db_notified ?d'"
    using db_okD(6) [OF ok] by (auto simp: db_notified_def)
  with core show ?thesis by (simp add: db_ok_def)
qed

section \<open>The payment handler\<close>

lemma require_order_run:
  "require_order uid d =
    (case find (\<lambda>r. or_order_uid r = uid) (orders d) of
       None \<Rightarrow> (Inl (DependencyNotReadyError (''pedido '' @ uid @ '' ainda nao ingerido'')), d)
     | Some o1 \<Rightarrow> (Inr o1, d))"
  by (simp add: require_order_def orders_get_by_uid_def split: option.splits)

lemma money_fits: "money_ok m \<Longrightarrow> numeric_19_4 m"
  by (simp add: money_ok_def numeric_19_4_def)

lemma record_payment_run:
  assumes "payment_updated_ok p" and "o1 \<in> set (orders d)"
  obtains q d1 where "record_payment clk o1 p t d = (Inr (), d1)"
    and "d1 = d\<lparr>payments := payments d1, payment_seq := payment_seq d1\<rparr>"
    and "q \<in> set (payments d1)" and "pa_provider q = pu_provider p"
    and "pa_provider_tx_id q = pu_provider_tx_id p" and "pa_status q = pu_status p"
    and "db_ok d \<Longrightarrow> db_ok d1"
proof -
  have "length (pu_provider p) \<le> 40" "length (pu_provider_tx_id p) \<le> 80" "numeric_19_4 (pu_amount p)"
    using assms(1) by (simp_all add: payment_updated_ok_def money_fits)
  moreover have "or_order_id o1 \<in> or_order_id ` set (orders d)"
    using assms(2) by simp
  ultimately obtain q new d1 where
    run: "payments_upsert clk (or_order_id o1) (pu_provider p) (pu_provider_tx_id p) (pu_method p)
            (pu_status p) (pu_amount p) t (pu_status p = PayAPPROVED) d = (Inr (q, new), d1)"
    and q: "q \<in> set (payments d1)" "pa_provider q = pu_provider p"
      "pa_provider_tx_id q = pu_provider_tx_id p" "pa_status q = pu_status p"
    using payments_upsert_total by blast
  show thesis
  proof (rule that)
    show "record_payment clk o1 p t d = (Inr (), d1)"
      using run by (simp add: record_payment_def bnd_apply_Inr)
    show "d1 = d\<lparr>payments := payments d1, payment_seq := payment_seq d1\<rparr>"
      using run by (rule payments_upsert_frame)
    show "db_ok d \<Longrightarrow> db_ok d1"
      using payments_upsert_ok run by (blast dest: keepsD)
  qed (use q in auto)
qed

lemma not_pending_not_allowed: "s \<noteq> OrdPENDING \<Longrightarrow> \<not> transition_is_allowed s OrdAPPROVED"
  by (cases s) (simp_all add: transition_is_allowed_def)

lemma handle_payment_quiet:
  assumes "validate_payment w (ev_data e) = Some p"
    and "find (\<lambda>r. or_order_uid r = pu_order_uid p) (orders d) = Some o1"
    and quiet: "pu_status p \<noteq> PayAPPROVED \<or> or_status o1 \<noteq> OrdPENDING"
  obtains d1 q where "handle_payment w clk e d = (Inr (), d1)"
    and "d1 = d\<lparr>payments := payments d1, payment_seq := payment_seq d1\<rparr>"
    and "db_ok d \<Longrightarrow> db_ok d1"
    and "q \<in> set (payments d1)" and "pa_provider q = pu_provider p"
    and "pa_provider_tx_id q = pu_provider_tx_id p" and "pa_status q = pu_status p"
proof -
  have "o1 \<in> set (orders d)"
    using assms(2) by (auto dest: find_SomeD)
  with validate_payment_ok [OF assms(1)] obtain q d1 where
    rec: "record_payment clk o1 p (naive (pu_occurred_at p)) d = (Inr (), d1)"
    and d1: "d1 = d\<lparr>payments := payments d1, payment_seq := payment_seq d1\<rparr>"
    and q: "q \<in> set (payments d1)" "pa_provider q = pu_provider p"
      "pa_provider_tx_id q = pu_provider_tx_id p" "pa_status q = pu_status p"
    and ok: "db_ok d \<Longrightarrow> db_ok d1"
    by (rule record_payment_run [where clk = clk and t = "naive (pu_occurred_at p)"]) (rule that)
  have "handle_payment w clk e d = (Inr (), d1)"
    using assms(1,2) rec quiet not_pending_not_allowed [of "or_status o1"]
    by (auto simp: handle_payment_def bnd_def require_order_run orders_transition_def)
  from this d1 ok q show thesis by (rule that)
qed

lemma handle_payment_approves:
  assumes "validate_payment w (ev_data e) = Some p"
    and "find (\<lambda>r. or_order_uid r = pu_order_uid p) (orders d) = Some o1"
    and "pu_status p = PayAPPROVED" and "or_status o1 = OrdPENDING" and "db_ok d"
  defines "o2 \<equiv> order_moved OrdAPPROVED (naive (pu_occurred_at p)) o1"
  obtains d1 mid q j where
    "handle_payment w clk e d =
       (Inr (), mid\<lparr>outbox_seq := outbox_seq mid + 1,
                    outbox := outbox d @ [erp_message clk (outbox_seq mid) o2 j]\<rparr>)"
    and "mid = orders_after_move o1 OrdAPPROVED (naive (pu_occurred_at p)) d1"
    and "d1 = d\<lparr>payments := payments d1, payment_seq := payment_seq d1\<rparr>" and "db_ok d1"
    and "build_order_payload mid o2
       (foldl later_payment None (filter (\<lambda>r. pa_order_id r = or_order_id o2) (payments mid))) = Some j"
    and "o2 \<in> set (orders mid)"
    and "q \<in> set (payments d1)" and "pa_provider q = pu_provider p"
    and "pa_provider_tx_id q = pu_provider_tx_id p" and "pa_status q = pu_status p"
proof -
  let ?t = "naive (pu_occurred_at p)"
  have o1: "o1 \<in> set (orders d)"
    using assms(2) by (auto dest: find_SomeD)
  with validate_payment_ok [OF assms(1)] obtain q d1 where
    rec: "record_payment clk o1 p ?t d = (Inr (), d1)"
    and d1: "d1 = d\<lparr>payments := payments d1, payment_seq := payment_seq d1\<rparr>"
    and q: "q \<in> set (payments d1)" "pa_provider q = pu_provider p"
      "pa_provider_tx_id q = pu_provider_tx_id p" "pa_status q = pu_status p"
    and ok_imp: "db_ok d \<Longrightarrow> db_ok d1"
    by (rule record_payment_run [where clk = clk and t = "naive (pu_occurred_at p)"]) (rule that)
  have ok: "db_ok d1" using ok_imp assms(5) .
  define mid where "mid = orders_after_move o1 OrdAPPROVED ?t d1"
  have orders: "orders d1 = orders d" and outbox: "outbox d1 = outbox d"
    using arg_cong [OF d1, of orders] arg_cong [OF d1, of outbox] by simp_all
  have o1': "o1 \<in> set (orders d1)" using o1 orders by simp
  have mid_o2: "o2 \<in> set (orders mid)"
    using orders_after_move_rows [OF db_okD(1) [OF ok] o1', of o2] by (simp add: mid_def o2_def)
  have mid_refs: "db_refs mid" and mid_fits: "db_fits mid"
    using orders_after_move_core(2,6) [OF ok o1'] by (simp_all add: mid_def)
  obtain j where
    j: "build_order_payload mid o2
       (foldl later_payment None (filter (\<lambda>r. pa_order_id r = or_order_id o2) (payments mid))) = Some j"
    and enq: "enqueue_erp_notification clk o2 mid =
      (Inr (), mid\<lparr>outbox_seq := outbox_seq mid + 1,
                   outbox := outbox mid @ [erp_message clk (outbox_seq mid) o2 j]\<rparr>)"
    using enqueue_erp_notification_run [OF mid_refs mid_fits mid_o2, of clk] by blast
  have trans: "orders_transition o1 OrdAPPROVED ?t d1 = (Inr (True, o2), mid)"
    using orders_transition_run [OF db_okD(1,2,7,4) [OF ok], of o1 OrdAPPROVED ?t] assms(4)
    by (simp add: transition_is_allowed_def mid_def o2_def)
  have "handle_payment w clk e d = enqueue_erp_notification clk o2 mid"
    using assms(1-3) rec trans
    by (simp add: handle_payment_def bnd_def require_order_run)
  then have run: "handle_payment w clk e d =
       (Inr (), mid\<lparr>outbox_seq := outbox_seq mid + 1,
                    outbox := outbox d @ [erp_message clk (outbox_seq mid) o2 j]\<rparr>)"
    using enq by (simp add: mid_def outbox)
  from run mid_def d1 ok j mid_o2 q show thesis by (rule that)
qed

lemma handle_payment_ok: "keeps db_ok (handle_payment w clk e)"
proof (rule keepsI)
  fix d a d'
  assume ok: "db_ok d" and run: "handle_payment w clk e d = (Inr a, d')"
  from run obtain p where p: "validate_payment w (ev_data e) = Some p"
    by (auto simp: handle_payment_def split: option.splits)
  with run obtain o1 where o1: "find (\<lambda>r. or_order_uid r = pu_order_uid p) (orders d) = Some o1"
    by (auto simp: handle_payment_def bnd_Inr_iff require_order_run split: option.splits)
  show "db_ok d'"
  proof (cases "pu_status p = PayAPPROVED \<and> or_status o1 = OrdPENDING")
    case False
    with p o1 show ?thesis using run ok by (auto elim: handle_payment_quiet [where clk = clk])
  next
    case True
    then have st: "pu_status p = PayAPPROVED" "or_status o1 = OrdPENDING" by auto
    let ?o2 = "order_moved OrdAPPROVED (naive (pu_occurred_at p)) o1"
    from p o1 st ok obtain d1 mid q j where
      fin: "handle_payment w clk e d =
        (Inr (), mid\<lparr>outbox_seq := outbox_seq mid + 1,
                     outbox := outbox d @ [erp_message clk (outbox_seq mid) ?o2 j]\<rparr>)"
      and mid: "mid = orders_after_move o1 OrdAPPROVED (naive (pu_occurred_at p)) d1"
      and d1: "d1 = d\<lparr>payments := payments d1, payment_seq := payment_seq d1\<rparr>" and ok1: "db_ok d1"
      by (rule handle_payment_approves [where clk = clk])
    have "o1 \<in> set (orders d1)" and out: "outbox d = outbox mid"
      using arg_cong [OF d1, of orders] arg_cong [OF d1, of outbox] o1 mid
      by (auto dest: find_SomeD)
    then show ?thesis
      using fin run
      by (intro approved_ok [OF ok1 _ st(2) refl mid, of "erp_message clk (outbox_seq mid) ?o2 j"])
        (simp_all add: erp_message_def)
  qed
qed

section \<open>The other handlers\<close>

lemma handle_client_ok: "keeps db_ok (handle_client w clk e)"
  unfolding handle_client_def by (auto intro!: keep_rules split: option.splits)

lemma handle_order_ok: "keeps db_ok (handle_order w clk e)"
  unfolding handle_order_def orders_exists_def clients_get_by_uid_def require_current_address_def
    resolve_billing_address_def addresses_get_current_version_def
  by (auto intro!: keep_rules orders_create_ok simp: total_amount_def split: option.splits)

lemma invoices_create_frame:
  assumes "invoices_create clk oid nr se ak t am d = (x, d')"
  shows "d' = d\<lparr>invoices := invoices d', invoice_seq := invoice_seq d'\<rparr>"
  using assms
  by (auto simp: invoices_create_def insert_invoice_def checked_insert_def Let_def
      split: option.splits if_splits)

lemma only_approved_invoices:
  "transition_is_allowed s OrdINVOICED \<longleftrightarrow> s = OrdAPPROVED"
  by (cases s) (simp_all add: transition_is_allowed_def)

lemma handle_invoice_ok: "keeps db_ok (handle_invoice w clk e)"
proof (rule keepsI)
  fix d a d'
  assume ok: "db_ok d" and run: "handle_invoice w clk e d = (Inr a, d')"
  from run obtain v where v: "validate_invoice w (ev_data e) = Some v"
    by (auto simp: handle_invoice_def split: option.splits)
  with run obtain o1 where o1: "find (\<lambda>r. or_order_uid r = ii_order_uid v) (orders d) = Some o1"
    by (auto simp: handle_invoice_def bnd_Inr_iff require_order_run split: option.splits)
  show "db_ok d'"
  proof (cases "length (filter (\<lambda>r. in_order_id r = or_order_id o1) (invoices d)) > 0")
    case True
    with run v o1 ok show ?thesis
      by (simp add: handle_invoice_def bnd_def require_order_run invoices_exists_for_order_def)
  next
    case False
    with run v o1 obtain row d1 x where
      create: "invoices_create clk (or_order_id o1) (ii_invoice_number v) (ii_series v)
                        (ii_access_key v) (naive (ii_issued_at v)) (ii_total_amount v) d = (Inr row, d1)"
      and trans: "orders_transition o1 OrdINVOICED (naive (ii_issued_at v)) d1 = (Inr x, d')"
      by (auto simp: handle_invoice_def bnd_Inr_iff require_order_run invoices_exists_for_order_def
          split: if_splits)
    have ok1: "db_ok d1"
      using invoices_create_ok create ok by (blast dest: keepsD)
    have "o1 \<in> set (orders d1)"
      using arg_cong [OF invoices_create_frame [OF create], of orders] o1 by (auto dest: find_SomeD)
    then show ?thesis
      using trans ok1 invoiced_ok [OF ok1]
      by (auto simp: orders_transition_run [OF db_okD(1,2,7,4) [OF ok1]] only_approved_invoices
          split: if_splits)
  qed
qed

section \<open>The contract of the EventHandler protocol\<close>

text \<open>
  src/ingest_worker/handlers/base.py: what the processor relies on of any handler. Returning, it
  leaves a consistent database; returning or raising, it has undone nothing and not touched the
  ledger.
\<close>

locale event_handler =
  fixes handle :: "'d handler"
  assumes handle_ok: "keeps db_ok (handle w clk e)"
    and handle_grows: "stays db_grows (handle w clk e)"
begin

lemma handle_ledger: "handle w clk e d = (r, d') \<Longrightarrow> processed_events d' = processed_events d"
  using staysD [OF handle_grows] by (auto simp: db_grows_def)

lemma handle_outbox_prefix: "handle w clk e d = (r, d') \<Longrightarrow> prefix (outbox d) (outbox d')"
  using staysD [OF handle_grows] by (auto simp: db_grows_def rows_grow_def)

end

interpretation on_client: event_handler handle_client
  by unfold_locales (rule handle_client_ok, rule handle_client_grows)

interpretation on_order: event_handler handle_order
  by unfold_locales (rule handle_order_ok, rule handle_order_grows)

interpretation on_payment: event_handler handle_payment
  by unfold_locales (rule handle_payment_ok, rule handle_payment_grows)

interpretation on_invoice: event_handler handle_invoice
  by unfold_locales (rule handle_invoice_ok, rule handle_invoice_grows)

text \<open>A registry whose every handler keeps the contract, and the one the worker builds.\<close>

definition registry_ok :: "'d registry \<Rightarrow> bool" where
  "registry_ok reg \<longleftrightarrow> (\<forall>t h. reg t = Some h \<longrightarrow> event_handler h)"

lemma build_registry_ok: "registry_ok build_registry"
  unfolding registry_ok_def
proof (intro allI impI)
  fix t and h :: "'d handler"
  assume "build_registry t = Some h"
  then show "event_handler h"
    using on_client.event_handler_axioms on_order.event_handler_axioms
      on_payment.event_handler_axioms on_invoice.event_handler_axioms
    by (cases t) (simp_all add: build_registry_eq)
qed

lemma registry_get_ok: "registry_ok reg \<Longrightarrow> registry_get reg t = Inr h \<Longrightarrow> event_handler h"
  by (auto simp: registry_ok_def registry_get_def split: option.splits)

end
