(* ===== verification/Dedupe.thy ===== *)
theory Dedupe
  imports Settings
begin

text \<open>
  src/shared/messaging/dedupe.py: the reservation of an event id in Redis. The Redis client is
  third-party: its commands are parameters, together with the observer \<open>rd_has\<close> that the
  documented laws of SET NX and DEL speak about. No answer (None, False) is the exception the client
  raises. An expiry may happen between two commands, which is a change of the store by itself.
\<close>

record 'r redis =
  rd_set_nx :: "string \<Rightarrow> string \<Rightarrow> int \<Rightarrow> 'r \<Rightarrow> bool option \<times> 'r"
  rd_del :: "string \<Rightarrow> 'r \<Rightarrow> bool \<times> 'r"
  rd_has :: "'r \<Rightarrow> string \<Rightarrow> bool"

definition redis_laws :: "'r redis \<Rightarrow> bool" where
  "redis_laws R \<longleftrightarrow>
     (\<forall>k v ttl r b r'. rd_set_nx R k v ttl r = (Some b, r') \<longrightarrow>
        b = (\<not> rd_has R r k) \<and> rd_has R r' k \<and> (\<forall>k'. k' \<noteq> k \<longrightarrow> rd_has R r' k' = rd_has R r k'))
     \<and> (\<forall>k r r'. rd_del R k r = (True, r') \<longrightarrow>
        \<not> rd_has R r' k \<and> (\<forall>k'. k' \<noteq> k \<longrightarrow> rd_has R r' k' = rd_has R r k'))"

definition dedupe_key_prefix :: string where
  "dedupe_key_prefix = ''evt''"

definition claim_when_redis_unavailable :: bool where
  "claim_when_redis_unavailable = True"

definition dedupe_key :: "string \<Rightarrow> string" where
  "dedupe_key event_id = dedupe_key_prefix @ '':'' @ event_id"

definition claim :: "settings \<Rightarrow> 'r redis \<Rightarrow> string \<Rightarrow> 'r \<Rightarrow> bool \<times> 'r" where
  "claim s R event_id r =
     (case rd_set_nx R (dedupe_key event_id) ''1'' (dedupe_ttl_seconds s) r of
        (None, r') \<Rightarrow> (claim_when_redis_unavailable, r')
      | (Some reserved, r') \<Rightarrow> (reserved, r'))"

definition release :: "'r redis \<Rightarrow> string \<Rightarrow> 'r \<Rightarrow> 'r" where
  "release R event_id r = snd (rd_del R (dedupe_key event_id) r)"

text \<open>A concrete store for the witnesses: the set of keys, and whether the server answers.\<close>

definition key_store :: "(string set \<times> bool) redis" where
  "key_store = \<lparr>
     rd_set_nx = (\<lambda>k v ttl (ks, up). if up then (Some (k \<notin> ks), (insert k ks, up)) else (None, (ks, up))),
     rd_del = (\<lambda>k (ks, up). if up then (True, (ks - {k}, up)) else (False, (ks, up))),
     rd_has = (\<lambda>(ks, up) k. k \<in> ks)\<rparr>"

lemma key_store_laws: "redis_laws key_store"
  by (auto simp: redis_laws_def key_store_def split: if_splits)

lemma dedupe_key_inj: "dedupe_key a = dedupe_key b \<longleftrightarrow> a = b"
  by (simp add: dedupe_key_def)

lemma claim_answered:
  assumes "redis_laws R" and "rd_set_nx R (dedupe_key i) ''1'' (dedupe_ttl_seconds s) r = (Some b, r')"
  shows "claim s R i r = (\<not> rd_has R r (dedupe_key i), r')" and "rd_has R r' (dedupe_key i)"
    and "j \<noteq> i \<Longrightarrow> rd_has R r' (dedupe_key j) = rd_has R r (dedupe_key j)"
proof -
  have law: "b = (\<not> rd_has R r (dedupe_key i)) \<and> rd_has R r' (dedupe_key i)
      \<and> (\<forall>k'. k' \<noteq> dedupe_key i \<longrightarrow> rd_has R r' k' = rd_has R r k')"
    using assms(1) [unfolded redis_laws_def, THEN conjunct1, rule_format, OF assms(2)] .
  with assms(2) show "claim s R i r = (\<not> rd_has R r (dedupe_key i), r')" and "rd_has R r' (dedupe_key i)"
    by (simp_all add: claim_def)
  show "rd_has R r' (dedupe_key j) = rd_has R r (dedupe_key j)" if "j \<noteq> i"
    using law that by (simp add: dedupe_key_inj)
qed

lemma claim_unanswered:
  "rd_set_nx R (dedupe_key i) ''1'' (dedupe_ttl_seconds s) r = (None, r') \<Longrightarrow> fst (claim s R i r)"
  by (simp add: claim_def claim_when_redis_unavailable_def)

lemma release_answered:
  assumes "redis_laws R" and "rd_del R (dedupe_key i) r = (True, r')"
  shows "release R i r = r'" and "\<not> rd_has R r' (dedupe_key i)"
    and "j \<noteq> i \<Longrightarrow> rd_has R r' (dedupe_key j) = rd_has R r (dedupe_key j)"
proof -
  have law: "\<not> rd_has R r' (dedupe_key i)
      \<and> (\<forall>k'. k' \<noteq> dedupe_key i \<longrightarrow> rd_has R r' k' = rd_has R r k')"
    using assms(1) [unfolded redis_laws_def, THEN conjunct2, rule_format, OF assms(2)] .
  with assms(2) show "release R i r = r'" and "\<not> rd_has R r' (dedupe_key i)"
    by (simp_all add: release_def)
  show "rd_has R r' (dedupe_key j) = rd_has R r (dedupe_key j)" if "j \<noteq> i"
    using law that by (simp add: dedupe_key_inj)
qed

end
