(* ===== verification/Processor.thy ===== *)
theory Processor
  imports Handler_Proofs Dedupe
begin

text \<open>
  src/shared/db/uow.py and src/ingest_worker/processor.py: the unit of work around a transaction
  and the processing of one event behind its three barriers. What a commit meets is a parameter of
  each call: it succeeds, it is refused, or it is done although the client saw an error.
\<close>

section \<open>UnitOfWork\<close>

text \<open>\<open>durable\<close> is what other sessions will find, \<open>session_db\<close> what this session sees.\<close>

record uow =
  durable :: db
  session_db :: db

datatype commit_fault = CommitOk | CommitRefused exn | CommitInDoubt exn

definition uow_enter :: "db \<Rightarrow> uow" where
  "uow_enter d = \<lparr>durable = d, session_db = d\<rparr>"

definition uow_run :: "'a sess \<Rightarrow> (uow, exn, 'a) prog" where
  "uow_run m u = (case m (session_db u) of (r, d) \<Rightarrow> (r, u\<lparr>session_db := d\<rparr>))"

definition uow_commit :: "commit_fault \<Rightarrow> (uow, exn, unit) prog" where
  "uow_commit fault u =
     (case fault of
        CommitOk \<Rightarrow> (Inr (), u\<lparr>durable := session_db u\<rparr>)
      | CommitRefused x \<Rightarrow> (Inl x, u)
      | CommitInDoubt x \<Rightarrow> (Inl x, u\<lparr>durable := session_db u\<rparr>))"

definition uow_rollback :: "(uow, exn, unit) prog" where
  "uow_rollback u = (Inr (), u\<lparr>session_db := rollback (durable u) (session_db u)\<rparr>)"

text \<open>
  \<open>__exit__\<close>: an exception rolls back, and closing the session drops what was not committed.
\<close>

definition uow_exit :: "bool \<Rightarrow> uow \<Rightarrow> db" where
  "uow_exit raised u =
     (let u' = (if raised then snd (uow_rollback u) else u) in
      rollback (durable u') (session_db u'))"

definition with_uow :: "(uow, exn, 'a) prog \<Rightarrow> db \<Rightarrow> (exn + 'a) \<times> db" where
  "with_uow body d =
     (case body (uow_enter d) of
        (Inl x, u) \<Rightarrow> (Inl x, uow_exit True u)
      | (Inr a, u) \<Rightarrow> (Inr a, uow_exit False u))"

section \<open>EventProcessor\<close>

datatype outcome = PROCESSED | DUPLICATE | RETRY | REJECTED

fun outcome_value :: "outcome \<Rightarrow> string" where
  "outcome_value PROCESSED = ''processed''"
| "outcome_value DUPLICATE = ''duplicate''"
| "outcome_value RETRY = ''retry''"
| "outcome_value REJECTED = ''rejected''"

record result =
  res_outcome :: outcome
  res_detail :: string

definition should_ack :: "result \<Rightarrow> bool" where
  "should_ack res \<longleftrightarrow> res_outcome res \<noteq> RETRY"

text \<open>
  \<open>str\<close> of the root cause of an exception; for a database error it is the driver's text, which
  the argument of the constructor stands for.
\<close>

fun exn_text :: "exn \<Rightarrow> string" where
  "exn_text (DependencyNotReadyError s) = s"
| "exn_text (IntegrityError s) = s"
| "exn_text (DataError s) = s"
| "exn_text (TriggerError n s) = s"
| "exn_text (ValidationError s) = s"
| "exn_text (KeyError s) = [CHR 0x27] @ s @ [CHR 0x27]"
| "exn_text (AttributeError s) = s"
| "exn_text (OperationalError s) = s"
| "exn_text IndexError = ''list index out of range''"
| "exn_text (ResponseError s) = s"
| "exn_text (RedisError s) = s"
| "exn_text (ErpTemporaryError s) = s"
| "exn_text (ErpPermanentError s) = s"
| "exn_text (JSONDecodeError s) = s"
| "exn_text (BufferFullError s) = s"

definition line_breaks :: "char list" where
  "line_breaks = [CHR 0x0A, CHR 0x0B, CHR 0x0C, CHR 0x0D, CHR 0x1C, CHR 0x1D, CHR 0x1E]"

text \<open>\<open>str(root).splitlines()[0][:220]\<close>: an empty text has no first line.\<close>

definition summarize :: "exn \<Rightarrow> exn + string" where
  "summarize x =
     (if exn_text x = [] then Inl IndexError
      else Inr (take 220 (takeWhile (\<lambda>c. c \<notin> set line_breaks) (exn_text x))))"

definition claim_in_ledger :: "'d outside \<Rightarrow> clock \<Rightarrow> 'd envelope \<Rightarrow> (uow, exn, bool) prog" where
  "claim_in_ledger w clk e u =
     (case uow_run (processed_register clk (ev_event_id e) (event_type_value (ev_event_type e))
             (fingerprint w e)) u of
        (Inl (IntegrityError c), u') \<Rightarrow> bnd uow_rollback (\<lambda>_. ret False) u'
      | (Inl x, u') \<Rightarrow> (Inl x, u')
      | (Inr _, u') \<Rightarrow> (Inr True, u'))"

definition apply_body ::
  "'d handler \<Rightarrow> 'd outside \<Rightarrow> clock \<Rightarrow> commit_fault \<Rightarrow> 'd envelope \<Rightarrow> (uow, exn, result) prog" where
  "apply_body h w clk fault e =
     bnd (claim_in_ledger w clk e) (\<lambda>claimed.
       if \<not> claimed then
         ret \<lparr>res_outcome = DUPLICATE, res_detail = ''ja registrado em processed_events''\<rparr>
       else (\<lambda>u.
         case bnd (uow_run (h w clk e)) (\<lambda>_. uow_commit fault) u of
           (Inl (IntegrityError c), u') \<Rightarrow>
             bnd uow_rollback (\<lambda>_. ret \<lparr>res_outcome = DUPLICATE,
               res_detail = ''barrado por constraint de negocio''\<rparr>) u'
         | (Inl x, u') \<Rightarrow> (Inl x, u')
         | (Inr _, u') \<Rightarrow> (Inr \<lparr>res_outcome = PROCESSED, res_detail = ''''\<rparr>, u')))"

definition apply_event ::
  "'d registry \<Rightarrow> 'd outside \<Rightarrow> clock \<Rightarrow> commit_fault \<Rightarrow> 'd envelope \<Rightarrow> db \<Rightarrow> (exn + result) \<times> db" where
  "apply_event reg w clk fault e d =
     (case registry_get reg (ev_event_type e) of
        Inl x \<Rightarrow> (Inl x, d)
      | Inr h \<Rightarrow> with_uow (apply_body h w clk fault e) d)"

text \<open>The processor with what it was built with: the registry, Redis and the settings.\<close>

record ('d, 'r) processor =
  pr_registry :: "'d registry"
  pr_redis :: "'r redis"
  pr_settings :: settings
  pr_outside :: "'d outside"

definition process ::
  "('d, 'r) processor \<Rightarrow> clock \<Rightarrow> commit_fault \<Rightarrow> 'd envelope \<Rightarrow> db \<times> 'r \<Rightarrow> (exn + result) \<times> db \<times> 'r" where
  "process p clk fault e = (\<lambda>(d, r).
     if \<not> registry_supports (pr_registry p) (ev_event_type e) then
       (Inr \<lparr>res_outcome = REJECTED,
             res_detail = ''tipo desconhecido: '' @ event_type_value (ev_event_type e)\<rparr>, d, r)
     else (case claim (pr_settings p) (pr_redis p) (ev_event_id e) r of
         (False, r1) \<Rightarrow>
           (Inr \<lparr>res_outcome = DUPLICATE, res_detail = ''descartado pelo dedupe do Redis''\<rparr>, d, r1)
       | (True, r1) \<Rightarrow>
           (case apply_event (pr_registry p) (pr_outside p) clk fault e d of
              (Inr res, d') \<Rightarrow> (Inr res, d', r1)
            | (Inl (DependencyNotReadyError s), d') \<Rightarrow>
                (Inr \<lparr>res_outcome = RETRY, res_detail = s\<rparr>, d', release (pr_redis p) (ev_event_id e) r1)
            | (Inl x, d') \<Rightarrow>
                let r2 = release (pr_redis p) (ev_event_id e) r1 in
                (case summarize x of
                   Inl y \<Rightarrow> (Inl y, d', r2)
                 | Inr s \<Rightarrow> (Inr \<lparr>res_outcome = RETRY, res_detail = s\<rparr>, d', r2)))))"

end
