(* ===== verification/Processor_Proofs.thy ===== *)
theory Processor_Proofs
  imports Processor
begin

text \<open>
  The processing of one event: all or nothing together with its ledger row, never a second time,
  and the database invariant after every outcome, exceptions and commit faults included.
\<close>

section \<open>Rollbacks\<close>

definition rows_same :: "db \<Rightarrow> db \<Rightarrow> bool" where
  "rows_same d d' \<longleftrightarrow> d' = rollback d d'"

definition in_ledger :: "string \<Rightarrow> db \<Rightarrow> bool" where
  "in_ledger i d \<longleftrightarrow> i \<in> pe_event_id ` set (processed_events d)"

lemma rollback_rows [simp]:
  "clients (rollback d d') = clients d" "addresses (rollback d d') = addresses d"
  "orders (rollback d d') = orders d" "order_items (rollback d d') = order_items d"
  "payments (rollback d d') = payments d" "invoices (rollback d d') = invoices d"
  "processed_events (rollback d d') = processed_events d" "outbox (rollback d d') = outbox d"
  by (simp_all add: rollback_def)

lemma rollback_counters [simp]:
  "client_seq (rollback d d') = client_seq d'" "address_seq (rollback d d') = address_seq d'"
  "order_seq (rollback d d') = order_seq d'" "item_seq (rollback d d') = item_seq d'"
  "payment_seq (rollback d d') = payment_seq d'" "invoice_seq (rollback d d') = invoice_seq d'"
  "outbox_seq (rollback d d') = outbox_seq d'"
  by (simp_all add: rollback_def)

lemma rollback_self [simp]: "rollback d d = d"
  by (simp add: rollback_def)

lemma rollback_twice [simp]: "rollback d (rollback d' d2) = rollback d d2"
  "rollback (rollback d d2) d3 = rollback d d3"
  by (simp_all add: rollback_def)

lemma rows_same_rollback [simp]: "rows_same d (rollback d d')" "rows_same d d"
  by (simp_all add: rows_same_def)

lemma rows_sameD:
  assumes "rows_same d d'"
  shows "orders d' = orders d" and "outbox d' = outbox d" and "processed_events d' = processed_events d"
    and "payments d' = payments d" and "invoices d' = invoices d" and "clients d' = clients d"
    and "addresses d' = addresses d" and "order_items d' = order_items d"
  using arg_cong [OF assms [unfolded rows_same_def], of orders]
    arg_cong [OF assms [unfolded rows_same_def], of outbox]
    arg_cong [OF assms [unfolded rows_same_def], of processed_events]
    arg_cong [OF assms [unfolded rows_same_def], of payments]
    arg_cong [OF assms [unfolded rows_same_def], of invoices]
    arg_cong [OF assms [unfolded rows_same_def], of clients]
    arg_cong [OF assms [unfolded rows_same_def], of addresses]
    arg_cong [OF assms [unfolded rows_same_def], of order_items]
  by simp_all

lemma rows_same_in_ledger: "rows_same d d' \<Longrightarrow> in_ledger i d' = in_ledger i d"
  by (simp add: in_ledger_def rows_sameD(3))

lemma keyed_mono: "keyed f s rs \<Longrightarrow> s \<le> s' \<Longrightarrow> keyed f s' rs"
  by (force simp: keyed_def)

lemma rollback_ok:
  assumes "db_ok d" and "counters_le d d'"
  shows "db_ok (rollback d d')"
proof -
  have "db_keys (rollback d d')"
    using db_okD(1) [OF assms(1)] assms(2)
    by (auto simp: db_keys_def counters_le_def intro: keyed_mono)
  with assms(1) show ?thesis
    by (simp add: db_ok_def db_refs_def db_versions_def db_totals_def db_closed_def db_notified_def
        db_fits_def)
qed

lemma counters_le_refl [simp]: "counters_le d d"
  by (simp add: counters_le_def)

lemma counters_le_rollback [simp]:
  "counters_le d (rollback d2 d') = counters_le d d'"
  "counters_le (rollback d d2) d' = counters_le d2 d'"
  by (simp_all add: counters_le_def)

lemma counters_le_trans: "counters_le a b \<Longrightarrow> counters_le b c \<Longrightarrow> counters_le a c"
  by (auto simp: counters_le_def)

section \<open>The ledger\<close>

definition ledger_row :: "'d outside \<Rightarrow> clock \<Rightarrow> 'd envelope \<Rightarrow> processed_event_row" where
  "ledger_row w clk e =
     \<lparr>pe_event_id = ev_event_id e, pe_event_type = event_type_value (ev_event_type e),
      pe_payload_hash = fingerprint w e, pe_status = EvDONE, pe_attempt_count = 1,
      pe_processed_at = db_now clk\<rparr>"

lemma processed_register_run:
  "processed_register clk (ev_event_id e) (event_type_value (ev_event_type e)) (fingerprint w e) d =
     (if \<not> processed_event_fits (ledger_row w clk e) then (Inl (DataError ''processed_events''), d)
      else if in_ledger (ev_event_id e) d then (Inl (IntegrityError ''pk_processed_events''), d)
      else (Inr (), d\<lparr>processed_events := processed_events d @ [ledger_row w clk e]\<rparr>))"
  by (simp add: processed_register_def bnd_def insert_processed_event_def checked_insert_def
      ledger_row_def in_ledger_def)

definition with_ledger_row :: "'d outside \<Rightarrow> clock \<Rightarrow> 'd envelope \<Rightarrow> db \<Rightarrow> db" where
  "with_ledger_row w clk e d = d\<lparr>processed_events := processed_events d @ [ledger_row w clk e]\<rparr>"

lemma with_ledger_row_simps [simp]:
  "clients (with_ledger_row w clk e d) = clients d" "addresses (with_ledger_row w clk e d) = addresses d"
  "orders (with_ledger_row w clk e d) = orders d" "order_items (with_ledger_row w clk e d) = order_items d"
  "payments (with_ledger_row w clk e d) = payments d" "invoices (with_ledger_row w clk e d) = invoices d"
  "outbox (with_ledger_row w clk e d) = outbox d"
  "processed_events (with_ledger_row w clk e d) = processed_events d @ [ledger_row w clk e]"
  "counters_le d0 (with_ledger_row w clk e d) = counters_le d0 d"
  "counters_le (with_ledger_row w clk e d) d0 = counters_le d d0"
  by (simp_all add: with_ledger_row_def counters_le_def)

lemma with_ledger_row_ok:
  assumes "db_ok d" and "\<not> in_ledger (ev_event_id e) d"
  shows "db_ok (with_ledger_row w clk e d)"
proof -
  have "db_keys (with_ledger_row w clk e d)"
    using db_okD(1) [OF assms(1)] assms(2)
    by (simp add: with_ledger_row_def db_keys_def in_ledger_def ledger_row_def)
  with assms(1) show ?thesis
    by (simp add: db_ok_def db_refs_def db_versions_def db_totals_def db_closed_def db_notified_def
        db_fits_def)
qed

section \<open>One transaction\<close>

text \<open>The whole effect of an event: its ledger row and a run of its handler that returned.\<close>

definition event_applied ::
  "'d handler \<Rightarrow> 'd outside \<Rightarrow> clock \<Rightarrow> 'd envelope \<Rightarrow> db \<Rightarrow> db \<Rightarrow> bool" where
  "event_applied h w clk e d d' \<longleftrightarrow>
     processed_event_fits (ledger_row w clk e) \<and> \<not> in_ledger (ev_event_id e) d
     \<and> h w clk e (with_ledger_row w clk e d) = (Inr (), d')"

definition processed_result :: result where
  "processed_result = \<lparr>res_outcome = PROCESSED, res_detail = ''''\<rparr>"

definition ledger_duplicate :: result where
  "ledger_duplicate = \<lparr>res_outcome = DUPLICATE, res_detail = ''ja registrado em processed_events''\<rparr>"

definition constraint_duplicate :: result where
  "constraint_duplicate = \<lparr>res_outcome = DUPLICATE, res_detail = ''barrado por constraint de negocio''\<rparr>"

lemmas uow_defs = uow_run_def uow_commit_def uow_rollback_def uow_exit_def with_uow_def uow_enter_def

lemma claim_in_ledger_run:
  "claim_in_ledger w clk e (uow_enter d) =
    (if \<not> processed_event_fits (ledger_row w clk e) then (Inl (DataError ''processed_events''), uow_enter d)
     else if in_ledger (ev_event_id e) d then (Inr False, uow_enter d)
     else (Inr True, \<lparr>durable = d, session_db = with_ledger_row w clk e d\<rparr>))"
  by (simp add: claim_in_ledger_def uow_defs processed_register_run bnd_def with_ledger_row_def)

text \<open>What a transaction of an event not yet in the ledger comes to.\<close>

definition transaction_end :: "db \<Rightarrow> commit_fault \<Rightarrow> (exn + unit) \<times> db \<Rightarrow> (exn + result) \<times> db" where
  "transaction_end d fault hr =
     (case hr of
        (Inl (IntegrityError c), d2) \<Rightarrow> (Inr constraint_duplicate, rollback d d2)
      | (Inl x, d2) \<Rightarrow> (Inl x, rollback d d2)
      | (Inr _, d2) \<Rightarrow>
          (case fault of
             CommitOk \<Rightarrow> (Inr processed_result, d2)
           | CommitRefused (IntegrityError c) \<Rightarrow> (Inr constraint_duplicate, rollback d d2)
           | CommitRefused x \<Rightarrow> (Inl x, rollback d d2)
           | CommitInDoubt (IntegrityError c) \<Rightarrow> (Inr constraint_duplicate, d2)
           | CommitInDoubt x \<Rightarrow> (Inl x, d2)))"

lemma with_uow_apply_body:
  "with_uow (apply_body h w clk fault e) d =
    (if \<not> processed_event_fits (ledger_row w clk e) then (Inl (DataError ''processed_events''), d)
     else if in_ledger (ev_event_id e) d then (Inr ledger_duplicate, d)
     else transaction_end d fault (h w clk e (with_ledger_row w clk e d)))"
proof (cases "h w clk e (with_ledger_row w clk e d)")
  case (Pair r d2)
  then show ?thesis
    unfolding with_uow_def apply_body_def bnd_def [of "claim_in_ledger w clk e"] claim_in_ledger_run
    by (simp add: uow_defs bnd_def transaction_end_def ledger_duplicate_def
        constraint_duplicate_def processed_result_def
        split: sum.splits exn.splits commit_fault.splits)
qed

lemma apply_event_run:
  "reg (ev_event_type e) = Some h \<Longrightarrow>
   apply_event reg w clk fault e d = with_uow (apply_body h w clk fault e) d"
  by (simp add: apply_event_def registry_get_def)

lemma transaction_end_cases:
  assumes "transaction_end d fault hr = (res, d')"
  shows "rows_same d d' \<and> counters_le (snd hr) d' \<and> res \<noteq> Inr processed_result
    \<or> hr = (Inr (), d') \<and> (res = Inr processed_result \<or> (\<exists>x. fault = CommitInDoubt x))"
  using assms
  by (cases hr; cases fault)
    (auto simp: transaction_end_def constraint_duplicate_def processed_result_def
      split: sum.splits exn.splits)

lemma apply_event_cases:
  assumes "event_handler h" and "reg (ev_event_type e) = Some h"
    and run: "apply_event reg w clk fault e d = (res, d')"
  shows "counters_le d d'"
    and "rows_same d d' \<and> res \<noteq> Inr processed_result
      \<or> event_applied h w clk e d d' \<and> (res = Inr processed_result \<or> (\<exists>x. fault = CommitInDoubt x))"
proof -
  let ?hr = "h w clk e (with_ledger_row w clk e d)"
  have grow: "counters_le d (snd ?hr)"
    using event_handler.handle_grows [OF assms(1)]
    by (simp add: stays_def db_grows_def) (metis with_ledger_row_simps(10))
  have dup: "Inr ledger_duplicate \<noteq> (Inr processed_result :: exn + result)"
    by (simp add: ledger_duplicate_def processed_result_def)
  consider "d' = d" "res \<noteq> Inr processed_result"
    | "processed_event_fits (ledger_row w clk e) \<and> \<not> in_ledger (ev_event_id e) d"
        "transaction_end d fault ?hr = (res, d')"
    using run dup by (auto simp: apply_event_run assms(2) with_uow_apply_body split: if_splits)
  then have "counters_le d d' \<and> (rows_same d d' \<and> res \<noteq> Inr processed_result
      \<or> event_applied h w clk e d d' \<and> (res = Inr processed_result \<or> (\<exists>x. fault = CommitInDoubt x)))"
  proof cases
    case 2
    then show ?thesis
      using transaction_end_cases [OF 2(2)] grow
      by (auto simp: event_applied_def intro: counters_le_trans)
  qed auto
  then show "counters_le d d'"
    and "rows_same d d' \<and> res \<noteq> Inr processed_result
      \<or> event_applied h w clk e d d' \<and> (res = Inr processed_result \<or> (\<exists>x. fault = CommitInDoubt x))"
    by blast+
qed

lemma event_applied_ok:
  assumes "event_handler h" and "db_ok d" and "event_applied h w clk e d d'"
  shows "db_ok d'" and "in_ledger (ev_event_id e) d'"
    and "db_grows (with_ledger_row w clk e d) d'"
proof -
  have run: "h w clk e (with_ledger_row w clk e d) = (Inr (), d')"
    and fresh: "\<not> in_ledger (ev_event_id e) d"
    using assms(3) by (simp_all add: event_applied_def)
  show "db_ok d'"
    using keepsD [OF event_handler.handle_ok [OF assms(1)] run with_ledger_row_ok [OF assms(2) fresh]] .
  show grow: "db_grows (with_ledger_row w clk e d) d'"
    using staysD [OF event_handler.handle_grows [OF assms(1)] run] .
  then show "in_ledger (ev_event_id e) d'"
    by (simp add: db_grows_def in_ledger_def ledger_row_def)
qed

section \<open>One call of \<open>process\<close>\<close>

lemma process_db:
  assumes "process p clk fault e (d, r) = (res, d', r')"
  shows "d' = d \<and> res \<noteq> Inr processed_result \<or>
    (\<exists>h x. pr_registry p (ev_event_type e) = Some h
       \<and> apply_event (pr_registry p) (pr_outside p) clk fault e d = (x, d')
       \<and> (res = Inr processed_result \<longrightarrow> x = Inr processed_result)
       \<and> (\<forall>y. x = Inr y \<longrightarrow> res = Inr y))"
proof -
  have neq: "Inr \<lparr>res_outcome = oc, res_detail = s\<rparr> \<noteq> (Inr processed_result :: exn + result)"
    if "oc \<noteq> PROCESSED" for oc s
    using that by (simp add: processed_result_def)
  show ?thesis
  proof (cases "pr_registry p (ev_event_type e)")
    case None
    then show ?thesis
      using assms by (auto simp: process_def registry_supports_def processed_result_def)
  next
    case (Some h)
    obtain b r1 where claim: "claim (pr_settings p) (pr_redis p) (ev_event_id e) r = (b, r1)"
      by (cases "claim (pr_settings p) (pr_redis p) (ev_event_id e) r")
    obtain x d1 where x: "apply_event (pr_registry p) (pr_outside p) clk fault e d = (x, d1)"
      by (cases "apply_event (pr_registry p) (pr_outside p) clk fault e d")
    show ?thesis
      using assms Some claim x
      by (cases x)
        (auto simp: process_def registry_supports_def processed_result_def Let_def
          split: bool.splits exn.splits sum.splits if_splits)
  qed
qed

lemma process_db_cases:
  assumes "registry_ok (pr_registry p)" and "process p clk fault e (d, r) = (res, d', r')"
  shows "counters_le d d'"
    and "rows_same d d' \<and> res \<noteq> Inr processed_result \<or>
      (\<exists>h. pr_registry p (ev_event_type e) = Some h
         \<and> event_applied h (pr_outside p) clk e d d'
         \<and> (res = Inr processed_result \<or> (\<exists>x. fault = CommitInDoubt x)))"
proof -
  from process_db [OF assms(2)]
  have "counters_le d d' \<and> (rows_same d d' \<and> res \<noteq> Inr processed_result \<or>
      (\<exists>h. pr_registry p (ev_event_type e) = Some h
         \<and> event_applied h (pr_outside p) clk e d d'
         \<and> (res = Inr processed_result \<or> (\<exists>x. fault = CommitInDoubt x))))"
  proof
    assume "\<exists>h x. pr_registry p (ev_event_type e) = Some h
       \<and> apply_event (pr_registry p) (pr_outside p) clk fault e d = (x, d')
       \<and> (res = Inr processed_result \<longrightarrow> x = Inr processed_result)
       \<and> (\<forall>y. x = Inr y \<longrightarrow> res = Inr y)"
    then obtain h x where h: "pr_registry p (ev_event_type e) = Some h"
      and run: "apply_event (pr_registry p) (pr_outside p) clk fault e d = (x, d')"
      and x: "res = Inr processed_result \<Longrightarrow> x = Inr processed_result"
        "\<And>y. x = Inr y \<Longrightarrow> res = Inr y"
      by blast
    have "event_handler h"
      using assms(1) h by (simp add: registry_ok_def)
    from apply_event_cases [OF this h run] h x show ?thesis by blast
  qed simp
  then show "counters_le d d'"
    and "rows_same d d' \<and> res \<noteq> Inr processed_result \<or>
      (\<exists>h. pr_registry p (ev_event_type e) = Some h
         \<and> event_applied h (pr_outside p) clk e d d'
         \<and> (res = Inr processed_result \<or> (\<exists>x. fault = CommitInDoubt x)))"
    by blast+
qed

lemma process_keeps_ok:
  assumes "registry_ok (pr_registry p)" and "db_ok d"
    and "process p clk fault e (d, r) = (res, d', r')"
  shows "db_ok d'"
proof -
  note c = process_db_cases [OF assms(1,3)]
  from c(2) show ?thesis
  proof
    assume "rows_same d d' \<and> res \<noteq> Inr processed_result"
    then show ?thesis
      using rollback_ok [OF assms(2) c(1)] by (simp add: rows_same_def)
  next
    assume "\<exists>h. pr_registry p (ev_event_type e) = Some h
         \<and> event_applied h (pr_outside p) clk e d d'
         \<and> (res = Inr processed_result \<or> (\<exists>x. fault = CommitInDoubt x))"
    then obtain h where "pr_registry p (ev_event_type e) = Some h"
      and app: "event_applied h (pr_outside p) clk e d d'" by blast
    then have "event_handler h"
      using assms(1) by (simp add: registry_ok_def)
    from event_applied_ok(1) [OF this assms(2) app] show ?thesis .
  qed
qed

text \<open>
  An invariant of the tables that a rollback, the ledger row and every handler of the worker keep is kept
  by a call of \<open>process\<close>, whatever it comes to.
\<close>

lemma process_keeps:
  assumes "pr_registry p = build_registry" and "db_ok d" and "I d"
    and run: "process p clk fault e (d, r) = (res, d', r')"
    and same: "\<And>d'. rows_same d d' \<Longrightarrow> I d'"
    and ledger: "processed_event_fits (ledger_row (pr_outside p) clk e) \<Longrightarrow> I (with_ledger_row (pr_outside p) clk e d)"
    and handler: "\<And>h d0 d'. build_registry (ev_event_type e) = Some h \<Longrightarrow> db_ok d0 \<Longrightarrow> I d0 \<Longrightarrow>
      h (pr_outside p) clk e d0 = (Inr (), d') \<Longrightarrow> I d'"
  shows "I d'"
proof -
  have "registry_ok (pr_registry p)" by (simp add: assms(1) build_registry_ok)
  from process_db_cases(2) [OF this run] show ?thesis
  proof
    assume "rows_same d d' \<and> res \<noteq> Inr processed_result"
    then show ?thesis using same by blast
  next
    assume "\<exists>h. pr_registry p (ev_event_type e) = Some h
         \<and> event_applied h (pr_outside p) clk e d d'
         \<and> (res = Inr processed_result \<or> (\<exists>x. fault = CommitInDoubt x))"
    then obtain h where h: "build_registry (ev_event_type e) = Some h"
      and fits: "processed_event_fits (ledger_row (pr_outside p) clk e)"
      and fresh: "\<not> in_ledger (ev_event_id e) d"
      and app: "h (pr_outside p) clk e (with_ledger_row (pr_outside p) clk e d) = (Inr (), d')"
      by (auto simp: event_applied_def assms(1))
    from handler [OF h with_ledger_row_ok [OF assms(2) fresh] ledger [OF fits] app] show ?thesis .
  qed
qed

section \<open>The past\<close>

lemma with_ledger_row_grow:
  "rows_grow (with_ledger_row w clk e d) d' = rows_grow d d'"
  by (simp add: rows_grow_def)

lemma rows_same_grow: "rows_same d d' \<Longrightarrow> rows_grow d d'"
  by (simp add: rows_grow_def rows_sameD)

lemma process_grows:
  assumes "registry_ok (pr_registry p)" and "db_ok d" and "process p clk fault e (d, r) = (res, d', r')"
  shows "rows_grow d d' \<and> counters_le d d' \<and> prefix (processed_events d) (processed_events d')"
proof -
  from process_db_cases(2) [OF assms(1,3)]
  have "rows_grow d d' \<and> prefix (processed_events d) (processed_events d')"
  proof
    assume "rows_same d d' \<and> res \<noteq> Inr processed_result"
    then show ?thesis using rows_same_grow rows_sameD(3) by auto
  next
    assume "\<exists>h. pr_registry p (ev_event_type e) = Some h
         \<and> event_applied h (pr_outside p) clk e d d'
         \<and> (res = Inr processed_result \<or> (\<exists>x. fault = CommitInDoubt x))"
    then obtain h where "pr_registry p (ev_event_type e) = Some h"
      and app: "event_applied h (pr_outside p) clk e d d'" by blast
    then have "event_handler h"
      using assms(1) by (simp add: registry_ok_def)
    from event_applied_ok(3) [OF this assms(2) app] show ?thesis
      by (simp add: db_grows_def with_ledger_row_grow)
  qed
  with process_db_cases(1) [OF assms(1,3)] show ?thesis by blast
qed

end
