(* ===== verification/Handler_Runs.thy ===== *)
theory Handler_Runs
  imports Handler_Proofs
begin

text \<open>
  The handlers run to the end: on a consistent database each validated event is either carried out,
  with the effect the lemmas name, or fails for one of a few named reasons.
\<close>

section \<open>Client events\<close>

lemma client_rows_same:
  assumes "db_keys d" and "r \<in> set (clients d)" and "r' \<in> set (clients d)"
    and "cl_client_id r = cl_client_id r'"
  shows "r = r'"
proof -
  have "distinct (map cl_client_id (clients d))"
    using assms(1) by (simp add: db_keys_def keyed_def)
  then show ?thesis using assms(2-4) by (rule distinct_map_eq)
qed

lemma clients_upsert_total:
  assumes "client_upserted_ok c" and "db_keys d"
  obtains r d1 where
    "clients_upsert clk (cu_client_uid c) (cu_full_name c) (cu_document c) (cu_email c) d = (Inr r, d1)"
    and "r \<in> set (clients d1)" and "cl_client_uid r = cu_client_uid c"
    and "cl_full_name r = cu_full_name c" and "cl_document r = cu_document c"
    and "cl_email r = cu_email c"
    and "addresses d1 = addresses d" and "orders d1 = orders d"
proof (cases "find (\<lambda>r. cl_client_uid r = cu_client_uid c) (clients d)")
  case None
  then have fresh: "cu_client_uid c \<notin> cl_client_uid ` set (clients d)"
    by (auto simp: find_None_iff)
  let ?row = "\<lparr>cl_client_id = client_seq d, cl_client_uid = cu_client_uid c,
    cl_full_name = cu_full_name c, cl_document = cu_document c, cl_email = cu_email c,
    cl_created_at = db_now clk, cl_updated_at = db_now clk\<rparr>"
  have fits: "client_fits ?row"
    using assms(1) by (simp add: client_fits_def client_upserted_ok_def len_between_def)
  show thesis
    by (rule that [of ?row "d\<lparr>client_seq := client_seq d + 1, clients := clients d @ [?row]\<rparr>"])
      (use None fresh fits in \<open>simp_all add: clients_upsert_def clients_get_by_uid_def clients_insert_def
        insert_client_def Let_def checked_insert_def\<close>)
next
  case (Some r0)
  let ?f = "client_refresh clk (cu_full_name c) (cu_document c) (cu_email c)"
  have r0: "r0 \<in> set (clients d)" "cl_client_uid r0 = cu_client_uid c"
    using Some by (auto dest: find_SomeD)
  have "client_fits (?f r0)"
    using assms(1) r0(2)
    by (simp add: client_fits_def client_refresh_def client_upserted_ok_def len_between_def)
  then have fits: "client_fits (?f r)" if "r \<in> set (clients d)" "cl_client_id r = cl_client_id r0" for r
    using client_rows_same [OF assms(2) that(1) r0(1) that(2)] by simp
  show thesis
    by (rule that [of "?f r0" "d\<lparr>clients := upd_where (\<lambda>r. cl_client_id r = cl_client_id r0) ?f (clients d)\<rparr>"])
      (use Some fits r0 in \<open>auto simp: clients_upsert_def clients_get_by_uid_def bnd_def update_client_def
        client_refresh_def set_upd_where\<close>)
qed

definition address_opened :: "clock \<Rightarrow> int \<Rightarrow> int \<Rightarrow> address_payload \<Rightarrow> address_row" where
  "address_opened clk aid cid p =
     \<lparr>ad_address_id = aid, ad_address_uid = ap_address_uid p, ad_client_id = cid,
       ad_street = ap_street p, ad_number = ap_number p, ad_complement = ap_complement p,
       ad_district = ap_district p, ad_city = ap_city p, ad_state = ap_state p,
       ad_zip_code = ap_zip_code p, ad_valid_from = app_now clk, ad_valid_to = None,
       ad_is_current = True\<rparr>"

lemma address_opened_simps [simp]:
  "ad_address_uid (address_opened clk aid cid p) = ap_address_uid p"
  "ad_is_current (address_opened clk aid cid p)"
  "ad_client_id (address_opened clk aid cid p) = cid"
  "\<not> address_differs_from (address_opened clk aid cid p) p"
  by (simp_all add: address_opened_def address_differs_from_def)

lemma open_version_run:
  assumes "address_payload_ok p" and "cid \<in> cl_client_id ` set (clients d)"
    and "\<And>a. a \<in> set (addresses d) \<Longrightarrow> ad_is_current a \<Longrightarrow> ad_address_uid a \<noteq> ap_address_uid p"
  shows "addresses_open_version cid p (app_now clk) d =
    (Inr (address_opened clk (address_seq d) cid p),
     d\<lparr>address_seq := address_seq d + 1,
       addresses := addresses d @ [address_opened clk (address_seq d) cid p]\<rparr>)"
proof -
  have "address_fits (address_opened clk (address_seq d) cid p)"
    using assms(1)
    by (auto simp: address_fits_def address_opened_def address_payload_ok_def len_between_def
        split: option.splits)
  with assms(2,3) show ?thesis
    by (auto simp: addresses_open_version_def insert_address_def Let_def checked_insert_def
        address_opened_def)
qed

text \<open>The versions after an upsert: nothing, a first version, or the current one closed and a new one.\<close>

definition versions_after :: "clock \<Rightarrow> int \<Rightarrow> int \<Rightarrow> address_payload \<Rightarrow> address_row list \<Rightarrow> address_row list" where
  "versions_after clk aid cid p rs =
     (case find (\<lambda>r. ad_address_uid r = ap_address_uid p \<and> ad_is_current r) rs of
        None \<Rightarrow> rs @ [address_opened clk aid cid p]
      | Some a \<Rightarrow>
          if \<not> address_differs_from a p then rs
          else upd_where (\<lambda>r. ad_address_id r = ad_address_id a) (address_closed (app_now clk)) rs
               @ [address_opened clk aid cid p])"

lemma current_version_unique:
  assumes "db_versions d" and "a \<in> set (addresses d)" "ad_is_current a"
    and "b \<in> set (addresses d)" "ad_is_current b" and "ad_address_uid a = ad_address_uid b"
  shows "a = b"
proof -
  have "distinct (map ad_address_uid (filter ad_is_current (addresses d)))"
    using assms(1) by (simp add: db_versions_def)
  from distinct_map_eq [OF this _ _ assms(6)] assms(2-5) show ?thesis by simp
qed

lemma upsert_version_run:
  assumes "db_ok d" and "address_payload_ok p" and "cid \<in> cl_client_id ` set (clients d)"
  obtains a d' where "addresses_upsert_version clk cid p d = (Inr a, d')"
    and "addresses d' = versions_after clk (address_seq d) cid p (addresses d)"
    and "clients d' = clients d" and "orders d' = orders d"
proof (cases "find (\<lambda>r. ad_address_uid r = ap_address_uid p \<and> ad_is_current r) (addresses d)")
  case None
  then have "ad_address_uid a \<noteq> ap_address_uid p" if "a \<in> set (addresses d)" "ad_is_current a" for a
    using that by (auto simp: find_None_iff)
  note run = open_version_run [OF assms(2,3) this, of clk]
  show thesis
    by (rule that [of "address_opened clk (address_seq d) cid p" "snd (addresses_open_version cid p (app_now clk) d)"])
      (use None run in \<open>simp_all add: addresses_upsert_version_def addresses_get_current_version_def versions_after_def\<close>)
next
  case (Some a)
  have a: "a \<in> set (addresses d)" "ad_is_current a" "ad_address_uid a = ap_address_uid p"
    using Some by (auto dest: find_SomeD)
  show thesis
  proof (cases "address_differs_from a p")
    case False
    then show thesis
      using Some by (intro that [of a d])
        (simp_all add: addresses_upsert_version_def addresses_get_current_version_def versions_after_def)
  next
    case True
    let ?d1 = "d\<lparr>addresses := upd_where (\<lambda>r. ad_address_id r = ad_address_id a) (address_closed (app_now clk)) (addresses d)\<rparr>"
    have "ad_address_uid b \<noteq> ap_address_uid p" if "b \<in> set (addresses ?d1)" "ad_is_current b" for b
    proof
      assume uid: "ad_address_uid b = ap_address_uid p"
      from that have b: "b \<in> set (addresses d)" "ad_address_id b \<noteq> ad_address_id a"
        by (auto simp: set_upd_where)
      have "b = a"
        using current_version_unique [OF db_okD(3) [OF assms(1)] b(1) that(2) a(1,2)] uid a(3) by simp
      with b(2) show False by simp
    qed
    moreover have "cid \<in> cl_client_id ` set (clients ?d1)"
      using assms(3) by simp
    ultimately have run: "addresses_open_version cid p (app_now clk) ?d1 =
      (Inr (address_opened clk (address_seq ?d1) cid p),
       ?d1\<lparr>address_seq := address_seq ?d1 + 1,
         addresses := addresses ?d1 @ [address_opened clk (address_seq ?d1) cid p]\<rparr>)"
      by (intro open_version_run [OF assms(2)]) auto
    show thesis
      by (rule that [of "address_opened clk (address_seq ?d1) cid p" "snd (addresses_open_version cid p (app_now clk) ?d1)"])
        (use Some True run in \<open>simp_all add: addresses_upsert_version_def addresses_get_current_version_def
          versions_after_def addresses_close_version_def update_address_def bnd_def\<close>)
  qed
qed

lemma handle_client_run:
  assumes "db_ok d" and "validate_client w (ev_data e) = Some c"
  obtains r d' aid where "handle_client w clk e d = (Inr (), d')"
    and "r \<in> set (clients d')" and "cl_client_uid r = cu_client_uid c"
    and "cl_full_name r = cu_full_name c" and "cl_document r = cu_document c"
    and "cl_email r = cu_email c"
    and "addresses d' = versions_after clk aid (cl_client_id r) (cu_address c) (addresses d)"
    and "orders d' = orders d"
proof -
  have c: "client_upserted_ok c"
    using assms(2) by (rule validate_client_ok)
  then have p: "address_payload_ok (cu_address c)"
    by (simp add: client_upserted_ok_def)
  from c db_okD(1) [OF assms(1)] obtain r d1 where
    up: "clients_upsert clk (cu_client_uid c) (cu_full_name c) (cu_document c) (cu_email c) d = (Inr r, d1)"
    and r: "r \<in> set (clients d1)" "cl_client_uid r = cu_client_uid c" "cl_full_name r = cu_full_name c"
      "cl_document r = cu_document c" "cl_email r = cu_email c"
    and ad: "addresses d1 = addresses d" "orders d1 = orders d"
    by (rule clients_upsert_total [where clk = clk])
  have ok1: "db_ok d1"
    using clients_upsert_ok up assms(1) by (blast dest: keepsD)
  have "cl_client_id r \<in> cl_client_id ` set (clients d1)"
    using r(1) by simp
  with ok1 p obtain a d' where
    ver: "addresses_upsert_version clk (cl_client_id r) (cu_address c) d1 = (Inr a, d')"
    and d': "addresses d' = versions_after clk (address_seq d1) (cl_client_id r) (cu_address c) (addresses d1)"
      "clients d' = clients d1" "orders d' = orders d1"
    by (rule upsert_version_run [where clk = clk])
  have "handle_client w clk e d = (Inr (), d')"
    using assms(2) up ver by (simp add: handle_client_def bnd_def)
  with r ad d' show thesis by (intro that [of d' r "address_seq d1"]) simp_all
qed

section \<open>Order events\<close>

definition current_address :: "string \<Rightarrow> db \<Rightarrow> address_row option" where
  "current_address uid d = find (\<lambda>r. ad_address_uid r = uid \<and> ad_is_current r) (addresses d)"

lemma require_current_address_run:
  "require_current_address uid d =
    (case current_address uid d of
       None \<Rightarrow> (Inl (DependencyNotReadyError (''endereco '' @ uid @ '' ausente'')), d)
     | Some a \<Rightarrow> (Inr a, d))"
  by (simp add: require_current_address_def addresses_get_current_version_def current_address_def
      split: option.splits)

text \<open>The uid whose current version the order is billed to.\<close>

definition billing_uid :: "order_created \<Rightarrow> string" where
  "billing_uid c =
     (case oc_billing_address_uid c of
        None \<Rightarrow> oc_shipping_address_uid c
      | Some uid \<Rightarrow> if uid = [] then oc_shipping_address_uid c else uid)"

lemma resolve_billing_address_run:
  assumes "current_address (oc_shipping_address_uid c) d = Some s"
  shows "resolve_billing_address c s d = require_current_address (billing_uid c) d"
  using assms
  by (auto simp: resolve_billing_address_def billing_uid_def require_current_address_run split: option.splits)

lemma handle_order_known:
  assumes "validate_order w (ev_data e) = Some c" and "oc_order_uid c \<in> or_order_uid ` set (orders d)"
  shows "handle_order w clk e d = (Inr (), d)"
proof -
  have "filter (\<lambda>r. or_order_uid r = oc_order_uid c) (orders d) \<noteq> []"
    using assms(2) by (auto simp: filter_empty_conv)
  with assms(1) show ?thesis
    by (simp add: handle_order_def orders_exists_def)
qed

lemma handle_order_new:
  assumes "validate_order w (ev_data e) = Some c" and "oc_order_uid c \<notin> or_order_uid ` set (orders d)"
  shows "handle_order w clk e d =
    (case find (\<lambda>r. cl_client_uid r = oc_client_uid c) (clients d) of
       None \<Rightarrow> (Inl (DependencyNotReadyError (''cliente '' @ oc_client_uid c @ '' ainda nao ingerido'')), d)
     | Some cl \<Rightarrow>
         (case current_address (oc_shipping_address_uid c) d of
            None \<Rightarrow> (Inl (DependencyNotReadyError (''endereco '' @ oc_shipping_address_uid c @ '' ausente'')), d)
          | Some s \<Rightarrow>
              (case current_address (billing_uid c) d of
                 None \<Rightarrow> (Inl (DependencyNotReadyError (''endereco '' @ billing_uid c @ '' ausente'')), d)
               | Some b \<Rightarrow> bnd (orders_create clk (oc_order_uid c) (cl_client_id cl)
                         (ad_address_id s) (ad_address_id b) (oc_currency c)
                         (total_amount c) (naive (oc_placed_at c)) (ev_event_id e) (oc_items c))
                         (\<lambda>_. ret ()) d)))"
proof -
  have "filter (\<lambda>r. or_order_uid r = oc_order_uid c) (orders d) = []"
    using assms(2) by (force simp: filter_empty_conv)
  with assms(1) show ?thesis
    by (simp add: handle_order_def orders_exists_def clients_get_by_uid_def bnd_def
        require_current_address_run resolve_billing_address_run split: option.splits)
qed

text \<open>An order whose lines fit their columns is created once its client and addresses are there.\<close>

definition lines_fit :: "order_created \<Rightarrow> bool" where
  "lines_fit c \<longleftrightarrow>
     (\<forall>i \<in> set (oc_items c). int32 (oi_quantity i) \<and> numeric_19_4 (oi_unit_price i * oi_quantity i))
     \<and> numeric_19_4 (total_amount c)"

lemma orders_add_items_total:
  assumes "or_order_id o1 \<in> or_order_id ` set (orders d)"
    and "\<And>r. r \<in> set (orders d) \<Longrightarrow> or_order_id r = or_order_id o1 \<Longrightarrow> \<not> closed_row r"
    and "\<And>i. i \<in> set items \<Longrightarrow> order_item_ok i \<and> int32 (oi_quantity i) \<and> numeric_19_4 (oi_unit_price i * oi_quantity i)"
  shows "\<exists>d'. orders_add_items o1 items d = (Inr (), d')"
  using assms
proof (induction items arbitrary: d)
  case Nil
  then show ?case by (simp add: orders_add_items_def)
next
  case (Cons i items)
  let ?row = "\<lparr>it_order_item_id = item_seq d, it_order_id = or_order_id o1,
       it_sku = oi_sku i, it_description = oi_description i, it_quantity = oi_quantity i,
       it_unit_price = oi_unit_price i, it_line_total = oi_unit_price i * oi_quantity i\<rparr>"
  let ?d1 = "d\<lparr>item_seq := item_seq d + 1, order_items := order_items d @ [?row]\<rparr>"
  have "item_fits ?row"
    using Cons.prems(3) [of i] by (auto simp: item_fits_def order_item_ok_def money_fits)
  moreover have "\<not> items_trigger_fires (orders d) [] [?row]"
    using Cons.prems(2) by (auto simp: items_trigger_fires_def)
  ultimately have ins: "insert_item \<lparr>it_order_item_id = 0, it_order_id = or_order_id o1,
       it_sku = oi_sku i, it_description = oi_description i, it_quantity = oi_quantity i,
       it_unit_price = oi_unit_price i, it_line_total = oi_unit_price i * oi_quantity i\<rparr> d = (Inr ?row, ?d1)"
    using Cons.prems(1) by (simp add: insert_item_Inr)
  have "\<exists>d'. orders_add_items o1 items ?d1 = (Inr (), d')"
    using Cons.prems by (intro Cons.IH) auto
  with ins show ?case by (auto simp: orders_add_items_def bnd_def)
qed

lemma orders_create_total:
  assumes "order_created_ok c" and "lines_fit c" and "oc_order_uid c \<notin> or_order_uid ` set (orders d)"
    and "cid \<in> cl_client_id ` set (clients d)" and "sa \<in> ad_address_id ` set (addresses d)"
    and "ba \<in> ad_address_id ` set (addresses d)" and "length ev \<le> 64" and "db_keys d"
  shows "\<exists>o1 d'. orders_create clk (oc_order_uid c) cid sa ba (oc_currency c) (total_amount c) pl ev (oc_items c) d
    = (Inr o1, d')"
proof -
  let ?row = "\<lparr>or_order_id = order_seq d, or_order_uid = oc_order_uid c, or_client_id = cid,
            or_shipping_address_id = sa, or_billing_address_id = ba,
            or_status = OrdPENDING, or_currency = oc_currency c, or_total_amount = total_amount c,
            or_placed_at = pl, or_closed_at = None, or_source_event_id = ev,
            or_created_at = db_now clk\<rparr>"
  let ?d1 = "d\<lparr>order_seq := order_seq d + 1, orders := orders d @ [?row]\<rparr>"
  have fits: "order_fits ?row"
    using assms(1,2,7) by (simp add: order_fits_def order_created_ok_def lines_fit_def len_between_def)
  have ins: "insert_order (?row\<lparr>or_order_id := 0\<rparr>) d = (Inr ?row, ?d1)"
    using assms(3-6) fits total_amount_nonneg [OF assms(1)] by (simp add: insert_order_Inr)
  have "or_order_id r \<noteq> order_seq d" if "r \<in> set (orders d)" for r
    using that assms(8) by (force simp: db_keys_def keyed_def)
  then have "\<exists>d'. orders_add_items ?row (oc_items c) ?d1 = (Inr (), d')"
    using assms(1,2)
    by (intro orders_add_items_total) (auto simp: closed_row_def order_created_ok_def lines_fit_def)
  with ins show ?thesis
    by (auto simp: orders_create_def bnd_def)
qed

section \<open>Invoice events\<close>

lemma handle_invoice_known:
  assumes "validate_invoice w (ev_data e) = Some v"
    and "find (\<lambda>r. or_order_uid r = ii_order_uid v) (orders d) = Some o1"
    and "or_order_id o1 \<in> in_order_id ` set (invoices d)"
  shows "handle_invoice w clk e d = (Inr (), d)"
proof -
  have "filter (\<lambda>r. in_order_id r = or_order_id o1) (invoices d) \<noteq> []"
    using assms(3) by (auto simp: filter_empty_conv)
  with assms(1,2) show ?thesis
    by (simp add: handle_invoice_def bnd_def require_order_run invoices_exists_for_order_def)
qed

definition invoice_for :: "clock \<Rightarrow> int \<Rightarrow> order_row \<Rightarrow> invoice_issued \<Rightarrow> invoice_row" where
  "invoice_for clk k o1 v =
     \<lparr>in_invoice_id = k, in_order_id = or_order_id o1, in_invoice_number = ii_invoice_number v,
       in_series = ii_series v, in_access_key = ii_access_key v, in_issued_at = naive (ii_issued_at v),
       in_total_amount = ii_total_amount v, in_status = ''ISSUED'', in_created_at = db_now clk\<rparr>"

definition invoice_taken :: "invoice_issued \<Rightarrow> db \<Rightarrow> bool" where
  "invoice_taken v d \<longleftrightarrow>
     (\<exists>q \<in> set (invoices d). in_invoice_number q = ii_invoice_number v \<and> in_series q = ii_series v)"

lemma handle_invoice_new:
  assumes "db_ok d" and "validate_invoice w (ev_data e) = Some v"
    and "find (\<lambda>r. or_order_uid r = ii_order_uid v) (orders d) = Some o1"
    and "or_order_id o1 \<notin> in_order_id ` set (invoices d)"
  shows "handle_invoice w clk e d =
    (if invoice_taken v d
     then (Inl (IntegrityError ''ux_invoice_number_series''), d\<lparr>invoice_seq := invoice_seq d + 1\<rparr>)
     else let d1 = d\<lparr>invoice_seq := invoice_seq d + 1,
                      invoices := invoices d @ [invoice_for clk (invoice_seq d) o1 v]\<rparr> in
          (Inr (), if or_status o1 = OrdAPPROVED
                   then orders_after_move o1 OrdINVOICED (naive (ii_issued_at v)) d1 else d1))"
proof -
  have none: "filter (\<lambda>r. in_order_id r = or_order_id o1) (invoices d) = []"
    using assms(4) by (force simp: filter_empty_conv)
  have o1: "o1 \<in> set (orders d)"
    using assms(3) by (auto dest: find_SomeD)
  have fits: "invoice_fits (invoice_for clk (invoice_seq d) o1 v)"
    using validate_invoice_ok [OF assms(2)]
    by (simp add: invoice_fits_def invoice_for_def invoice_issued_ok_def money_fits)
  let ?d1 = "d\<lparr>invoice_seq := invoice_seq d + 1,
               invoices := invoices d @ [invoice_for clk (invoice_seq d) o1 v]\<rparr>"
  have create: "invoices_create clk (or_order_id o1) (ii_invoice_number v) (ii_series v)
        (ii_access_key v) (naive (ii_issued_at v)) (ii_total_amount v) d =
      (if invoice_taken v d
       then (Inl (IntegrityError ''ux_invoice_number_series''), d\<lparr>invoice_seq := invoice_seq d + 1\<rparr>)
       else (Inr (invoice_for clk (invoice_seq d) o1 v), ?d1))"
    using fits o1 assms(4)
    by (auto simp: invoices_create_def insert_invoice_def Let_def checked_insert_def invoice_for_def
        invoice_taken_def)
  show ?thesis
  proof (cases "invoice_taken v d")
    case True
    with create none assms(2,3) show ?thesis
      by (simp add: handle_invoice_def bnd_def require_order_run invoices_exists_for_order_def)
  next
    case False
    with create have "invoices_create clk (or_order_id o1) (ii_invoice_number v) (ii_series v)
        (ii_access_key v) (naive (ii_issued_at v)) (ii_total_amount v) d =
        (Inr (invoice_for clk (invoice_seq d) o1 v), ?d1)"
      by simp
    then have ok1: "db_ok ?d1"
      using assms(1) by (rule keepsD [OF invoices_create_ok])
    show ?thesis
      using False create none assms(2,3)
      by (simp add: handle_invoice_def bnd_def require_order_run invoices_exists_for_order_def Let_def
          orders_transition_run [OF db_okD(1,2,7,4) [OF ok1]] only_approved_invoices)
  qed
qed

end
