(* ===== verification/Scenario.thy ===== *)
theory Scenario
  imports Processor_Proofs Handler_Runs
begin

text \<open>
  A concrete run for the witnesses: one client with an address, one order of two lines, its
  approved payment and its invoice, processed one after the other by the worker's own processor
  with a Redis store that answers. The four databases the run goes through are evaluated by the
  simplifier from the definitions of the code.
\<close>

datatype sample =
    SClient client_upserted
  | SOrder order_created
  | SPayment payment_updated
  | SInvoice invoice_issued
  | SJunk

definition sample_outside :: "sample outside" where
  "sample_outside = \<lparr>
     dec_client = (\<lambda>x. case x of SClient c \<Rightarrow> Some c | _ \<Rightarrow> None),
     dec_order = (\<lambda>x. case x of SOrder c \<Rightarrow> Some c | _ \<Rightarrow> None),
     dec_payment = (\<lambda>x. case x of SPayment c \<Rightarrow> Some c | _ \<Rightarrow> None),
     dec_invoice = (\<lambda>x. case x of SInvoice c \<Rightarrow> Some c | _ \<Rightarrow> None),
     fingerprint = (\<lambda>e. ''f00d'')\<rparr>"

definition sample_processor :: "(sample, string set \<times> bool) processor" where
  "sample_processor = \<lparr>pr_registry = build_registry, pr_redis = key_store,
     pr_settings = default_settings, pr_outside = sample_outside\<rparr>"

definition sample_clock :: clock where
  "sample_clock = \<lparr>app_now = 1000, db_now = 1001\<rparr>"

definition at_utc :: "int \<Rightarrow> pydatetime" where
  "at_utc n = \<lparr>wall = n, utc_offset = Some 0\<rparr>"

definition sample_event :: "string \<Rightarrow> event_type \<Rightarrow> sample \<Rightarrow> sample envelope" where
  "sample_event i t x = \<lparr>ev_event_id = i, ev_event_type = t, ev_occurred_at = at_utc 900,
     ev_partner = ''loja'', ev_data = x\<rparr>"

definition sample_address :: address_payload where
  "sample_address = \<lparr>ap_address_uid = ''A1'', ap_street = ''Rua Um'', ap_number = ''10'',
     ap_complement = None, ap_district = ''Centro'', ap_city = ''Recife'', ap_state = ''pe'',
     ap_zip_code = ''50000000''\<rparr>"

definition client_event :: "sample envelope" where
  "client_event = sample_event ''evt-0001'' CLIENT_UPSERTED (SClient
     \<lparr>cu_client_uid = ''C1'', cu_full_name = ''Ana'', cu_document = ''12345678901'',
      cu_email = ''ana@x.br'', cu_address = sample_address\<rparr>)"

definition sample_order :: order_created where
  "sample_order = \<lparr>oc_order_uid = ''O1'', oc_client_uid = ''C1'', oc_shipping_address_uid = ''A1'',
     oc_billing_address_uid = None, oc_currency = ''BRL'', oc_placed_at = at_utc 910,
     oc_items = [\<lparr>oi_sku = ''S1'', oi_description = ''Livro'', oi_quantity = 2, oi_unit_price = 300000\<rparr>,
                 \<lparr>oi_sku = ''S2'', oi_description = ''Caneta'', oi_quantity = 1, oi_unit_price = 50000\<rparr>]\<rparr>"

definition order_event :: "sample envelope" where
  "order_event = sample_event ''evt-0002'' ORDER_CREATED (SOrder sample_order)"

definition sample_payment :: payment_updated where
  "sample_payment = \<lparr>pu_order_uid = ''O1'', pu_provider = ''pay'', pu_provider_tx_id = ''T1'',
     pu_method = PIX, pu_status = PayAPPROVED, pu_amount = 650000, pu_occurred_at = at_utc 920\<rparr>"

definition payment_event :: "sample envelope" where
  "payment_event = sample_event ''evt-0003'' PAYMENT_UPDATED (SPayment sample_payment)"

definition sample_invoice :: invoice_issued where
  "sample_invoice = \<lparr>ii_order_uid = ''O1'', ii_invoice_number = ''1'', ii_series = ''1'',
     ii_access_key = ''K1'', ii_issued_at = at_utc 930, ii_total_amount = 650000\<rparr>"

definition invoice_event :: "sample envelope" where
  "invoice_event = sample_event ''evt-0004'' INVOICE_ISSUED (SInvoice sample_invoice)"

definition after_process :: "sample envelope \<Rightarrow> db \<Rightarrow> db" where
  "after_process e d = fst (snd (process sample_processor sample_clock CommitOk e (d, ({}, True))))"

definition db_1 :: db where "db_1 = after_process client_event empty_db"
definition db_2 :: db where "db_2 = after_process order_event db_1"
definition db_3 :: db where "db_3 = after_process payment_event db_2"
definition db_4 :: db where "db_4 = after_process invoice_event db_3"

lemma sample_registry_ok: "registry_ok (pr_registry sample_processor)"
  by (simp add: sample_processor_def build_registry_ok)

lemma after_process_ok: "db_ok d \<Longrightarrow> db_ok (after_process e d)"
  unfolding after_process_def
  by (rule process_keeps_ok [OF sample_registry_ok]) (auto simp: prod_eq_iff)

lemma db_ok_samples: "db_ok db_1" "db_ok db_2" "db_ok db_3" "db_ok db_4"
  by (simp_all add: db_1_def db_2_def db_3_def db_4_def after_process_ok empty_db_ok)

lemma db_1_eval: "clients db_1 = [\<lparr>cl_client_id = 1, cl_client_uid = ''C1'', cl_full_name = ''Ana'',
    cl_document = ''12345678901'', cl_email = ''ana@x.br'', cl_created_at = 1001, cl_updated_at = 1001\<rparr>]"
  by code_simp

lemma db_2_eval: "map or_status (orders db_2) = [OrdPENDING] \<and> map or_total_amount (orders db_2) = [650000]"
  by code_simp

lemma db_3_eval: "map or_status (orders db_3) = [OrdAPPROVED] \<and> length (outbox db_3) = 1"
  by code_simp

lemma db_4_eval: "map or_status (orders db_4) = [OrdINVOICED] \<and> length (invoices db_4) = 1"
  by code_simp

end
