(* ===== verification/Processor_Claims.thy ===== *)
theory Processor_Claims
  imports Scenario
begin

text \<open>
  The properties of the processing of one event (src/ingest_worker/processor.py,
  src/shared/messaging/dedupe.py, src/shared/db/uow.py), with their witnesses on the sample run.
\<close>

section \<open>All or nothing, and at most once\<close>

text \<open>
  C3. Processing is all or nothing. Whatever the event, the clocks, the state of Redis and what the
  commit meets, after \<open>process\<close> either no row of any table has changed and the outcome is not
  PROCESSED, or the event was new to the ledger and the database holds exactly its ledger row plus
  a completed run of its handler; if the commit reports no doubt, that second case is reported as
  PROCESSED. Both ways the database invariant still holds.
\<close>

theorem process_all_or_nothing:
  assumes "registry_ok (pr_registry p)" and "db_ok d"
    and "process p clk fault e (d, r) = (res, d', r')"
  shows "db_ok d' \<and>
    (rows_same d d' \<and> res \<noteq> Inr processed_result \<or>
      (\<exists>h. pr_registry p (ev_event_type e) = Some h
         \<and> event_applied h (pr_outside p) clk e d d'
         \<and> (res = Inr processed_result \<or> (\<exists>x. fault = CommitInDoubt x))))"
  using process_keeps_ok [OF assms] process_db_cases(2) [OF assms(1,3)] by blast

theorem process_all_or_nothing_witness:
  "\<exists>res d' r'. process sample_processor sample_clock CommitOk payment_event (db_2, ({}, True)) = (res, d', r')
     \<and> db_ok d' \<and> res = Inr processed_result"
proof -
  obtain res d' r' where
    run: "process sample_processor sample_clock CommitOk payment_event (db_2, ({}, True)) = (res, d', r')"
    by (cases "process sample_processor sample_clock CommitOk payment_event (db_2, ({}, True))") auto
  have "fst (process sample_processor sample_clock CommitOk payment_event (db_2, ({}, True))) = Inr processed_result"
    by code_simp
  with run process_all_or_nothing [OF sample_registry_ok db_ok_samples(2) run] show ?thesis by auto
qed

text \<open>
  C4. The ledger makes redelivery harmless. An event whose id is in \<open>processed_events\<close> changes no
  row and is not reported as PROCESSED, also when Redis has forgotten the event or does not answer
  at all; and an event reported as PROCESSED is in the ledger from then on.
\<close>

theorem process_at_most_once:
  assumes "registry_ok (pr_registry p)" and "db_ok d"
    and "process p clk fault e (d, r) = (res, d', r')"
  shows "(in_ledger (ev_event_id e) d \<longrightarrow> rows_same d d' \<and> res \<noteq> Inr processed_result)
    \<and> (res = Inr processed_result \<longrightarrow> \<not> in_ledger (ev_event_id e) d \<and> in_ledger (ev_event_id e) d')
    \<and> (\<forall>i. in_ledger i d \<longrightarrow> in_ledger i d')"
proof -
  from process_db_cases(2) [OF assms(1,3)] show ?thesis
  proof
    assume "rows_same d d' \<and> res \<noteq> Inr processed_result"
    then show ?thesis using rows_same_in_ledger [of d d'] by auto
  next
    assume "\<exists>h. pr_registry p (ev_event_type e) = Some h
         \<and> event_applied h (pr_outside p) clk e d d'
         \<and> (res = Inr processed_result \<or> (\<exists>x. fault = CommitInDoubt x))"
    then obtain h where h: "pr_registry p (ev_event_type e) = Some h"
      and app: "event_applied h (pr_outside p) clk e d d'" by blast
    then have eh: "event_handler h"
      using assms(1) by (simp add: registry_ok_def)
    have "processed_events d' = processed_events d @ [ledger_row (pr_outside p) clk e]"
      using event_applied_ok(3) [OF eh assms(2) app] by (simp add: db_grows_def)
    then have "in_ledger i d \<Longrightarrow> in_ledger i d'" for i by (auto simp: in_ledger_def)
    with app event_applied_ok(2) [OF eh assms(2) app] show ?thesis
      by (auto simp: event_applied_def)
  qed
qed

theorem process_at_most_once_witness:
  "\<exists>res d' r'. process sample_processor sample_clock CommitOk payment_event (db_3, ({}, False)) = (res, d', r')
     \<and> in_ledger (ev_event_id payment_event) db_3 \<and> rows_same db_3 d' \<and> res = Inr ledger_duplicate"
proof -
  obtain res d' r' where
    run: "process sample_processor sample_clock CommitOk payment_event (db_3, ({}, False)) = (res, d', r')"
    by (cases "process sample_processor sample_clock CommitOk payment_event (db_3, ({}, False))") auto
  have "fst (process sample_processor sample_clock CommitOk payment_event (db_3, ({}, False))) = Inr ledger_duplicate"
    by code_simp
  moreover have "in_ledger (ev_event_id payment_event) db_3"
    by code_simp
  ultimately show ?thesis
    using run process_at_most_once [OF sample_registry_ok db_ok_samples(3) run] by auto
qed

section \<open>The reservation in Redis\<close>

lemma process_retry_released:
  assumes "process p clk fault e (d, r) = (Inr res, d', r')" and "res_outcome res = RETRY"
    and "apply_event (pr_registry p) (pr_outside p) clk fault e d = (x, d1)" and "\<And>y. x = Inr y \<Longrightarrow> res_outcome y \<noteq> RETRY"
  shows "\<exists>r1. claim (pr_settings p) (pr_redis p) (ev_event_id e) r = (True, r1)
    \<and> r' = release (pr_redis p) (ev_event_id e) r1"
proof -
  obtain b r1 where claim: "claim (pr_settings p) (pr_redis p) (ev_event_id e) r = (b, r1)"
    by (cases "claim (pr_settings p) (pr_redis p) (ev_event_id e) r")
  show ?thesis
    using assms claim
    by (cases x)
      (auto simp: process_def Let_def split: bool.splits exn.splits sum.splits if_splits)
qed

lemma apply_event_no_retry:
  assumes "registry_ok reg" and "apply_event reg w clk fault e d = (Inr y, d1)"
  shows "res_outcome y \<noteq> RETRY"
proof -
  obtain h where h: "reg (ev_event_type e) = Some h"
    using assms(2) by (auto simp: apply_event_def registry_get_def split: option.splits)
  show ?thesis
    using assms(2)
    by (auto simp: apply_event_run [of reg e h, OF h] with_uow_apply_body transaction_end_def
        ledger_duplicate_def constraint_duplicate_def processed_result_def
        split: if_splits sum.splits prod.splits exn.splits commit_fault.splits)
qed

text \<open>
  C22. Under the documented laws of SET NX and DEL, a failed event is not marked as seen: when Redis
  answers and the outcome is RETRY, the event's key is free afterwards, every other key is as it
  was, and the next delivery passes the first barrier.
\<close>

theorem retry_gives_the_claim_back:
  assumes "redis_laws (pr_redis p)" and "registry_ok (pr_registry p)"
    and "process p clk fault e (d, r) = (Inr res, d', r')" and "res_outcome res = RETRY"
    and "rd_set_nx (pr_redis p) (dedupe_key (ev_event_id e)) ''1'' (dedupe_ttl_seconds (pr_settings p)) r = (Some b, r1)"
    and "rd_del (pr_redis p) (dedupe_key (ev_event_id e)) r1 = (True, r2)"
  shows "r' = r2 \<and> \<not> rd_has (pr_redis p) r' (dedupe_key (ev_event_id e))
    \<and> (i \<noteq> ev_event_id e \<longrightarrow> rd_has (pr_redis p) r' (dedupe_key i) = rd_has (pr_redis p) r (dedupe_key i))
    \<and> (\<forall>b' r3. rd_set_nx (pr_redis p) (dedupe_key (ev_event_id e)) ''1''
          (dedupe_ttl_seconds (pr_settings p)) r' = (Some b', r3) \<longrightarrow> b')"
proof -
  obtain x d1 where x: "apply_event (pr_registry p) (pr_outside p) clk fault e d = (x, d1)"
    by (cases "apply_event (pr_registry p) (pr_outside p) clk fault e d")
  have "\<exists>r1. claim (pr_settings p) (pr_redis p) (ev_event_id e) r = (True, r1)
    \<and> r' = release (pr_redis p) (ev_event_id e) r1"
    using x by (intro process_retry_released [OF assms(3,4) x]) (auto dest: apply_event_no_retry [OF assms(2)])
  then have r': "r' = release (pr_redis p) (ev_event_id e) r1"
    using claim_answered(1) [OF assms(1,5)] by auto
  note rel = release_answered [OF assms(1,6)]
  have "b'" if "rd_set_nx (pr_redis p) (dedupe_key (ev_event_id e)) ''1''
      (dedupe_ttl_seconds (pr_settings p)) r' = (Some b', r3)" for b' r3
    using claim_answered(1) [OF assms(1) that] that rel(1,2) r' by (simp add: claim_def)
  then show ?thesis
    using r' rel claim_answered(3) [OF assms(1,5)] by auto
qed

theorem retry_gives_the_claim_back_witness:
  "\<exists>res d' r'. process sample_processor sample_clock CommitOk payment_event (db_1, ({''evt:other''}, True))
       = (Inr res, d', r')
     \<and> res_outcome res = RETRY \<and> \<not> rd_has key_store r' (dedupe_key ''evt-0003'')
     \<and> rd_has key_store r' (dedupe_key ''other'')"
proof -
  define e where "e = payment_event"
  have id: "ev_event_id e = ''evt-0003''" and R: "pr_redis sample_processor = key_store"
    by (simp_all add: e_def payment_event_def sample_event_def sample_processor_def)
  obtain res d' r' where
    run: "process sample_processor sample_clock CommitOk e (db_1, ({''evt:other''}, True)) = (res, d', r')"
    by (cases "process sample_processor sample_clock CommitOk e (db_1, ({''evt:other''}, True))") auto
  have "case fst (process sample_processor sample_clock CommitOk payment_event (db_1, ({''evt:other''}, True))) of
      Inl _ \<Rightarrow> False | Inr res \<Rightarrow> res_outcome res = RETRY"
    by code_simp
  with run obtain res' where res': "res = Inr res'" "res_outcome res' = RETRY"
    by (auto simp: e_def split: sum.splits)
  have set: "rd_set_nx key_store (dedupe_key ''evt-0003'') ''1'' (dedupe_ttl_seconds (pr_settings sample_processor))
      ({''evt:other''}, True) = (Some True, ({''evt:evt-0003'', ''evt:other''}, True))"
    and del: "rd_del key_store (dedupe_key ''evt-0003'') ({''evt:evt-0003'', ''evt:other''}, True)
      = (True, ({''evt:other''}, True))"
    by (auto simp: key_store_def dedupe_key_def dedupe_key_prefix_def)
  have "r' = ({''evt:other''}, True) \<and> \<not> rd_has key_store r' (dedupe_key ''evt-0003'')"
    using retry_gives_the_claim_back [of sample_processor, unfolded R, OF key_store_laws
        sample_registry_ok [unfolded R] run [unfolded res'] res'(2), unfolded id, OF set del]
    by blast
  with run res' show ?thesis
    by (auto simp: e_def key_store_def dedupe_key_def dedupe_key_prefix_def)
qed

text \<open>
  C23. The price of the first barrier: an event that is reserved in Redis but not yet committed (its
  worker died in between, or is still at it) is answered DUPLICATE and may be acknowledged, with no
  row of the database written and nothing in the ledger.
\<close>

theorem reserved_is_acked_unprocessed:
  assumes "redis_laws (pr_redis p)" and "registry_supports (pr_registry p) (ev_event_type e)"
    and "rd_has (pr_redis p) r (dedupe_key (ev_event_id e))" and "\<not> in_ledger (ev_event_id e) d"
    and "rd_set_nx (pr_redis p) (dedupe_key (ev_event_id e)) ''1'' (dedupe_ttl_seconds (pr_settings p)) r = (Some b, r1)"
  shows "\<exists>res. process p clk fault e (d, r) = (Inr res, d, r1) \<and> res_outcome res = DUPLICATE
    \<and> should_ack res \<and> \<not> in_ledger (ev_event_id e) d"
  using assms(2-4) claim_answered(1) [OF assms(1,5)]
  by (simp add: process_def should_ack_def)

theorem reserved_is_acked_unprocessed_witness:
  "\<exists>res. process sample_processor sample_clock CommitOk payment_event (db_2, ({''evt:evt-0003''}, True))
       = (Inr res, db_2, ({''evt:evt-0003''}, True))
     \<and> should_ack res \<and> \<not> in_ledger (ev_event_id payment_event) db_2"
proof -
  have "\<not> in_ledger (ev_event_id payment_event) db_2"
    by code_simp
  moreover have "pr_redis sample_processor = key_store"
    by (simp add: sample_processor_def)
  moreover have "rd_has key_store ({''evt:evt-0003''}, True) (dedupe_key (ev_event_id payment_event))"
    by (simp add: key_store_def dedupe_key_def dedupe_key_prefix_def payment_event_def sample_event_def)
  moreover have "rd_set_nx key_store (dedupe_key (ev_event_id payment_event)) ''1''
      (dedupe_ttl_seconds (pr_settings sample_processor)) ({''evt:evt-0003''}, True)
      = (Some False, ({''evt:evt-0003''}, True))"
    by (simp add: key_store_def dedupe_key_def dedupe_key_prefix_def payment_event_def sample_event_def)
  moreover have "registry_supports (pr_registry sample_processor) (ev_event_type payment_event)"
    by (simp add: sample_processor_def build_registry_supports)
  ultimately show ?thesis
    using reserved_is_acked_unprocessed [of sample_processor payment_event "({''evt:evt-0003''}, True)"
        db_2 False "({''evt:evt-0003''}, True)" sample_clock CommitOk]
    by (auto simp: key_store_laws)
qed

end
