(* ===== verification/Handler_Claims.thy ===== *)
theory Handler_Claims
  imports Scenario
begin

text \<open>
  What each event means for the business tables: the properties of the four handlers
  (src/ingest_worker/handlers), with their witnesses on the sample run.
\<close>

section \<open>The sample databases\<close>

lemma sample_validated:
  "validate_client sample_outside (ev_data client_event) =
     Some \<lparr>cu_client_uid = ''C1'', cu_full_name = ''Ana'', cu_document = ''12345678901'',
       cu_email = ''ana@x.br'', cu_address = sample_address\<lparr>ap_state := ''PE''\<rparr>\<rparr>"
  "validate_order sample_outside (ev_data order_event) = Some sample_order"
  "validate_payment sample_outside (ev_data payment_event) = Some sample_payment"
  "validate_invoice sample_outside (ev_data invoice_event) = Some sample_invoice"
  by code_simp+

definition sample_order_row :: "order_status \<Rightarrow> ts option \<Rightarrow> order_row" where
  "sample_order_row st t = \<lparr>or_order_id = 1, or_order_uid = ''O1'', or_client_id = 1,
     or_shipping_address_id = 1, or_billing_address_id = 1, or_status = st, or_currency = ''BRL'',
     or_total_amount = 650000, or_placed_at = 910, or_closed_at = t, or_source_event_id = ''evt-0002'',
     or_created_at = 1001\<rparr>"

lemma sample_orders:
  "orders db_1 = []"
  "orders db_2 = [sample_order_row OrdPENDING None]"
  "orders db_3 = [sample_order_row OrdAPPROVED (Some 920)]"
  "orders db_4 = [sample_order_row OrdINVOICED (Some 930)]"
  by code_simp+

section \<open>Approval\<close>

lemma payload_parts:
  assumes "build_order_payload d o1 p = Some j"
  shows "json_path [''order'', ''order_uid''] j = Some (JStr (or_order_uid o1))"
    and "json_path [''order'', ''status''] j = Some (JStr (order_status_value (or_status o1)))"
    and "json_path [''order'', ''total_amount''] j = Some (JDec (or_total_amount o1))"
    and "json_path [''items''] j = Some (JArr (map item_section (items_of d o1)))"
  using assms by (auto simp: build_order_payload_def order_section_def split: option.splits)



text \<open>
  A payment event never notifies twice. Whatever its event id, an event for an order that has
  left PENDING, or one that is not APPROVED, returns normally, records the status on the payment of
  its transaction and leaves orders, items, invoices and outbox exactly as they were.
\<close>

lemma payment_repeat_is_quiet:
  assumes "validate_payment w (ev_data e) = Some p"
    and "find (\<lambda>r. or_order_uid r = pu_order_uid p) (orders d) = Some o1"
    and "pu_status p \<noteq> PayAPPROVED \<or> or_status o1 \<noteq> OrdPENDING"
  shows "\<exists>d' q. handle_payment w clk e d = (Inr (), d')
    \<and> d' = d\<lparr>payments := payments d', payment_seq := payment_seq d'\<rparr>
    \<and> q \<in> set (payments d') \<and> pa_provider q = pu_provider p
    \<and> pa_provider_tx_id q = pu_provider_tx_id p \<and> pa_status q = pu_status p"
  by (rule handle_payment_quiet [OF assms, where clk = clk]) blast

lemma payment_repeat_is_quiet_example:
  "\<exists>d'. handle_payment sample_outside sample_clock (payment_event\<lparr>ev_event_id := ''evt-0099''\<rparr>) db_3 = (Inr (), d')
     \<and> outbox d' = outbox db_3 \<and> orders d' = orders db_3"
proof -
  let ?e = "payment_event\<lparr>ev_event_id := ''evt-0099''\<rparr>"
  have v: "validate_payment sample_outside (ev_data ?e) = Some sample_payment"
    using sample_validated(3) by simp
  have f: "find (\<lambda>r. or_order_uid r = pu_order_uid sample_payment) (orders db_3)
      = Some (sample_order_row OrdAPPROVED (Some 920))"
    by (simp add: sample_orders sample_order_row_def sample_payment_def)
  obtain d' where run: "handle_payment sample_outside sample_clock ?e db_3 = (Inr (), d')"
    and d': "d' = db_3\<lparr>payments := payments d', payment_seq := payment_seq d'\<rparr>"
    using payment_repeat_is_quiet [OF v f, of sample_clock] by (auto simp: sample_order_row_def)
  show ?thesis
    using run arg_cong [OF d', of outbox] arg_cong [OF d', of orders] by auto
qed

section \<open>Creation\<close>



section \<open>Events out of order\<close>

lemma process_fresh_run:
  assumes "pr_registry p (ev_event_type e) = Some h"
    and "claim (pr_settings p) (pr_redis p) (ev_event_id e) r = (True, r1)"
    and "processed_event_fits (ledger_row (pr_outside p) clk e)" and "\<not> in_ledger (ev_event_id e) d"
    and "transaction_end d fault (h (pr_outside p) clk e (with_ledger_row (pr_outside p) clk e d)) = (x, d')"
  shows "process p clk fault e (d, r) =
    (case x of
       Inr res \<Rightarrow> (Inr res, d', r1)
     | Inl (DependencyNotReadyError s) \<Rightarrow>
         (Inr \<lparr>res_outcome = RETRY, res_detail = s\<rparr>, d', release (pr_redis p) (ev_event_id e) r1)
     | Inl y \<Rightarrow> (case summarize y of
           Inl z \<Rightarrow> (Inl z, d', release (pr_redis p) (ev_event_id e) r1)
         | Inr s \<Rightarrow> (Inr \<lparr>res_outcome = RETRY, res_detail = s\<rparr>, d', release (pr_redis p) (ev_event_id e) r1)))"
  using assms
  by (simp add: process_def registry_supports_def apply_event_run with_uow_apply_body Let_def
      split: sum.splits exn.splits)

text \<open>The entity an event needs before it can be carried out.\<close>

definition dependency_missing :: "'d outside \<Rightarrow> 'd envelope \<Rightarrow> db \<Rightarrow> bool" where
  "dependency_missing w e d =
     (case ev_event_type e of
        CLIENT_UPSERTED \<Rightarrow> False
      | ORDER_CREATED \<Rightarrow> (case validate_order w (ev_data e) of None \<Rightarrow> False | Some c \<Rightarrow>
          oc_order_uid c \<notin> or_order_uid ` set (orders d)
          \<and> (find (\<lambda>r. cl_client_uid r = oc_client_uid c) (clients d) = None
             \<or> current_address (oc_shipping_address_uid c) d = None
             \<or> current_address (billing_uid c) d = None))
      | PAYMENT_UPDATED \<Rightarrow> (case validate_payment w (ev_data e) of None \<Rightarrow> False | Some c \<Rightarrow>
          pu_order_uid c \<notin> or_order_uid ` set (orders d))
      | INVOICE_ISSUED \<Rightarrow> (case validate_invoice w (ev_data e) of None \<Rightarrow> False | Some c \<Rightarrow>
          ii_order_uid c \<notin> or_order_uid ` set (orders d)))"

lemma find_key_None: "k \<notin> f ` set xs \<Longrightarrow> find (\<lambda>r. f r = k) xs = None"
  by (force simp: find_None_iff)

lemma dependency_missing_raises:
  assumes "dependency_missing w e d" and "build_registry (ev_event_type e) = Some h"
  shows "\<exists>s. h w clk e d = (Inl (DependencyNotReadyError s), d)"
proof (cases "ev_event_type e")
  case ORDER_CREATED
  with assms obtain c where c: "validate_order w (ev_data e) = Some c"
    and new: "oc_order_uid c \<notin> or_order_uid ` set (orders d)"
    and miss: "find (\<lambda>r. cl_client_uid r = oc_client_uid c) (clients d) = None
             \<or> current_address (oc_shipping_address_uid c) d = None
             \<or> current_address (billing_uid c) d = None"
    by (auto simp: dependency_missing_def split: option.splits)
  have "h = handle_order"
    using assms(2) ORDER_CREATED by (simp add: build_registry_eq)
  then show ?thesis
    using handle_order_new [OF c new, of clk] miss by (auto split: option.splits)
next
  case PAYMENT_UPDATED
  with assms have "h = handle_payment"
    by (simp add: build_registry_eq)
  with PAYMENT_UPDATED assms(1) show ?thesis
    by (auto simp: dependency_missing_def handle_payment_def require_order_run bnd_def
        dest!: find_key_None split: option.splits)
next
  case INVOICE_ISSUED
  with assms have "h = handle_invoice"
    by (simp add: build_registry_eq)
  with INVOICE_ISSUED assms(1) show ?thesis
    by (auto simp: dependency_missing_def handle_invoice_def require_order_run bnd_def
        dest!: find_key_None split: option.splits)
next
  case CLIENT_UPSERTED
  with assms(1) show ?thesis by (simp add: dependency_missing_def)
qed

lemma dependency_missing_ledger [simp]:
  "dependency_missing w e (with_ledger_row w' clk e' d) = dependency_missing w e d"
  by (simp add: dependency_missing_def current_address_def split: event_type.split option.split)

text \<open>
  C25. Partners may deliver out of order. An event that arrives before the entity it refers to (an
  order before its client or address, a payment or an invoice before its order) is answered RETRY
  and not acknowledged, writes no row, not even its ledger row, and gives its Redis claim back.
\<close>

theorem out_of_order_is_retried:
  assumes "pr_registry p = build_registry" and "dependency_missing (pr_outside p) e d"
    and "claim (pr_settings p) (pr_redis p) (ev_event_id e) r = (True, r1)"
    and "processed_event_fits (ledger_row (pr_outside p) clk e)" and "\<not> in_ledger (ev_event_id e) d"
  shows "\<exists>res d'. process p clk fault e (d, r) = (Inr res, d', release (pr_redis p) (ev_event_id e) r1)
    \<and> res_outcome res = RETRY \<and> \<not> should_ack res \<and> rows_same d d'"
proof -
  obtain h where h: "pr_registry p (ev_event_type e) = Some h"
    by (simp add: assms(1) build_registry_eq)
  obtain s where "h (pr_outside p) clk e (with_ledger_row (pr_outside p) clk e d)
      = (Inl (DependencyNotReadyError s), with_ledger_row (pr_outside p) clk e d)"
    using dependency_missing_raises [of "pr_outside p" e "with_ledger_row (pr_outside p) clk e d" h clk]
      assms(2) h by (auto simp: assms(1))
  then have "transaction_end d fault (h (pr_outside p) clk e (with_ledger_row (pr_outside p) clk e d))
      = (Inl (DependencyNotReadyError s), rollback d (with_ledger_row (pr_outside p) clk e d))"
    by (simp add: transaction_end_def)
  from process_fresh_run [OF h assms(3-5) this] show ?thesis
    by (simp add: should_ack_def)
qed

theorem out_of_order_is_retried_witness:
  "\<exists>res d' r'. process sample_processor sample_clock CommitOk payment_event (db_1, ({}, True)) = (Inr res, d', r')
     \<and> \<not> should_ack res \<and> rows_same db_1 d'"
proof -
  have "dependency_missing (pr_outside sample_processor) payment_event db_1"
    "claim (pr_settings sample_processor) (pr_redis sample_processor) (ev_event_id payment_event) ({}, True)
      = (True, ({''evt:evt-0003''}, True))"
    "processed_event_fits (ledger_row (pr_outside sample_processor) sample_clock payment_event)"
    "\<not> in_ledger (ev_event_id payment_event) db_1"
    by code_simp+
  moreover have "pr_registry sample_processor = build_registry"
    by (simp add: sample_processor_def)
  ultimately show ?thesis
    using out_of_order_is_retried [of sample_processor payment_event db_1 "({}, True)" "({''evt:evt-0003''}, True)"]
    by blast
qed

section \<open>Invoices\<close>

text \<open>
  C26. An invoice event is idempotent by order and closes an approved order. If the order has its
  invoice, nothing changes. If the number and series are taken by another order, the handler raises
  the constraint error and no row changes. Otherwise it returns, exactly one invoice with the event's
  number and amount is added for the order, and the order moves to INVOICED exactly when it was
  APPROVED; no message is enqueued.
\<close>

theorem invoice_effect:
  assumes "db_ok d" and "validate_invoice w (ev_data e) = Some v"
    and "find (\<lambda>r. or_order_uid r = ii_order_uid v) (orders d) = Some o1"
  shows "if or_order_id o1 \<in> in_order_id ` set (invoices d) then handle_invoice w clk e d = (Inr (), d)
    else if invoice_taken v d then
      (\<exists>c d'. handle_invoice w clk e d = (Inl (IntegrityError c), d') \<and> rows_same d d')
    else (\<exists>d' q. handle_invoice w clk e d = (Inr (), d') \<and> db_ok d'
      \<and> invoices d' = invoices d @ [q] \<and> in_order_id q = or_order_id o1
      \<and> in_invoice_number q = ii_invoice_number v \<and> in_total_amount q = ii_total_amount v
      \<and> orders d' = (if or_status o1 = OrdAPPROVED
           then upd_where (\<lambda>r. or_order_id r = or_order_id o1)
                  (order_moved OrdINVOICED (naive (ii_issued_at v))) (orders d)
           else orders d)
      \<and> outbox d' = outbox d)"
proof -
  consider "or_order_id o1 \<in> in_order_id ` set (invoices d)"
    | "or_order_id o1 \<notin> in_order_id ` set (invoices d)" "invoice_taken v d"
    | "or_order_id o1 \<notin> in_order_id ` set (invoices d)" "\<not> invoice_taken v d"
    by blast
  then show ?thesis
  proof cases
    case 1
    then show ?thesis using handle_invoice_known [OF assms(2,3)] by simp
  next
    case 2
    then show ?thesis
      using handle_invoice_new [OF assms 2(1), of clk] by (simp add: rows_same_def rollback_def)
  next
    case 3
    note run = handle_invoice_new [OF assms 3(1), of clk]
    have "db_ok (snd (handle_invoice w clk e d))"
      using handle_invoice_ok run 3(2) assms(1) by (metis (no_types, lifting) keepsD snd_conv)
    then show ?thesis
      using run 3 by (simp add: Let_def orders_after_move_def invoice_for_def split: if_splits)
  qed
qed

theorem invoice_effect_witness:
  "\<exists>d'. handle_invoice sample_outside sample_clock invoice_event db_3 = (Inr (), d')
     \<and> map or_status (orders d') = [OrdINVOICED] \<and> length (invoices d') = 1"
proof -
  have "or_order_id (sample_order_row OrdAPPROVED (Some 920)) \<notin> in_order_id ` set (invoices db_3)"
    and "\<not> invoice_taken sample_invoice db_3" and "invoices db_3 = []"
    by code_simp+
  with invoice_effect [OF db_ok_samples(3) sample_validated(4), of "sample_order_row OrdAPPROVED (Some 920)" sample_clock]
  show ?thesis
    by (auto simp: sample_orders sample_order_row_def sample_invoice_def)
qed

lemma rows_grow_invoices: "db_grows d d' \<Longrightarrow> set (invoices d) \<subseteq> set (invoices d')"
  by (auto simp: db_grows_def rows_grow_def set_mono_prefix)



definition other_order_event :: "sample envelope" where
  "other_order_event = sample_event ''evt-0005'' ORDER_CREATED (SOrder (sample_order\<lparr>oc_order_uid := ''O2''\<rparr>))"

definition other_invoice_event :: "sample envelope" where
  "other_invoice_event = sample_event ''evt-0006'' INVOICE_ISSUED (SInvoice (sample_invoice\<lparr>ii_order_uid := ''O2''\<rparr>))"

definition db_5 :: db where "db_5 = after_process other_order_event db_4"

text \<open>
  C28. The third barrier cannot tell a repeated fact from a collision. An invoice event whose number
  and series another order's invoice already carries is answered DUPLICATE and may be acknowledged,
  although its own order gets no invoice, no row is written, the event is not in the ledger and its
  Redis claim stays taken.
\<close>

theorem colliding_invoice_is_acked:
  assumes "pr_registry p = build_registry" and "ev_event_type e = INVOICE_ISSUED" and "db_ok d"
    and "validate_invoice (pr_outside p) (ev_data e) = Some v"
    and "find (\<lambda>r. or_order_uid r = ii_order_uid v) (orders d) = Some o1"
    and "or_order_id o1 \<notin> in_order_id ` set (invoices d)" and "invoice_taken v d"
    and "claim (pr_settings p) (pr_redis p) (ev_event_id e) r = (True, r1)"
    and "processed_event_fits (ledger_row (pr_outside p) clk e)" and "\<not> in_ledger (ev_event_id e) d"
  shows "\<exists>res d'. process p clk fault e (d, r) = (Inr res, d', r1)
    \<and> res_outcome res = DUPLICATE \<and> should_ack res \<and> rows_same d d'
    \<and> \<not> in_ledger (ev_event_id e) d' \<and> or_order_id o1 \<notin> in_order_id ` set (invoices d')"
proof -
  let ?d1 = "with_ledger_row (pr_outside p) clk e d"
  have h: "pr_registry p (ev_event_type e) = Some handle_invoice"
    using assms(1,2) by (simp add: build_registry_eq)
  have "invoice_taken v ?d1"
    using assms(7) by (simp add: invoice_taken_def)
  moreover have "db_ok ?d1"
    by (rule with_ledger_row_ok [OF assms(3,10)])
  ultimately have "\<exists>d2. handle_invoice (pr_outside p) clk e ?d1 = (Inl (IntegrityError ''ux_invoice_number_series''), d2)"
    using handle_invoice_new [OF _ assms(4), of ?d1 o1 clk] assms(5,6) by simp
  then obtain d2 where "handle_invoice (pr_outside p) clk e ?d1 = (Inl (IntegrityError ''ux_invoice_number_series''), d2)"
    by blast
  then have "transaction_end d fault (handle_invoice (pr_outside p) clk e ?d1)
      = (Inr constraint_duplicate, rollback d d2)"
    by (simp add: transaction_end_def)
  from process_fresh_run [OF h assms(8-10) this] assms(6,10) show ?thesis
    by (simp add: should_ack_def constraint_duplicate_def in_ledger_def)
qed

theorem colliding_invoice_is_acked_witness:
  "\<exists>res d' r'. process sample_processor sample_clock CommitOk other_invoice_event (db_5, ({}, True)) = (Inr res, d', r')
     \<and> should_ack res \<and> \<not> in_ledger (ev_event_id other_invoice_event) d' \<and> rows_same db_5 d'"
proof -
  let ?v = "sample_invoice\<lparr>ii_order_uid := ''O2''\<rparr>"
  let ?o = "(sample_order_row OrdPENDING None)\<lparr>or_order_id := 2, or_order_uid := ''O2'', or_source_event_id := ''evt-0005''\<rparr>"
  have "validate_invoice (pr_outside sample_processor) (ev_data other_invoice_event) = Some ?v"
    "find (\<lambda>r. or_order_uid r = ii_order_uid ?v) (orders db_5) = Some ?o"
    "or_order_id ?o \<notin> in_order_id ` set (invoices db_5)" "invoice_taken ?v db_5"
    "claim (pr_settings sample_processor) (pr_redis sample_processor) (ev_event_id other_invoice_event) ({}, True)
      = (True, ({''evt:evt-0006''}, True))"
    "processed_event_fits (ledger_row (pr_outside sample_processor) sample_clock other_invoice_event)"
    "\<not> in_ledger (ev_event_id other_invoice_event) db_5"
    by code_simp+
  moreover have "pr_registry sample_processor = build_registry" "db_ok db_5"
    "ev_event_type other_invoice_event = INVOICE_ISSUED"
    by (simp_all add: sample_processor_def db_5_def after_process_ok db_ok_samples
        other_invoice_event_def sample_event_def)
  ultimately show ?thesis
    using colliding_invoice_is_acked [of sample_processor other_invoice_event db_5 ?v ?o "({}, True)"
        "({''evt:evt-0006''}, True)" sample_clock CommitOk]
    by blast
qed

end
