(* ===== verification/History_Claims.thy ===== *)
theory History_Claims
  imports Handler_Claims
begin

text \<open>
  What the system never loses: address versions, the terms of orders, and the closed orders that the
  triggers of migration 0002 protect; and that processing always comes back with a result.
\<close>

section \<open>Address versions\<close>

lemma versions_after_current:
  assumes "find (\<lambda>r. ad_address_uid r = ap_address_uid p \<and> ad_is_current r) (versions_after clk aid cid p rs) = None"
  shows False
  using assms
  by (auto simp: versions_after_def find_append split: option.splits if_splits)

lemma versions_after_content:
  assumes "distinct (map ad_address_uid (filter ad_is_current rs))" and "distinct (map ad_address_id rs)"
    and "a \<in> set (versions_after clk aid cid p rs)" and "ad_is_current a" and "ad_address_uid a = ap_address_uid p"
  shows "\<not> address_differs_from a p"
proof (cases "find (\<lambda>r. ad_address_uid r = ap_address_uid p \<and> ad_is_current r) rs")
  case None
  then have "a \<notin> set rs"
    using assms(4,5) by (auto simp: find_None_iff)
  with None assms(3) show ?thesis by (simp add: versions_after_def)
next
  case (Some b)
  then have b: "b \<in> set rs" "ad_address_uid b = ap_address_uid p" "ad_is_current b"
    by (auto dest: find_SomeD)
  have same: "c = b" if "c \<in> set rs" "ad_is_current c" "ad_address_uid c = ap_address_uid p" for c
    using distinct_map_eq [OF assms(1), of c b] that b by simp
  show ?thesis
  proof (cases "address_differs_from b p")
    case False
    with Some assms(3) have "a \<in> set rs" by (simp add: versions_after_def)
    with same [OF this assms(4,5)] False show ?thesis by simp
  next
    case True
    then have "a = address_opened clk aid cid p \<or> (a \<in> set rs \<and> ad_address_id a \<noteq> ad_address_id b)"
      using Some assms(3,4) by (auto simp: versions_after_def set_upd_where)
    then show ?thesis
      using same [of a] assms(4,5) by auto
  qed
qed

text \<open>
  C29. Addresses are versioned, never edited (slowly changing dimension, type 2). A validated client
  event always succeeds on a consistent database: the client row carries the event's data, the
  current version of the event's address carries the event's fields, every version that existed
  keeps its contents, the version that was current stays with a closing time if it differs and as
  it is if it does not, and no order changes, so orders keep the version they were placed with.
\<close>

theorem client_event_versions_address:
  assumes "db_ok d" and "validate_client w (ev_data e) = Some c"
  shows "\<exists>d' r a. handle_client w clk e d = (Inr (), d') \<and> db_ok d'
    \<and> r \<in> set (clients d') \<and> cl_client_uid r = cu_client_uid c \<and> cl_full_name r = cu_full_name c
    \<and> cl_document r = cu_document c \<and> cl_email r = cu_email c
    \<and> current_address (ap_address_uid (cu_address c)) d' = Some a \<and> \<not> address_differs_from a (cu_address c)
    \<and> prefix (map address_content (addresses d)) (map address_content (addresses d'))
    \<and> (\<forall>b. current_address (ap_address_uid (cu_address c)) d = Some b \<longrightarrow>
         (if address_differs_from b (cu_address c) then address_closed (app_now clk) b \<in> set (addresses d')
          else addresses d' = addresses d))
    \<and> orders d' = orders d"
proof -
  let ?p = "cu_address c"
  obtain r d' aid where run: "handle_client w clk e d = (Inr (), d')"
    and r: "r \<in> set (clients d')" "cl_client_uid r = cu_client_uid c" "cl_full_name r = cu_full_name c"
      "cl_document r = cu_document c" "cl_email r = cu_email c"
    and ad: "addresses d' = versions_after clk aid (cl_client_id r) ?p (addresses d)"
    and os: "orders d' = orders d"
    by (rule handle_client_run [OF assms, where clk = clk])
  obtain a where a: "current_address (ap_address_uid ?p) d' = Some a"
    using versions_after_current [of ?p clk aid "cl_client_id r" "addresses d"] ad
    by (cases "current_address (ap_address_uid ?p) d'") (auto simp: current_address_def)
  have diff: "\<not> address_differs_from a ?p"
    using a ad db_okD(1,3) [OF assms(1)]
    by (intro versions_after_content [of "addresses d" a clk aid "cl_client_id r" ?p])
      (auto simp: current_address_def db_versions_def db_keys_def keyed_def dest: find_SomeD)
  have pre: "prefix (map address_content (addresses d)) (map address_content (addresses d'))"
    using staysD [OF handle_client_grows run] by (simp add: db_grows_def rows_grow_def)
  have old: "if address_differs_from b ?p then address_closed (app_now clk) b \<in> set (addresses d')
          else addresses d' = addresses d" if "current_address (ap_address_uid ?p) d = Some b" for b
    using that ad find_SomeD [of _ "addresses d" b]
    by (auto simp: current_address_def versions_after_def set_upd_where)
  have "db_ok d'"
    using handle_client_ok run assms(1) by (blast dest: keepsD)
  with run r a diff pre old os show ?thesis by blast
qed

definition moved_client_event :: "sample envelope" where
  "moved_client_event = sample_event ''evt-0007'' CLIENT_UPSERTED (SClient
     \<lparr>cu_client_uid = ''C1'', cu_full_name = ''Ana'', cu_document = ''12345678901'',
      cu_email = ''ana@x.br'', cu_address = sample_address\<lparr>ap_street := ''Rua Dois''\<rparr>\<rparr>)"

theorem client_event_versions_address_witness:
  "\<exists>d' a. handle_client sample_outside sample_clock moved_client_event db_3 = (Inr (), d')
     \<and> current_address ''A1'' d' = Some a \<and> ad_street a = ''Rua Dois'' \<and> orders d' = orders db_3"
proof -
  let ?c = "\<lparr>cu_client_uid = ''C1'', cu_full_name = ''Ana'', cu_document = ''12345678901'',
      cu_email = ''ana@x.br'', cu_address = sample_address\<lparr>ap_street := ''Rua Dois'', ap_state := ''PE''\<rparr>\<rparr>"
  have "validate_client sample_outside (ev_data moved_client_event) = Some ?c"
    by code_simp
  from client_event_versions_address [OF db_ok_samples(3) this, of sample_clock]
  obtain d' a where "handle_client sample_outside sample_clock moved_client_event db_3 = (Inr (), d')"
    "current_address (ap_address_uid (cu_address ?c)) d' = Some a" "\<not> address_differs_from a (cu_address ?c)"
    "orders d' = orders db_3"
    by blast
  then show ?thesis
    by (auto simp: address_differs_from_def sample_address_def)
qed

section \<open>The past\<close>

text \<open>
  C18. Processing only adds. Whatever one call of \<open>process\<close> ends with, no client, address version,
  order, item, payment, invoice, message or ledger row disappears; the client and amount of an
  order, its addresses, currency and dates, the contents of an address version, items, invoices and
  messages stay word for word; and no IDENTITY counter goes back.
\<close>

theorem processing_keeps_the_past:
  assumes "registry_ok (pr_registry p)" and "db_ok d" and "process p clk fault e (d, r) = (res, d', r')"
  shows "rows_grow d d' \<and> counters_le d d' \<and> prefix (processed_events d) (processed_events d')"
  using assms by (rule process_grows)

theorem processing_keeps_the_past_witness:
  "\<exists>res d' r'. process sample_processor sample_clock CommitOk payment_event (db_2, ({}, True)) = (res, d', r')
     \<and> map order_terms (orders db_2) = map order_terms (orders d') \<and> rows_grow db_2 d'"
proof -
  obtain res d' r' where
    run: "process sample_processor sample_clock CommitOk payment_event (db_2, ({}, True)) = (res, d', r')"
    by (cases "process sample_processor sample_clock CommitOk payment_event (db_2, ({}, True))") auto
  then have "d' = db_3"
    by (simp add: db_3_def after_process_def)
  then have "map order_terms (orders db_2) = map order_terms (orders d')"
    by (simp add: sample_orders sample_order_row_def order_terms_def)
  with run processing_keeps_the_past [OF sample_registry_ok db_ok_samples(2) run] show ?thesis by blast
qed

end
