(* ===== verification/Trigger_Claims.thy ===== *)
theory Trigger_Claims
  imports History_Claims
begin

text \<open>
  The immutability triggers of migration 0002 against arbitrary SQL statements on the tables of
  orders and items, what they do not cover, and the exceptions the handlers can raise.
\<close>

section \<open>Closed orders\<close>

lemma orders_trigger_update:
  assumes "o1 \<in> set os" and "closed_row o1" and "p o1" and "or_order_id (f o1) = or_order_id o1"
    and "protected_columns_differ (f o1) o1"
  shows "orders_trigger_fires (filter p os) (map f (filter p os))"
  unfolding orders_trigger_fires_def using assms by (intro bexI [of _ o1]) auto

lemma orders_trigger_delete:
  "o1 \<in> set os \<Longrightarrow> closed_row o1 \<Longrightarrow> p o1 \<Longrightarrow> orders_trigger_fires (filter p os) []"
  unfolding orders_trigger_fires_def by auto

lemma items_trigger_rows:
  "o1 \<in> set os \<Longrightarrow> closed_row o1 \<Longrightarrow> i \<in> set deleted \<union> set inserted \<Longrightarrow>
   it_order_id i = or_order_id o1 \<Longrightarrow> items_trigger_fires os deleted inserted"
  unfolding items_trigger_fires_def by (intro bexI [of _ o1]) (auto intro!: image_eqI [of _ _ i])

lemma update_orders_fires:
  "orders_trigger_fires (filter p (orders d)) (map f (filter p (orders d))) \<Longrightarrow>
   \<exists>x. update_orders p f d = (Inl x, d)"
  by (auto simp: update_orders_def Let_def split: if_splits option.split)

lemma delete_orders_fires:
  "orders_trigger_fires (filter p (orders d)) [] \<Longrightarrow> \<exists>x. delete_orders p d = (Inl x, d)"
  by (auto simp: delete_orders_def Let_def split: if_splits option.split)

lemma update_items_fires:
  "items_trigger_fires (orders d) (filter p (order_items d)) (map f (filter p (order_items d))) \<Longrightarrow>
   \<exists>x. update_items p f d = (Inl x, d)"
  by (auto simp: update_items_def Let_def split: if_splits)

lemma delete_items_fires:
  "items_trigger_fires (orders d) (filter p (order_items d)) [] \<Longrightarrow> \<exists>x. delete_items p d = (Inl x, d)"
  by (auto simp: delete_items_def Let_def)



lemma update_one_order:
  assumes keys: "distinct (map or_order_id (orders d))" and o1: "o1 \<in> set (orders d)"
    and same: "\<And>r. or_order_id (f r) = or_order_id r" "\<And>r. or_order_uid (f r) = or_order_uid r"
    and uids: "distinct (map or_order_uid (orders d))"
    and row: "order_fits (f o1)" "0 \<le> or_total_amount (f o1)"
      "or_client_id (f o1) \<in> cl_client_id ` set (clients d)"
      "or_shipping_address_id (f o1) \<in> ad_address_id ` set (addresses d)"
      "or_billing_address_id (f o1) \<in> ad_address_id ` set (addresses d)"
    and free: "\<not> closed_row o1 \<or> \<not> protected_columns_differ (f o1) o1"
  shows "update_orders (\<lambda>r. or_order_id r = or_order_id o1) f d =
    (Inr 1, d\<lparr>orders := upd_where (\<lambda>r. or_order_id r = or_order_id o1) f (orders d)\<rparr>)"
proof -
  have sel: "filter (\<lambda>r. or_order_id r = or_order_id o1) (orders d) = [o1]"
    by (rule filter_key_unique [OF keys o1])
  have "\<not> orders_trigger_fires [o1] [f o1]"
    using free same(1) by (auto simp: orders_trigger_fires_def)
  moreover have "distinct (map or_order_uid (upd_where (\<lambda>r. or_order_id r = or_order_id o1) f (orders d)))"
    using uids by (simp add: map_upd_where_same same(2))
  ultimately show ?thesis
    unfolding update_orders_def Let_def sel using row by (simp add: same(1))
qed

text \<open>
  The trigger guards columns, not the status, so two statements undo it. On a consistent
  database any closed order can be set back to PENDING by a raw UPDATE, after which its amount can
  be overwritten with any value the column takes, although one statement doing the same is refused.
\<close>

lemma closed_order_reopens:
  assumes "db_ok d" and "o1 \<in> set (orders d)" and "closed_row o1"
    and "0 \<le> v" and "numeric_19_4 v" and "v \<noteq> or_total_amount o1"
  defines "is_o1 \<equiv> \<lambda>r. or_order_id r = or_order_id o1"
  shows "(\<exists>x. update_orders is_o1 (\<lambda>r. r\<lparr>or_total_amount := v\<rparr>) d = (Inl x, d))
    \<and> (\<exists>d1 d2. update_orders is_o1 (\<lambda>r. r\<lparr>or_status := OrdPENDING\<rparr>) d = (Inr 1, d1)
         \<and> update_orders is_o1 (\<lambda>r. r\<lparr>or_total_amount := v\<rparr>) d1 = (Inr 1, d2)
         \<and> o1\<lparr>or_status := OrdPENDING, or_total_amount := v\<rparr> \<in> set (orders d2))"
proof -
  let ?re = "\<lambda>r. r\<lparr>or_status := OrdPENDING\<rparr>" and ?am = "\<lambda>r. r\<lparr>or_total_amount := v\<rparr>"
  let ?d1 = "d\<lparr>orders := upd_where is_o1 ?re (orders d)\<rparr>"
  let ?d2 = "?d1\<lparr>orders := upd_where is_o1 ?am (orders ?d1)\<rparr>"
  have keys: "distinct (map or_order_id (orders d))" "distinct (map or_order_uid (orders d))"
    using db_okD(1) [OF assms(1)] by (simp_all add: db_keys_def keyed_def)
  have row: "order_fits o1" "0 \<le> or_total_amount o1" "or_client_id o1 \<in> cl_client_id ` set (clients d)"
      "or_shipping_address_id o1 \<in> ad_address_id ` set (addresses d)"
      "or_billing_address_id o1 \<in> ad_address_id ` set (addresses d)"
    using db_okD(2,4,7) [OF assms(1)] assms(2)
    by (auto simp: db_refs_def db_fits_def db_totals_def dest: order_total_okD)
  have "update_orders is_o1 ?re d = (Inr 1, ?d1)"
    unfolding is_o1_def
    by (rule update_one_order [OF keys(1) assms(2)])
      (use keys row in \<open>simp_all add: order_fits_def protected_columns_differ_def\<close>)
  moreover have o2: "?re o1 \<in> set (orders ?d1)"
    using assms(2) by (auto simp: set_upd_where is_o1_def)
  have "update_orders (\<lambda>r. or_order_id r = or_order_id (?re o1)) ?am ?d1 =
    (Inr 1, ?d1\<lparr>orders := upd_where (\<lambda>r. or_order_id r = or_order_id (?re o1)) ?am (orders ?d1)\<rparr>)"
    by (rule update_one_order [OF _ o2])
      (use keys row assms(4,5) in \<open>simp_all add: map_upd_where_same order_fits_def closed_row_def\<close>)
  then have "update_orders is_o1 ?am ?d1 = (Inr 1, ?d2)"
    by (simp add: is_o1_def)
  moreover have "o1\<lparr>or_status := OrdPENDING, or_total_amount := v\<rparr> \<in> set (orders ?d2)"
    using o2 by (auto simp: set_upd_where is_o1_def intro!: image_eqI [of _ _ "?re o1"])
  moreover have "\<exists>x. update_orders is_o1 ?am d = (Inl x, d)"
    by (rule update_orders_fires [OF orders_trigger_update [where p = is_o1 and f = ?am, OF assms(2,3)]])
      (use assms(6) in \<open>simp_all add: is_o1_def protected_columns_differ_def\<close>)
  ultimately show ?thesis by blast
qed

lemma closed_order_reopens_example:
  "\<exists>d1 d2. update_orders (\<lambda>r. or_order_id r = 1) (\<lambda>r. r\<lparr>or_status := OrdPENDING\<rparr>) db_3 = (Inr 1, d1)
     \<and> update_orders (\<lambda>r. or_order_id r = 1) (\<lambda>r. r\<lparr>or_total_amount := 1\<rparr>) d1 = (Inr 1, d2)"
proof -
  have "sample_order_row OrdAPPROVED (Some 920) \<in> set (orders db_3)"
    "closed_row (sample_order_row OrdAPPROVED (Some 920))"
    "or_order_id (sample_order_row OrdAPPROVED (Some 920)) = 1"
    "or_total_amount (sample_order_row OrdAPPROVED (Some 920)) \<noteq> 1"
    by (simp_all add: sample_orders closed_row_def sample_order_row_def)
  with closed_order_reopens [OF db_ok_samples(3), of "sample_order_row OrdAPPROVED (Some 920)" 1]
  show ?thesis by (auto simp: numeric_19_4_def)
qed

section \<open>What the handlers can raise\<close>

definition speaks :: "exn \<Rightarrow> bool" where
  "speaks x \<longleftrightarrow> exn_text x \<noteq> []"

lemma speaks_simps [simp]:
  "speaks (DependencyNotReadyError s) = (s \<noteq> [])" "speaks (IntegrityError s) = (s \<noteq> [])"
  "speaks (DataError s) = (s \<noteq> [])" "speaks (TriggerError n s) = (s \<noteq> [])"
  "speaks (ValidationError s) = (s \<noteq> [])" "speaks (AttributeError s) = (s \<noteq> [])"
  "speaks (KeyError s)" "speaks (OperationalError s) = (s \<noteq> [])" "speaks IndexError"
  by (simp_all add: speaks_def)

lemma checked_insert_raises:
  "t \<noteq> [] \<Longrightarrow> [] \<notin> fst ` set cs \<Longrightarrow> raises_only speaks (checked_insert fits t cs adv put row)"
  by (auto simp: raises_only_def checked_insert_def dest: violation_Some
      split: option.splits if_splits)

lemma checked_insert_Inl:
  "checked_insert fits t cs adv put row d = (Inl x, d') \<Longrightarrow> t \<noteq> [] \<Longrightarrow> [] \<notin> fst ` set cs \<Longrightarrow> speaks x"
  by (rule raises_onlyD [OF checked_insert_raises])

lemma insert_client_raises: "raises_only speaks (insert_client r)"
  unfolding raises_only_def insert_client_def Let_def
  by (intro allI impI, erule checked_insert_Inl) simp_all

lemma insert_address_raises: "raises_only speaks (insert_address r)"
  unfolding raises_only_def insert_address_def Let_def
  by (intro allI impI, erule checked_insert_Inl) simp_all

lemma insert_order_raises: "raises_only speaks (insert_order r)"
  unfolding raises_only_def insert_order_def Let_def
  by (intro allI impI, erule checked_insert_Inl) simp_all

lemma insert_item_raises: "raises_only speaks (insert_item r)"
  unfolding raises_only_def insert_item_def Let_def bnd_Inl_iff
  by (intro allI impI, elim disjE exE conjE, erule checked_insert_Inl)
    (auto simp: retroactive_items_def split: if_splits)

lemma insert_payment_raises: "raises_only speaks (insert_payment r)"
  unfolding raises_only_def insert_payment_def Let_def
  by (intro allI impI, erule checked_insert_Inl) simp_all

lemma insert_invoice_raises: "raises_only speaks (insert_invoice r)"
  unfolding raises_only_def insert_invoice_def Let_def
  by (intro allI impI, erule checked_insert_Inl) simp_all

lemma insert_outbox_raises: "raises_only speaks (insert_outbox r)"
  unfolding raises_only_def insert_outbox_def Let_def
  by (intro allI impI, erule checked_insert_Inl) simp_all

lemma update_raises:
  "raises_only speaks (update_client cid f)" "raises_only speaks (update_address aid g)"
  "raises_only speaks (update_payment pid h)"
  by (auto simp: raises_only_def update_client_def update_address_def update_payment_def
      split: if_splits)

lemma update_orders_raises: "raises_only speaks (update_orders p f)"
  by (auto simp: raises_only_def update_orders_def Let_def retroactive_order_def
      split: if_splits option.splits)

lemmas statement_raises = insert_client_raises insert_address_raises insert_order_raises
  insert_item_raises insert_payment_raises insert_invoice_raises insert_outbox_raises update_raises
  update_orders_raises

lemma handler_raises:
  "raises_only speaks (handle_client w clk e)" "raises_only speaks (handle_order w clk e)"
  "raises_only speaks (handle_payment w clk e)" "raises_only speaks (handle_invoice w clk e)"
  unfolding handle_client_def clients_upsert_def clients_get_by_uid_def clients_insert_def
    addresses_upsert_version_def addresses_get_current_version_def addresses_open_version_def
    addresses_close_version_def handle_order_def orders_exists_def require_current_address_def
    resolve_billing_address_def orders_create_def orders_add_items_def handle_payment_def
    require_order_def orders_get_by_uid_def record_payment_def payments_upsert_def
    payments_get_by_provider_transaction_def orders_transition_def enqueue_erp_notification_def
    payments_latest_for_order_def outbox_enqueue_def handle_invoice_def invoices_exists_for_order_def
    invoices_create_def
  by (intro raise_rules statement_raises; simp)+

lemma build_registry_raises: "build_registry t = Some h \<Longrightarrow> raises_only speaks (h w clk e)"
  by (cases t) (auto simp: build_registry_eq handler_raises)

lemma transaction_end_speaks:
  assumes "transaction_end d fault hr = (Inl x, d')" and "\<And>y. fst hr = Inl y \<Longrightarrow> speaks y"
    and "\<And>y. fault = CommitRefused y \<or> fault = CommitInDoubt y \<Longrightarrow> speaks y"
  shows "speaks x"
  using assms
  by (cases hr; cases fault) (auto simp: transaction_end_def split: sum.splits exn.splits)

lemma summarize_speaks: "speaks x \<Longrightarrow> \<exists>s. summarize x = Inr s"
  by (simp add: speaks_def summarize_def)



end
