(* ===== verification/Streams.thy ===== *)
theory Streams
  imports Processor "HOL-Library.AList"
begin

text \<open>
  src/shared/messaging/consumer.py and publisher.py over Redis Streams. The commands of the Redis
  client are parameters, programs over the server's state that may raise; two observers of that
  state, the entries of a stream and the ids pending in its group, carry the documented laws.
  Texts are UTF-8 byte strings; a text that does not decode is not modelled.
\<close>

section \<open>The commands\<close>

datatype redis_value = RBytes string | RStr string

type_synonym fields = "(redis_value \<times> redis_value) list"

record 'q streams =
  st_xgroup_create :: "string \<Rightarrow> string \<Rightarrow> string \<Rightarrow> bool \<Rightarrow> ('q, exn, unit) prog"
  st_xreadgroup :: "string \<Rightarrow> string \<Rightarrow> string \<Rightarrow> string \<Rightarrow> int \<Rightarrow> int
    \<Rightarrow> ('q, exn, (redis_value \<times> (redis_value \<times> fields) list) list) prog"
  st_xpending :: "string \<Rightarrow> string \<Rightarrow> int \<Rightarrow> int \<Rightarrow> ('q, exn, (redis_value \<times> int) list) prog"
  st_xclaim :: "string \<Rightarrow> string \<Rightarrow> string \<Rightarrow> int \<Rightarrow> string list
    \<Rightarrow> ('q, exn, (redis_value \<times> fields) list) prog"
  st_xack :: "string \<Rightarrow> string \<Rightarrow> string list \<Rightarrow> ('q, exn, int) prog"
  st_xadd :: "string \<Rightarrow> (string \<times> string) list \<Rightarrow> int \<Rightarrow> ('q, exn, string) prog"
  st_xlen :: "string \<Rightarrow> ('q, exn, int) prog"
  st_entries :: "'q \<Rightarrow> string \<Rightarrow> (string \<times> string) list list"
  st_pending :: "'q \<Rightarrow> string \<Rightarrow> string set"

text \<open>
  XADD with an approximate MAXLEN appends one entry and may drop the oldest, none while the stream
  is shorter than the limit; it makes nothing pending. XACK takes ids out of the pending set and
  leaves the entries. XLEN counts the entries.
\<close>

definition xadd_law :: "'q streams \<Rightarrow> bool" where
  "xadd_law X \<longleftrightarrow>
     (\<forall>s f n q i q'. st_xadd X s f n q = (Inr i, q') \<longrightarrow>
        (\<exists>k. st_entries X q' s = drop k (st_entries X q s @ [f])
             \<and> (int (length (st_entries X q s)) < n \<longrightarrow> k = 0))
        \<and> (\<forall>t. t \<noteq> s \<longrightarrow> st_entries X q' t = st_entries X q t))
     \<and> (\<forall>s f n q r q'. st_xadd X s f n q = (r, q') \<longrightarrow> st_pending X q' = st_pending X q)"

definition xack_law :: "'q streams \<Rightarrow> bool" where
  "xack_law X \<longleftrightarrow>
     (\<forall>s g ids q r q'. st_xack X s g ids q = (r, q') \<longrightarrow>
        st_entries X q' = st_entries X q
        \<and> st_pending X q s - set ids \<subseteq> st_pending X q' s \<and> st_pending X q' s \<subseteq> st_pending X q s
        \<and> (\<forall>n. r = Inr n \<longrightarrow> st_pending X q' s = st_pending X q s - set ids))"

definition xlen_law :: "'q streams \<Rightarrow> bool" where
  "xlen_law X \<longleftrightarrow>
     (\<forall>s q n q'. st_xlen X s q = (Inr n, q') \<longrightarrow> n = int (length (st_entries X q s)))
     \<and> (\<forall>s q r q'. st_xlen X s q = (r, q') \<longrightarrow> st_entries X q' = st_entries X q)"

section \<open>RedisStreamConsumer\<close>

record stream_message =
  sm_message_id :: string
  sm_payload :: string
  sm_delivery_count :: int

definition group_already_exists :: string where "group_already_exists = ''BUSYGROUP''"
definition new_stream_position :: string where "new_stream_position = ''>''"
definition dead_letter_suffix :: string where "dead_letter_suffix = '':dlq''"
definition dead_letter_maxlen :: int where "dead_letter_maxlen = 100000"
definition first_delivery :: int where "first_delivery = 1"

record 'q consumer =
  co_streams :: "'q streams"
  co_settings :: settings
  co_name :: string

definition dead_letter_stream :: "settings \<Rightarrow> string" where
  "dead_letter_stream s = stream_name s @ dead_letter_suffix"

fun as_str :: "redis_value \<Rightarrow> string" where
  "as_str (RBytes b) = b"
| "as_str (RStr s) = s"

text \<open>\<open>fields.get(b"payload") or fields.get("payload") or ""\<close>: an empty value counts as absent.\<close>

definition payload_of :: "fields \<Rightarrow> string" where
  "payload_of f =
     (let first = (case map_of f (RBytes ''payload'') of None \<Rightarrow> [] | Some v \<Rightarrow> as_str v);
          second = (case map_of f (RStr ''payload'') of None \<Rightarrow> [] | Some v \<Rightarrow> as_str v) in
      if first \<noteq> [] then first else second)"

definition ensure_group :: "'q consumer \<Rightarrow> ('q, exn, unit) prog" where
  "ensure_group c = (\<lambda>q.
     case st_xgroup_create (co_streams c) (stream_name (co_settings c))
            (consumer_group (co_settings c)) ''0'' True q of
       (Inl (ResponseError t), q') \<Rightarrow>
         if sublist group_already_exists t then (Inr (), q') else (Inl (ResponseError t), q')
     | (Inl x, q') \<Rightarrow> (Inl x, q')
     | (Inr _, q') \<Rightarrow> (Inr (), q'))"

definition to_messages :: "(redis_value \<times> (redis_value \<times> fields) list) list \<Rightarrow> stream_message list" where
  "to_messages raw =
     concat (map (\<lambda>(_, entries). map (\<lambda>(i, f). \<lparr>sm_message_id = as_str i, sm_payload = payload_of f,
       sm_delivery_count = first_delivery\<rparr>) entries) raw)"

definition read :: "'q consumer \<Rightarrow> ('q, exn, stream_message list) prog" where
  "read c =
     bnd (st_xreadgroup (co_streams c) (consumer_group (co_settings c)) (co_name c)
            (stream_name (co_settings c)) new_stream_position
            (consumer_batch_size (co_settings c)) (consumer_block_ms (co_settings c)))
       (\<lambda>entries. ret (to_messages entries))"

text \<open>The dict comprehension: a later entry replaces the value of an earlier one with its key.\<close>

definition dict_of :: "('k \<times> 'v) list \<Rightarrow> ('k \<times> 'v) list" where
  "dict_of kvs = foldl (\<lambda>m (k, v). AList.update k v m) [] kvs"

definition pending_delivery_counts :: "'q consumer \<Rightarrow> ('q, exn, (string \<times> int) list) prog" where
  "pending_delivery_counts c = (\<lambda>q.
     case st_xpending (co_streams c) (stream_name (co_settings c)) (consumer_group (co_settings c))
            (consumer_batch_size (co_settings c)) (consumer_idle_reclaim_ms (co_settings c)) q of
       (Inl (ResponseError t), q') \<Rightarrow> (Inr [], q')
     | (Inl x, q') \<Rightarrow> (Inl x, q')
     | (Inr pending, q') \<Rightarrow> (Inr (dict_of (map (\<lambda>(i, n). (as_str i, n)) pending)), q'))"

definition reclaimed_message :: "(string \<times> int) list \<Rightarrow> redis_value \<times> fields \<Rightarrow> stream_message" where
  "reclaimed_message counts e =
     \<lparr>sm_message_id = as_str (fst e), sm_payload = payload_of (snd e),
      sm_delivery_count =
        (case map_of counts (as_str (fst e)) of None \<Rightarrow> first_delivery | Some n \<Rightarrow> n)\<rparr>"

definition reclaim_abandoned :: "'q consumer \<Rightarrow> ('q, exn, stream_message list) prog" where
  "reclaim_abandoned c =
     bnd (pending_delivery_counts c) (\<lambda>counts.
       if counts = [] then ret []
       else bnd (st_xclaim (co_streams c) (stream_name (co_settings c))
                   (consumer_group (co_settings c)) (co_name c)
                   (consumer_idle_reclaim_ms (co_settings c)) (map fst counts))
              (\<lambda>claimed. ret (map (reclaimed_message counts) claimed)))"

definition ack :: "'q consumer \<Rightarrow> string list \<Rightarrow> ('q, exn, unit) prog" where
  "ack c ids =
     (if ids = [] then ret ()
      else bnd (st_xack (co_streams c) (stream_name (co_settings c))
                  (consumer_group (co_settings c)) ids) (\<lambda>_. ret ()))"

definition dead_letter_fields :: "stream_message \<Rightarrow> string \<Rightarrow> (string \<times> string) list" where
  "dead_letter_fields m reason = [(''payload'', sm_payload m), (''reason'', take 500 reason)]"

definition send_to_dead_letter :: "'q consumer \<Rightarrow> stream_message \<Rightarrow> string \<Rightarrow> ('q, exn, unit) prog" where
  "send_to_dead_letter c m reason =
     bnd (st_xadd (co_streams c) (dead_letter_stream (co_settings c)) (dead_letter_fields m reason)
            dead_letter_maxlen)
       (\<lambda>_. ack c [sm_message_id m])"

section \<open>RedisStreamPublisher\<close>

text \<open>
  \<open>pipeline.execute()\<close> without a transaction: every queued command is sent, and the first error
  among the answers is raised afterwards.
\<close>

primrec pipeline :: "('q, exn, 'a) prog list \<Rightarrow> ('q, exn, unit) prog" where
  "pipeline [] = ret ()"
| "pipeline (m # ms) = (\<lambda>q.
     case m q of
       (Inl x, q1) \<Rightarrow> (Inl x, snd (pipeline ms q1))
     | (Inr _, q1) \<Rightarrow> pipeline ms q1)"

definition healthy_lag_when_unmeasurable :: int where
  "healthy_lag_when_unmeasurable = 0"

definition publish_many ::
  "'q streams \<Rightarrow> settings \<Rightarrow> ('e \<Rightarrow> string) \<Rightarrow> 'e list \<Rightarrow> ('q, exn, int) prog" where
  "publish_many X s dump events =
     (if events = [] then ret 0
      else bnd (pipeline (map (\<lambda>e. st_xadd X (stream_name s) [(''payload'', dump e)] (stream_maxlen s)) events))
             (\<lambda>_. ret (int (length events))))"

text \<open>Every exception is caught.\<close>

definition redis_pending_lag :: "'q streams \<Rightarrow> settings \<Rightarrow> ('q, exn, int) prog" where
  "redis_pending_lag X s = (\<lambda>q.
     case st_xlen X (stream_name s) q of
       (Inl x, q') \<Rightarrow> (Inr healthy_lag_when_unmeasurable, q')
     | (Inr n, q') \<Rightarrow> (Inr n, q'))"

section \<open>Facts\<close>

lemma ack_pending:
  assumes "xack_law (co_streams c)" and "ack c ids q = (r, q')"
  shows "st_entries (co_streams c) q' = st_entries (co_streams c) q"
    and "st_pending (co_streams c) q (stream_name (co_settings c)) - set ids
      \<subseteq> st_pending (co_streams c) q' (stream_name (co_settings c))"
    and "st_pending (co_streams c) q' (stream_name (co_settings c))
      \<subseteq> st_pending (co_streams c) q (stream_name (co_settings c))"
    and "r = Inr () \<Longrightarrow> st_pending (co_streams c) q' (stream_name (co_settings c))
      = st_pending (co_streams c) q (stream_name (co_settings c)) - set ids"
proof -
  let ?X = "co_streams c" and ?s = "stream_name (co_settings c)"
  have "st_entries ?X q' = st_entries ?X q \<and> st_pending ?X q ?s - set ids \<subseteq> st_pending ?X q' ?s
    \<and> st_pending ?X q' ?s \<subseteq> st_pending ?X q ?s
    \<and> (r = Inr () \<longrightarrow> st_pending ?X q' ?s = st_pending ?X q ?s - set ids)"
  proof (cases "ids = []")
    case True
    then show ?thesis using assms(2) by (simp add: ack_def)
  next
    case False
    obtain x q1 where x: "st_xack ?X ?s (consumer_group (co_settings c)) ids q = (x, q1)"
      by (cases "st_xack ?X ?s (consumer_group (co_settings c)) ids q")
    have law: "st_entries ?X q1 = st_entries ?X q
        \<and> st_pending ?X q ?s - set ids \<subseteq> st_pending ?X q1 ?s \<and> st_pending ?X q1 ?s \<subseteq> st_pending ?X q ?s
        \<and> (\<forall>n. x = Inr n \<longrightarrow> st_pending ?X q1 ?s = st_pending ?X q ?s - set ids)"
      using assms(1) [unfolded xack_law_def, rule_format, OF x] by blast
    have "q' = q1" and "r = Inr () \<Longrightarrow> \<exists>n. x = Inr n"
      using assms(2) False x by (auto simp: ack_def bnd_def split: sum.splits)
    with law show ?thesis by blast
  qed
  then show "st_entries ?X q' = st_entries ?X q" and "st_pending ?X q ?s - set ids \<subseteq> st_pending ?X q' ?s"
    and "st_pending ?X q' ?s \<subseteq> st_pending ?X q ?s"
    and "r = Inr () \<Longrightarrow> st_pending ?X q' ?s = st_pending ?X q ?s - set ids"
    by blast+
qed

lemma map_of_dict_of: "map_of (dict_of kvs) k = map_of (rev kvs) k"
proof -
  have "map_of (foldl (\<lambda>m (k, v). AList.update k v m) al kvs) k = (map_of al ++ map_of (rev kvs)) k" for al
  proof (induction kvs arbitrary: al)
    case (Cons kv kvs)
    then show ?case
      by (cases kv) (simp add: update_conv' map_add_def split: option.split)
  qed simp
  then show ?thesis by (simp add: dict_of_def)
qed

end
