(* ===== verification/Ingest_Worker.thy ===== *)
theory Ingest_Worker
  imports Streams Processor_Proofs
begin

text \<open>
  src/ingest_worker/main.py: the worker that takes batches from the stream, persists them in a
  thread and settles them: dead letters first, acknowledgements last. The clock and the commit
  fault that message number k of a batch meets are a parameter of the run.
\<close>

definition reclaim_every_n_cycles :: nat where
  "reclaim_every_n_cycles = 20"

record ('d, 'r, 'q) ingest_worker =
  iw_consumer :: "'q consumer"
  iw_processor :: "('d, 'r) processor"
  iw_settings :: settings
  iw_decode :: "string \<Rightarrow> 'd envelope option"

text \<open>\<open>model_validate_json\<close>: pydantic decodes, then the constraints of the envelope are checked.\<close>

definition parse :: "('d, 'r, 'q) ingest_worker \<Rightarrow> stream_message \<Rightarrow> 'd envelope option" where
  "parse w m =
     (case iw_decode w (sm_payload m) of
        None \<Rightarrow> None
      | Some e \<Rightarrow> if envelope_ok e then Some e else None)"

definition deliveries_exhausted :: "('d, 'r, 'q) ingest_worker \<Rightarrow> stream_message \<Rightarrow> bool" where
  "deliveries_exhausted w m \<longleftrightarrow> consumer_max_delivery (iw_settings w) \<le> sm_delivery_count m"

record batch =
  ba_acknowledgeable :: "string list"
  ba_dead_letters :: "(stream_message \<times> string) list"
  ba_outcomes :: "(string \<times> nat) list"

definition empty_batch :: batch where
  "empty_batch = \<lparr>ba_acknowledgeable = [], ba_dead_letters = [], ba_outcomes = []\<rparr>"

definition count_outcome :: "outcome \<Rightarrow> batch \<Rightarrow> batch" where
  "count_outcome oc b =
     b\<lparr>ba_outcomes := AList.update (outcome_value oc)
         ((case map_of (ba_outcomes b) (outcome_value oc) of None \<Rightarrow> 0 | Some n \<Rightarrow> n) + 1) (ba_outcomes b)\<rparr>"

definition settle_message :: "('d, 'r, 'q) ingest_worker \<Rightarrow> stream_message \<Rightarrow> result \<Rightarrow> batch \<Rightarrow> batch" where
  "settle_message w m res b =
     (if should_ack res then b\<lparr>ba_acknowledgeable := ba_acknowledgeable b @ [sm_message_id m]\<rparr>
      else if deliveries_exhausted w m then
        b\<lparr>ba_dead_letters := ba_dead_letters b @ [(m, ''tentativas esgotadas: '' @ res_detail res)]\<rparr>
      else b)"

type_synonym env = "nat \<Rightarrow> clock \<times> commit_fault"

fun persist_loop ::
  "('d, 'r, 'q) ingest_worker \<Rightarrow> env \<Rightarrow> nat \<Rightarrow> stream_message list \<Rightarrow> batch \<Rightarrow> db \<times> 'r
    \<Rightarrow> (exn + batch) \<times> db \<times> 'r" where
  "persist_loop w env k [] b s = (Inr b, s)"
| "persist_loop w env k (m # ms) b s =
     (case parse w m of
        None \<Rightarrow>
          persist_loop w env (k + 1) ms
            (b\<lparr>ba_dead_letters := ba_dead_letters b @ [(m, ''payload invalido'')]\<rparr>) s
      | Some e \<Rightarrow>
          (case process (iw_processor w) (fst (env k)) (snd (env k)) e s of
             (Inl x, s') \<Rightarrow> (Inl x, s')
           | (Inr res, s') \<Rightarrow>
               persist_loop w env (k + 1) ms
                 (settle_message w m res (count_outcome (res_outcome res) b)) s'))"

definition persist ::
  "('d, 'r, 'q) ingest_worker \<Rightarrow> env \<Rightarrow> stream_message list \<Rightarrow> db \<times> 'r \<Rightarrow> (exn + batch) \<times> db \<times> 'r" where
  "persist w env ms s = persist_loop w env 0 ms empty_batch s"

text \<open>The stream half of \<open>_handle\<close>, after the thread has returned.\<close>

definition settle_batch :: "('d, 'r, 'q) ingest_worker \<Rightarrow> batch \<Rightarrow> ('q, exn, unit) prog" where
  "settle_batch w b =
     bnd (for_each (\<lambda>(m, reason). send_to_dead_letter (iw_consumer w) m reason) (ba_dead_letters b))
       (\<lambda>_. ack (iw_consumer w) (ba_acknowledgeable b))"

record ('r, 'q) world =
  wo_db :: db
  wo_redis :: 'r
  wo_stream :: 'q

definition handle_batch ::
  "('d, 'r, 'q) ingest_worker \<Rightarrow> env \<Rightarrow> stream_message list \<Rightarrow> (('r, 'q) world, exn, unit) prog" where
  "handle_batch w env ms = (\<lambda>s.
     case persist w env ms (wo_db s, wo_redis s) of
       (Inl x, d, r) \<Rightarrow> (Inl x, s\<lparr>wo_db := d, wo_redis := r\<rparr>)
     | (Inr b, d, r) \<Rightarrow>
         (case settle_batch w b (wo_stream s) of
            (res, q) \<Rightarrow> (res, s\<lparr>wo_db := d, wo_redis := r, wo_stream := q\<rparr>)))"

definition next_messages :: "('d, 'r, 'q) ingest_worker \<Rightarrow> nat \<Rightarrow> ('q, exn, stream_message list) prog" where
  "next_messages w cycle =
     bnd (read (iw_consumer w)) (\<lambda>ms.
       if cycle mod reclaim_every_n_cycles = 0 then
         bnd (reclaim_abandoned (iw_consumer w)) (\<lambda>rs. ret (ms @ rs))
       else ret ms)"

text \<open>
  The loop of \<open>run\<close>: \<open>n\<close> cycles after number \<open>k\<close>, up to the request to stop. An exception of a cycle
  ends the loop.
\<close>

definition run_cycle :: "('d, 'r, 'q) ingest_worker \<Rightarrow> env \<Rightarrow> nat \<Rightarrow> (('r, 'q) world, exn, unit) prog" where
  "run_cycle w env cycle = (\<lambda>s.
     case next_messages w cycle (wo_stream s) of
       (Inl x, q) \<Rightarrow> (Inl x, s\<lparr>wo_stream := q\<rparr>)
     | (Inr ms, q) \<Rightarrow>
         if ms = [] then (Inr (), s\<lparr>wo_stream := q\<rparr>)
         else handle_batch w env ms (s\<lparr>wo_stream := q\<rparr>))"

fun run_cycles ::
  "('d, 'r, 'q) ingest_worker \<Rightarrow> (nat \<Rightarrow> env) \<Rightarrow> nat \<Rightarrow> nat \<Rightarrow> (('r, 'q) world, exn, unit) prog" where
  "run_cycles w envs k 0 = ret ()"
| "run_cycles w envs k (Suc n) =
     bnd (run_cycle w (envs (k + 1)) (k + 1)) (\<lambda>_. run_cycles w envs (k + 1) n)"

definition run ::
  "('d, 'r, 'q) ingest_worker \<Rightarrow> (nat \<Rightarrow> env) \<Rightarrow> nat \<Rightarrow> (('r, 'q) world, exn, unit) prog" where
  "run w envs n = (\<lambda>s.
     case ensure_group (iw_consumer w) (wo_stream s) of
       (Inl x, q) \<Rightarrow> (Inl x, s\<lparr>wo_stream := q\<rparr>)
     | (Inr _, q) \<Rightarrow> run_cycles w envs 0 n (s\<lparr>wo_stream := q\<rparr>))"

section \<open>What a batch comes to\<close>

text \<open>The fate of one message, and the batch its messages make.\<close>

datatype verdict = Acked | Buried string | StaysPending

definition verdict_of :: "('d, 'r, 'q) ingest_worker \<Rightarrow> stream_message \<Rightarrow> result option \<Rightarrow> verdict" where
  "verdict_of w m res =
     (case res of
        None \<Rightarrow> Buried ''payload invalido''
      | Some r \<Rightarrow>
          if should_ack r then Acked
          else if deliveries_exhausted w m then Buried (''tentativas esgotadas: '' @ res_detail r)
          else StaysPending)"

definition acked_ids :: "(stream_message \<times> verdict) list \<Rightarrow> string list" where
  "acked_ids vs = map (sm_message_id \<circ> fst) (filter (\<lambda>(m, v). v = Acked) vs)"

fun buried :: "(stream_message \<times> verdict) list \<Rightarrow> (stream_message \<times> string) list" where
  "buried [] = []"
| "buried ((m, Buried why) # vs) = (m, why) # buried vs"
| "buried ((m, _) # vs) = buried vs"

lemma settle_message_verdict:
  "ba_acknowledgeable (settle_message w m res b) =
     ba_acknowledgeable b @ acked_ids [(m, verdict_of w m (Some res))]"
  "ba_dead_letters (settle_message w m res b) =
     ba_dead_letters b @ buried [(m, verdict_of w m (Some res))]"
  by (simp_all add: settle_message_def verdict_of_def acked_ids_def)

lemma count_outcome_frame [simp]:
  "ba_acknowledgeable (count_outcome oc b) = ba_acknowledgeable b"
  "ba_dead_letters (count_outcome oc b) = ba_dead_letters b"
  by (simp_all add: count_outcome_def)

lemma acked_ids_Cons: "acked_ids (mv # vs) = acked_ids [mv] @ acked_ids vs"
  by (simp add: acked_ids_def)

lemma buried_Cons: "buried (mv # vs) = buried [mv] @ buried vs"
  by (cases mv; cases "snd mv") auto

text \<open>
  A message's verdict is backed by a call of \<open>process\<close> on its event, made between the database the
  batch started from and the one it ended with, or by a payload that does not parse.
\<close>

definition backed ::
  "('d, 'r, 'q) ingest_worker \<Rightarrow> db \<Rightarrow> db \<Rightarrow> stream_message \<Rightarrow> verdict \<Rightarrow> bool" where
  "backed w d d' m v \<longleftrightarrow>
     (case parse w m of
        None \<Rightarrow> v = verdict_of w m None
      | Some e \<Rightarrow> (\<exists>res d1 r1 d2 r2 clk fault.
          process (iw_processor w) clk fault e (d1, r1) = (Inr res, d2, r2)
          \<and> v = verdict_of w m (Some res)
          \<and> (\<forall>i. in_ledger i d \<longrightarrow> in_ledger i d1) \<and> (\<forall>i. in_ledger i d2 \<longrightarrow> in_ledger i d')))"

lemma process_ledger_mono:
  assumes "registry_ok (pr_registry p)" and "db_ok d" and "process p clk fault e (d, r) = (res, d', r')"
    and "in_ledger i d"
  shows "in_ledger i d'"
  using process_db_cases(2) [OF assms(1,3)]
proof
  assume "rows_same d d' \<and> res \<noteq> Inr processed_result"
  then show ?thesis using assms(4) rows_same_in_ledger by blast
next
  assume "\<exists>h. pr_registry p (ev_event_type e) = Some h
         \<and> event_applied h (pr_outside p) clk e d d'
         \<and> (res = Inr processed_result \<or> (\<exists>x. fault = CommitInDoubt x))"
  then obtain h where "pr_registry p (ev_event_type e) = Some h"
    and app: "event_applied h (pr_outside p) clk e d d'" by blast
  then have "event_handler h"
    using assms(1) by (simp add: registry_ok_def)
  from event_applied_ok(3) [OF this assms(2) app] assms(4) show ?thesis
    by (simp add: db_grows_def in_ledger_def)
qed

lemma backed_mono:
  "backed w d1 d2 m v \<Longrightarrow> (\<And>i. in_ledger i d \<Longrightarrow> in_ledger i d1) \<Longrightarrow> (\<And>i. in_ledger i d2 \<Longrightarrow> in_ledger i d') \<Longrightarrow>
   backed w d d' m v"
  unfolding backed_def by (cases "parse w m") (simp, simp, blast)

lemma persist_loop_db:
  assumes "registry_ok (pr_registry (iw_processor w))" and "db_ok d"
    and "persist_loop w env k ms b (d, r) = (res, d', r')"
  shows "db_ok d' \<and> (\<forall>i. in_ledger i d \<longrightarrow> in_ledger i d')"
  using assms(2,3)
proof (induction ms arbitrary: k b d r)
  case (Cons m ms)
  show ?case
  proof (cases "parse w m")
    case None
    with Cons show ?thesis by simp
  next
    case (Some e)
    obtain x d1 r1 where step: "process (iw_processor w) (fst (env k)) (snd (env k)) e (d, r) = (x, d1, r1)"
      by (cases "process (iw_processor w) (fst (env k)) (snd (env k)) e (d, r)")
    have "db_ok d1" and "\<And>i. in_ledger i d \<Longrightarrow> in_ledger i d1"
      using process_keeps_ok [OF assms(1) Cons.prems(1) step]
        process_ledger_mono [OF assms(1) Cons.prems(1) step] by auto
    with Cons.prems(2) Some step Cons.IH show ?thesis
      by (cases x) auto
  qed
qed auto

lemma persist_loop_verdicts:
  assumes "registry_ok (pr_registry (iw_processor w))" and "db_ok d"
    and "persist_loop w env k ms b (d, r) = (Inr b', d', r')"
  shows "\<exists>vs. map fst vs = ms \<and> ba_acknowledgeable b' = ba_acknowledgeable b @ acked_ids vs
    \<and> ba_dead_letters b' = ba_dead_letters b @ buried vs \<and> (\<forall>(m, v) \<in> set vs. backed w d d' m v)"
  using assms(2,3)
proof (induction ms arbitrary: k b d r)
  case Nil
  then show ?case by (intro exI [of _ "[]"]) (auto simp: acked_ids_def)
next
  case (Cons m ms)
  show ?case
  proof (cases "parse w m")
    case None
    let ?b = "b\<lparr>ba_dead_letters := ba_dead_letters b @ [(m, ''payload invalido'')]\<rparr>"
    have "persist_loop w env (k + 1) ms ?b (d, r) = (Inr b', d', r')"
      using Cons.prems(2) None by simp
    from Cons.IH [OF Cons.prems(1) this] obtain vs where
      "map fst vs = ms \<and> ba_acknowledgeable b' = ba_acknowledgeable ?b @ acked_ids vs
       \<and> ba_dead_letters b' = ba_dead_letters ?b @ buried vs \<and> (\<forall>(m, v) \<in> set vs. backed w d d' m v)"
      by blast
    moreover have "backed w d d' m (Buried ''payload invalido'')"
      using None by (simp add: backed_def verdict_of_def)
    ultimately show ?thesis
      by (intro exI [of _ "(m, Buried ''payload invalido'') # vs"]) (simp add: acked_ids_def)
  next
    case (Some e)
    obtain x d1 r1 where step: "process (iw_processor w) (fst (env k)) (snd (env k)) e (d, r) = (x, d1, r1)"
      by (cases "process (iw_processor w) (fst (env k)) (snd (env k)) e (d, r)")
    obtain res where x: "x = Inr res"
      using Cons.prems(2) Some step by (cases x) auto
    let ?b = "settle_message w m res (count_outcome (res_outcome res) b)"
    have rest: "persist_loop w env (k + 1) ms ?b (d1, r1) = (Inr b', d', r')"
      using Cons.prems(2) Some step x by simp
    have ok1: "db_ok d1"
      using process_keeps_ok [OF assms(1) Cons.prems(1) step] .
    have mono1: "\<And>i. in_ledger i d \<Longrightarrow> in_ledger i d1"
      using process_ledger_mono [OF assms(1) Cons.prems(1) step] .
    have mono2: "\<And>i. in_ledger i d1 \<Longrightarrow> in_ledger i d'"
      using persist_loop_db [OF assms(1) ok1 rest] by blast
    from Cons.IH [OF ok1 rest] obtain vs where
      "map fst vs = ms" and acks: "ba_acknowledgeable b' = ba_acknowledgeable ?b @ acked_ids vs"
      and dead: "ba_dead_letters b' = ba_dead_letters ?b @ buried vs"
      and bk: "\<forall>(m, v) \<in> set vs. backed w d1 d' m v"
      by blast
    let ?v = "verdict_of w m (Some res)"
    have "backed w d d' m ?v"
      unfolding backed_def using Some step x mono2
      by (simp, intro exI [of _ res] exI [of _ d]) blast
    moreover have "\<forall>(m, v) \<in> set vs. backed w d d' m v"
      using bk backed_mono [OF _ mono1] by blast
    ultimately show ?thesis
      using \<open>map fst vs = ms\<close> acks dead
      by (intro exI [of _ "(m, ?v) # vs"])
        (auto simp: settle_message_verdict acked_ids_Cons [of "(m, ?v)" vs] buried_Cons [of "(m, ?v)" vs])
  qed
qed

section \<open>The stream half\<close>

lemma send_to_dead_letter_pending:
  assumes "xadd_law (co_streams c)" and "xack_law (co_streams c)"
    and "send_to_dead_letter c m why q = (res, q')"
  shows "st_pending (co_streams c) q (stream_name (co_settings c)) - {sm_message_id m}
      \<subseteq> st_pending (co_streams c) q' (stream_name (co_settings c))"
    and "res = Inr () \<Longrightarrow> st_pending (co_streams c) q' (stream_name (co_settings c))
      = st_pending (co_streams c) q (stream_name (co_settings c)) - {sm_message_id m}"
proof -
  let ?X = "co_streams c" and ?s = "stream_name (co_settings c)"
  obtain x q1 where add: "st_xadd ?X (dead_letter_stream (co_settings c)) (dead_letter_fields m why)
      dead_letter_maxlen q = (x, q1)"
    by (cases "st_xadd ?X (dead_letter_stream (co_settings c)) (dead_letter_fields m why) dead_letter_maxlen q")
  have pend: "st_pending ?X q1 = st_pending ?X q"
    using assms(1) add unfolding xadd_law_def by blast
  show "st_pending ?X q ?s - {sm_message_id m} \<subseteq> st_pending ?X q' ?s"
    and "res = Inr () \<Longrightarrow> st_pending ?X q' ?s = st_pending ?X q ?s - {sm_message_id m}"
    using assms(3) add pend ack_pending [OF assms(2), of "[sm_message_id m]" q1 res q']
    by (auto simp: send_to_dead_letter_def bnd_def split: sum.splits)
qed

lemma bury_all_pending:
  assumes "xadd_law (co_streams c)" and "xack_law (co_streams c)"
    and "for_each (\<lambda>(m, why). send_to_dead_letter c m why) ds q = (res, q')"
  shows "st_pending (co_streams c) q (stream_name (co_settings c)) - sm_message_id ` fst ` set ds
      \<subseteq> st_pending (co_streams c) q' (stream_name (co_settings c))
    \<and> (res = Inr () \<longrightarrow> st_pending (co_streams c) q' (stream_name (co_settings c))
      = st_pending (co_streams c) q (stream_name (co_settings c)) - sm_message_id ` fst ` set ds)"
  using assms(3)
proof (induction ds arbitrary: q)
  case (Cons dl ds)
  obtain m why where dl: "dl = (m, why)" by (cases dl)
  obtain x q1 where one: "send_to_dead_letter c m why q = (x, q1)"
    by (cases "send_to_dead_letter c m why q")
  note step = send_to_dead_letter_pending [OF assms(1,2) one]
  show ?case
  proof (cases x)
    case (Inl a)
    then have "q' = q1" "res \<noteq> Inr ()"
      using Cons.prems one dl by (auto simp: bnd_def)
    with step(1) dl show ?thesis by auto
  next
    case (Inr a)
    then have rest: "for_each (\<lambda>(m, why). send_to_dead_letter c m why) ds q1 = (res, q')"
      using Cons.prems one dl by (simp add: bnd_def)
    from Cons.IH [OF this] step(2) Inr dl show ?thesis by auto
  qed
qed auto

end
