(* ===== verification/Ingest_Claims.thy ===== *)
theory Ingest_Claims
  imports Ingest_Worker Handler_Claims
begin

text \<open>
  The properties of the ingest worker (src/ingest_worker/main.py) and of the consumer it reads from
  (src/shared/messaging/consumer.py), with an in-memory stream server for the witnesses.
\<close>

section \<open>A stream server for the witnesses\<close>

record memory =
  me_entries :: "(string \<times> (string \<times> string) list list) list"
  me_new :: "(string \<times> fields) list"
  me_pending :: "(string \<times> fields \<times> int) list"

definition entries_of :: "memory \<Rightarrow> string \<Rightarrow> (string \<times> string) list list" where
  "entries_of q s = (case map_of (me_entries q) s of None \<Rightarrow> [] | Some es \<Rightarrow> es)"

definition memory_xadd :: "string \<Rightarrow> (string \<times> string) list \<Rightarrow> int \<Rightarrow> (memory, exn, string) prog" where
  "memory_xadd s f n q =
     (Inr ''1-1'', q\<lparr>me_entries := AList.update s
        (let es = entries_of q s @ [f] in drop (nat (int (length es) - n)) es) (me_entries q)\<rparr>)"

definition memory_streams :: "memory streams" where
  "memory_streams = \<lparr>
     st_xgroup_create = (\<lambda>s g i mk q. (Inl (ResponseError ''BUSYGROUP name already exists''), q)),
     st_xreadgroup = (\<lambda>g c s p n b q.
        (Inr (if me_new q = [] then [] else [(RBytes s, map (\<lambda>(i, f). (RBytes i, f)) (take (nat n) (me_new q)))]),
         q\<lparr>me_new := drop (nat n) (me_new q),
           me_pending := me_pending q @ map (\<lambda>(i, f). (i, f, 1)) (take (nat n) (me_new q))\<rparr>)),
     st_xpending = (\<lambda>s g n idle q. (Inr (map (\<lambda>(i, f, k). (RBytes i, k)) (take (nat n) (me_pending q))), q)),
     st_xclaim = (\<lambda>s g c idle ids q.
        (Inr (map (\<lambda>(i, f, k). (RBytes i, f)) (filter (\<lambda>(i, f, k). i \<in> set ids) (me_pending q))),
         q\<lparr>me_pending := map (\<lambda>(i, f, k). (i, f, if i \<in> set ids then k + 1 else k)) (me_pending q)\<rparr>)),
     st_xack = (\<lambda>s g ids q.
        (Inr (int (length (filter (\<lambda>(i, f, k). i \<in> set ids) (me_pending q)))),
         q\<lparr>me_pending := filter (\<lambda>(i, f, k). i \<notin> set ids) (me_pending q)\<rparr>)),
     st_xadd = memory_xadd,
     st_xlen = (\<lambda>s q. (Inr (int (length (entries_of q s))), q)),
     st_entries = entries_of,
     st_pending = (\<lambda>q s. fst ` set (me_pending q))\<rparr>"

lemma memory_xadd_law: "xadd_law memory_streams"
proof -
  have "\<exists>k. drop (nat (int (length (es @ [f])) - n)) (es @ [f]) = drop k (es @ [f]) \<and> (int (length es) < n \<longrightarrow> k = 0)"
    for es :: "(string \<times> string) list list" and f n
    by (rule exI [of _ "nat (int (length (es @ [f])) - n)"]) auto
  then show ?thesis
    by (simp add: xadd_law_def memory_streams_def memory_xadd_def Let_def entries_of_def update_conv')
qed

lemma memory_xack_law: "xack_law memory_streams"
  by (auto simp: xack_law_def memory_streams_def entries_of_def)

lemma memory_xlen_law: "xlen_law memory_streams"
  by (auto simp: xlen_law_def memory_streams_def)

definition sample_worker :: "(sample, string set \<times> bool, memory) ingest_worker" where
  "sample_worker = \<lparr>iw_consumer = \<lparr>co_streams = memory_streams, co_settings = default_settings, co_name = ''w1''\<rparr>,
     iw_processor = sample_processor, iw_settings = default_settings,
     iw_decode = (\<lambda>s. if s = ''client'' then Some client_event else if s = ''order'' then Some order_event
                      else if s = ''payment'' then Some payment_event else None)\<rparr>"

definition sample_env :: env where
  "sample_env k = (sample_clock, CommitOk)"

definition sample_messages :: "stream_message list" where
  "sample_messages =
     [\<lparr>sm_message_id = ''1'', sm_payload = ''client'', sm_delivery_count = 1\<rparr>,
      \<lparr>sm_message_id = ''2'', sm_payload = ''payment'', sm_delivery_count = 1\<rparr>,
      \<lparr>sm_message_id = ''3'', sm_payload = ''???'', sm_delivery_count = 1\<rparr>]"

section \<open>Batches\<close>

lemma persist_verdicts:
  assumes "registry_ok (pr_registry (iw_processor w))" and "db_ok d"
    and "persist w env ms (d, r) = (Inr b, d', r')"
  obtains vs where "map fst vs = ms" and "ba_acknowledgeable b = acked_ids vs"
    and "ba_dead_letters b = buried vs" and "\<forall>(m, v) \<in> set vs. backed w d d' m v"
  using persist_loop_verdicts [OF assms(1,2) assms(3) [unfolded persist_def]]
  by (auto simp: empty_batch_def)

lemma backed_verdict:
  assumes "backed w d d' m v"
  shows "(v = StaysPending \<longrightarrow> \<not> deliveries_exhausted w m)
    \<and> (v = Acked \<longrightarrow> parse w m \<noteq> None) \<and> (parse w m = None \<longrightarrow> v = Buried ''payload invalido'')"
  using assms
  by (auto simp: backed_def verdict_of_def split: option.splits if_splits)

text \<open>
  C31. A batch is decided message by message. When \<open>_persist\<close> returns, every message has exactly one
  fate, in the order of the batch: acknowledgeable when \<open>process\<close> on its parsed event said so, dead
  letter when its payload does not parse or it failed with its deliveries exhausted, left pending
  otherwise; the lists the worker acts on are exactly those, the database is consistent again, and
  no ledger entry was lost.
\<close>

theorem batch_is_partitioned:
  assumes "registry_ok (pr_registry (iw_processor w))" and "db_ok d"
    and "persist w env ms (d, r) = (Inr b, d', r')"
  shows "db_ok d' \<and> (\<forall>i. in_ledger i d \<longrightarrow> in_ledger i d') \<and> (\<exists>vs. map fst vs = ms
    \<and> ba_acknowledgeable b = acked_ids vs \<and> ba_dead_letters b = buried vs
    \<and> (\<forall>(m, v) \<in> set vs. backed w d d' m v \<and> (v = StaysPending \<longrightarrow> \<not> deliveries_exhausted w m)
        \<and> (v = Acked \<longrightarrow> parse w m \<noteq> None)
        \<and> (parse w m = None \<longrightarrow> v = Buried ''payload invalido'')))"
proof -
  obtain vs where "map fst vs = ms" "ba_acknowledgeable b = acked_ids vs" "ba_dead_letters b = buried vs"
    and "\<forall>(m, v) \<in> set vs. backed w d d' m v"
    by (rule persist_verdicts [OF assms])
  then show ?thesis
    using persist_loop_db [OF assms(1,2) assms(3) [unfolded persist_def]] backed_verdict by blast
qed

lemma sample_worker_registry: "registry_ok (pr_registry (iw_processor sample_worker))"
  by (simp add: sample_worker_def sample_registry_ok)

theorem batch_is_partitioned_witness:
  "\<exists>b d' r'. persist sample_worker sample_env sample_messages (empty_db, ({}, True)) = (Inr b, d', r')
     \<and> db_ok d' \<and> ba_acknowledgeable b = [''1''] \<and> map (sm_message_id \<circ> fst) (ba_dead_letters b) = [''3'']"
proof -
  have eval: "case fst (persist sample_worker sample_env sample_messages (empty_db, ({}, True))) of
      Inl _ \<Rightarrow> False
    | Inr b \<Rightarrow> ba_acknowledgeable b = [''1''] \<and> map (\<lambda>x. sm_message_id (fst x)) (ba_dead_letters b) = [''3'']"
    by code_simp
  obtain x d' r' where run: "persist sample_worker sample_env sample_messages (empty_db, ({}, True)) = (x, d', r')"
    by (cases "persist sample_worker sample_env sample_messages (empty_db, ({}, True))") auto
  with eval obtain b where b: "x = Inr b" "ba_acknowledgeable b = [''1'']"
    "map (\<lambda>x. sm_message_id (fst x)) (ba_dead_letters b) = [''3'']"
    by (cases x) auto
  with run batch_is_partitioned [OF sample_worker_registry empty_db_ok, of sample_env sample_messages "({}, True)" b d' r']
  show ?thesis by (auto simp: comp_def)
qed

lemma diff_first: "P - A \<subseteq> Q \<Longrightarrow> P - (A \<union> B) \<subseteq> Q"
  by blast

lemma Diff_Un_twice: "P - (A \<union> B) = P - A - B"
  by blast

lemma settled_iff: "v \<noteq> StaysPending \<longleftrightarrow> v = Acked \<or> (\<exists>why. v = Buried why)"
  by (cases v) auto

lemma buried_ids: "sm_message_id ` fst ` set (buried vs) = {sm_message_id m |m why. (m, Buried why) \<in> set vs}"
  by (induction vs rule: buried.induct) auto

lemma acked_ids_set: "set (acked_ids vs) = {sm_message_id m |m. (m, Acked) \<in> set vs}"
  by (force simp: acked_ids_def)

text \<open>The ids of the messages that a batch settles, and what settling them does to the pending set.\<close>

lemma settled_ids:
  "{sm_message_id m |m v. (m, v) \<in> set vs \<and> v \<noteq> StaysPending} = sm_message_id ` fst ` set (buried vs) \<union> set (acked_ids vs)"
  unfolding buried_ids acked_ids_set settled_iff by blast

lemma settle_batch_pending:
  assumes "xadd_law (co_streams (iw_consumer w))" and "xack_law (co_streams (iw_consumer w))"
    and "ba_acknowledgeable b = acked_ids vs" and "ba_dead_letters b = buried vs"
    and "settle_batch w b q = (res, q')"
  defines "pending \<equiv> \<lambda>q. st_pending (co_streams (iw_consumer w)) q (stream_name (co_settings (iw_consumer w)))"
    and "settled \<equiv> {sm_message_id m |m v. (m, v) \<in> set vs \<and> v \<noteq> StaysPending}"
  shows "pending q - settled \<subseteq> pending q' \<and> (res = Inr () \<longrightarrow> pending q' = pending q - settled)"
proof -
  let ?c = "iw_consumer w"
  obtain z q1 where bury: "for_each (\<lambda>(m, why). send_to_dead_letter ?c m why) (buried vs) q = (z, q1)"
    by (cases "for_each (\<lambda>(m, why). send_to_dead_letter ?c m why) (buried vs) q")
  show ?thesis
  proof (cases z)
    case (Inl z')
    then have "q' = q1" "res \<noteq> Inr ()"
      using assms(3,4,5) bury by (auto simp: settle_batch_def bnd_def)
    then show ?thesis
      using bury_all_pending [OF assms(1,2) bury] diff_first [of "pending q"]
      unfolding pending_def settled_def settled_ids by simp
  next
    case (Inr z')
    then have last: "ack ?c (acked_ids vs) q1 = (res, q')"
      using assms(3,4,5) bury by (simp add: settle_batch_def bnd_def)
    have "pending q1 = pending q - sm_message_id ` fst ` set (buried vs)"
      using bury_all_pending [OF assms(1,2) bury] Inr by (simp add: pending_def)
    then show ?thesis
      using ack_pending(2,4) [OF assms(2) last] unfolding pending_def settled_def settled_ids
      by (simp add: Diff_Un_twice)
  qed
qed



section \<open>Reclaiming\<close>

text \<open>
  A reclaimed message carries the delivery count from before the claim. Each message that
  \<open>reclaim_abandoned\<close> returns has the count that XPENDING reported, taken before XCLAIM delivers it
  once more, and 1 if the report does not name it. So a message is a dead letter on failure only if
  the report already had \<open>consumer_max_delivery\<close> deliveries, one more attempt than the setting says.
\<close>

lemma reclaimed_count_is_before_claim:
  assumes "st_xpending (co_streams c) (stream_name (co_settings c)) (consumer_group (co_settings c))
        (consumer_batch_size (co_settings c)) (consumer_idle_reclaim_ms (co_settings c)) q = (Inr report, q1)"
    and "reclaim_abandoned c q = (Inr ms, q')" and "m \<in> set ms"
  shows "sm_delivery_count m =
      (case map_of (rev (map (\<lambda>(i, n). (as_str i, n)) report)) (sm_message_id m) of
         None \<Rightarrow> 1 | Some n \<Rightarrow> n)
    \<and> (deliveries_exhausted w m \<longleftrightarrow> consumer_max_delivery (iw_settings w) \<le>
        (case map_of (rev (map (\<lambda>(i, n). (as_str i, n)) report)) (sm_message_id m) of None \<Rightarrow> 1 | Some n \<Rightarrow> n))"
proof -
  let ?counts = "dict_of (map (\<lambda>(i, n). (as_str i, n)) report)"
  have "pending_delivery_counts c q = (Inr ?counts, q1)"
    using assms(1) by (simp add: pending_delivery_counts_def)
  with assms(2,3) obtain e where "m = reclaimed_message ?counts e"
    by (auto simp: reclaim_abandoned_def bnd_Inr_iff split: if_splits)
  then have "sm_delivery_count m = (case map_of ?counts (sm_message_id m) of None \<Rightarrow> 1 | Some n \<Rightarrow> n)"
    by (simp add: reclaimed_message_def first_delivery_def split: option.split)
  then show ?thesis
    by (simp add: map_of_dict_of deliveries_exhausted_def)
qed

lemma reclaimed_count_is_before_claim_example:
  "\<exists>q'. reclaim_abandoned (iw_consumer sample_worker)
       \<lparr>me_entries = [], me_new = [], me_pending = [(''7'', [], 4)]\<rparr>
     = (Inr [\<lparr>sm_message_id = ''7'', sm_payload = '''', sm_delivery_count = 4\<rparr>], q')
     \<and> map (snd \<circ> snd) (me_pending q') = [5]
     \<and> \<not> deliveries_exhausted sample_worker \<lparr>sm_message_id = ''7'', sm_payload = '''', sm_delivery_count = 4\<rparr>"
proof -
  let ?c = "iw_consumer sample_worker"
  let ?q = "\<lparr>me_entries = [], me_new = [], me_pending = [(''7'', [], 4)]\<rparr> :: memory"
  let ?m = "\<lparr>sm_message_id = ''7'', sm_payload = '''', sm_delivery_count = 4\<rparr>"
  have report: "st_xpending (co_streams ?c) (stream_name (co_settings ?c)) (consumer_group (co_settings ?c))
        (consumer_batch_size (co_settings ?c)) (consumer_idle_reclaim_ms (co_settings ?c)) ?q
      = (Inr [(RBytes ''7'', 4)], ?q)"
    by (simp add: sample_worker_def memory_streams_def default_settings_def)
  have eval: "reclaim_abandoned ?c ?q = (Inr [?m], ?q\<lparr>me_pending := [(''7'', [], 5)]\<rparr>)"
    by (simp add: reclaim_abandoned_def pending_delivery_counts_def report dict_of_def bnd_def
        reclaimed_message_def payload_of_def first_delivery_def)
      (simp add: sample_worker_def memory_streams_def reclaimed_message_def payload_of_def)
  have "consumer_max_delivery (iw_settings sample_worker) = 5"
    by (simp add: sample_worker_def default_settings_def)
  with reclaimed_count_is_before_claim [OF report eval, of ?m sample_worker] eval show ?thesis
    by auto
qed

section \<open>The loop\<close>

lemma handle_batch_db:
  assumes "registry_ok (pr_registry (iw_processor w))" and "db_ok (wo_db s)"
    and "handle_batch w env ms s = (res, s')"
  shows "db_ok (wo_db s') \<and> (\<forall>i. in_ledger i (wo_db s) \<longrightarrow> in_ledger i (wo_db s'))"
proof -
  obtain x d r where p: "persist w env ms (wo_db s, wo_redis s) = (x, d, r)"
    by (cases "persist w env ms (wo_db s, wo_redis s)") auto
  have "wo_db s' = d"
    using assms(3) p by (auto simp: handle_batch_def split: sum.splits prod.splits)
  with persist_loop_db [OF assms(1,2) p [unfolded persist_def]] show ?thesis by simp
qed

lemma run_cycle_db:
  assumes "registry_ok (pr_registry (iw_processor w))" and "db_ok (wo_db s)"
    and "run_cycle w env k s = (res, s')"
  shows "db_ok (wo_db s') \<and> (\<forall>i. in_ledger i (wo_db s) \<longrightarrow> in_ledger i (wo_db s'))"
proof -
  obtain x q where n: "next_messages w k (wo_stream s) = (x, q)"
    by (cases "next_messages w k (wo_stream s)")
  show ?thesis
  proof (cases x)
    case Inl
    then show ?thesis using assms(2,3) n by (auto simp: run_cycle_def)
  next
    case (Inr ms)
    then show ?thesis
      using assms n handle_batch_db [OF assms(1), of "s\<lparr>wo_stream := q\<rparr>" env ms res s']
      by (auto simp: run_cycle_def split: if_splits)
  qed
qed

lemma run_cycles_db:
  assumes "registry_ok (pr_registry (iw_processor w))" and "db_ok (wo_db s)"
    and "run_cycles w envs k n s = (res, s')"
  shows "db_ok (wo_db s') \<and> (\<forall>i. in_ledger i (wo_db s) \<longrightarrow> in_ledger i (wo_db s'))"
  using assms(2,3)
proof (induction n arbitrary: k s)
  case (Suc n)
  obtain x s1 where one: "run_cycle w (envs (k + 1)) (k + 1) s = (x, s1)"
    by (cases "run_cycle w (envs (k + 1)) (k + 1) s")
  note step = run_cycle_db [OF assms(1) Suc.prems(1) one]
  show ?case
  proof (cases x)
    case Inl
    then show ?thesis using Suc.prems(2) one step by (simp add: bnd_def)
  next
    case Inr
    then have "run_cycles w envs (k + 1) n s1 = (res, s')"
      using Suc.prems(2) one by (simp add: bnd_def)
    from Suc.IH [OF _ this] step show ?thesis by blast
  qed
qed auto



end
