(* ===== verification/Dispatch.thy ===== *)
theory Dispatch
  imports Processor
begin

text \<open>
  src/dispatch_worker: the reader that claims outbox messages, the client of the ERP with its
  backoff, and the worker that turns each answer into the next state of the message. The server's
  choice of rows, the HTTP result of a call, the random number of the jitter and the commit fault are
  parameters. Times are microseconds; the floating-point arithmetic of the delays is done in the
  rationals and rounded to a microsecond.
\<close>

section \<open>OutboxReader\<close>

definition stale_lock_seconds :: int where
  "stale_lock_seconds = 120"

record outbox_item =
  ox_outbox_id :: int
  ox_aggregate_id :: string
  ox_event_type :: string
  ox_payload :: json
  ox_attempts :: int

definition to_item :: "outbox_row \<Rightarrow> outbox_item" where
  "to_item r = \<lparr>ox_outbox_id = ob_outbox_id r, ox_aggregate_id = ob_aggregate_id r,
     ox_event_type = ob_event_type r, ox_payload = ob_payload r, ox_attempts = ob_attempts r\<rparr>"

definition claimable :: "ts \<Rightarrow> outbox_row \<Rightarrow> bool" where
  "claimable now r \<longleftrightarrow> ob_status r = ObPENDING \<and> ob_next_attempt_at r \<le> now"

definition row_claimed :: "string \<Rightarrow> ts \<Rightarrow> outbox_row \<Rightarrow> outbox_row" where
  "row_claimed worker now r =
     r\<lparr>ob_status := ObIN_FLIGHT, ob_attempts := ob_attempts r + 1,
       ob_locked_by := Some worker, ob_locked_at := Some now\<rparr>"

text \<open>
  \<open>UPDATE TOP (n) ... READPAST\<close> without an ORDER BY: the server takes up to n of the rows that
  qualify and that it can lock; which ones is the argument \<open>visible\<close>.
\<close>

definition claim_ids :: "nat \<Rightarrow> ts \<Rightarrow> (outbox_row \<Rightarrow> bool) \<Rightarrow> db \<Rightarrow> int list" where
  "claim_ids n now visible d =
     map ob_outbox_id (take n (filter (\<lambda>r. claimable now r \<and> visible r) (outbox d)))"

definition reader_claim ::
  "string \<Rightarrow> nat \<Rightarrow> ts \<Rightarrow> (outbox_row \<Rightarrow> bool) \<Rightarrow> outbox_item list sess" where
  "reader_claim worker n now visible =
     bnd (gets (claim_ids n now visible)) (\<lambda>ids.
     bnd (update_outbox (\<lambda>r. ob_outbox_id r \<in> set ids) (row_claimed worker now)) (\<lambda>_.
     gets (\<lambda>d. map to_item (filter (\<lambda>r. ob_outbox_id r \<in> set ids) (outbox d)))))"

definition abandoned :: "ts \<Rightarrow> int \<Rightarrow> outbox_row \<Rightarrow> bool" where
  "abandoned now stale_seconds r \<longleftrightarrow>
     ob_status r = ObIN_FLIGHT
     \<and> (case ob_locked_at r of None \<Rightarrow> False | Some t \<Rightarrow> t < now - stale_seconds * 1000000)"

definition row_released :: "outbox_row \<Rightarrow> outbox_row" where
  "row_released r = r\<lparr>ob_status := ObPENDING, ob_locked_by := None, ob_locked_at := None\<rparr>"

definition reader_release_abandoned :: "ts \<Rightarrow> int \<Rightarrow> nat sess" where
  "reader_release_abandoned now stale_seconds =
     update_outbox (abandoned now stale_seconds) row_released"

section \<open>ErpClient\<close>

datatype http_result =
    HttpResponse int "json option" string
  | HttpTimeout string
  | HttpTransportError string
  | HttpOtherError exn

definition retryable_status_codes :: "int set" where
  "retryable_status_codes = {408, 425, 429, 500, 502, 503, 504}"

definition client_error_threshold :: int where
  "client_error_threshold = 400"

record erp_response =
  er_erp_order_id :: string
  er_duplicate :: bool

text \<open>Python's truth value of a decoded JSON value.\<close>

fun json_truthy :: "json \<Rightarrow> bool" where
  "json_truthy JNull = False"
| "json_truthy (JBool b) = b"
| "json_truthy (JStr s) = (s \<noteq> [])"
| "json_truthy (JInt i) = (i \<noteq> 0)"
| "json_truthy (JDec m) = True"
| "json_truthy (JTime t) = True"
| "json_truthy (JObj kvs) = (kvs \<noteq> [])"
| "json_truthy (JArr js) = (js \<noteq> [])"

fun post :: "http_result \<Rightarrow> exn + (int \<times> json option \<times> string)" where
  "post (HttpResponse code body txt) = Inr (code, body, txt)"
| "post (HttpTimeout s) = Inl (ErpTemporaryError (''timeout ao chamar o ERP: '' @ s))"
| "post (HttpTransportError s) = Inl (ErpTemporaryError (''falha de transporte: '' @ s))"
| "post (HttpOtherError x) = Inl x"

definition raise_for_status :: "int \<Rightarrow> string \<Rightarrow> exn + unit" where
  "raise_for_status code txt =
     (if code \<in> retryable_status_codes then Inl (ErpTemporaryError (''ERP respondeu '' @ int_str code))
      else if client_error_threshold \<le> code then
        Inl (ErpPermanentError (''ERP recusou ('' @ int_str code @ ''): '' @ take 200 txt))
      else Inr ())"

text \<open>
  \<open>str_of\<close> is Python's \<open>str\<close> of a decoded value, which only the log sees. A body that is not JSON,
  or JSON that is not an object, raises.
\<close>

definition send_order :: "(json \<Rightarrow> string) \<Rightarrow> http_result \<Rightarrow> exn + erp_response" where
  "send_order str_of hr =
     (case post hr of
        Inl x \<Rightarrow> Inl x
      | Inr (code, body, txt) \<Rightarrow>
          (case raise_for_status code txt of
             Inl x \<Rightarrow> Inl x
           | Inr _ \<Rightarrow>
               (case body of
                  None \<Rightarrow> Inl (JSONDecodeError txt)
                | Some (JObj kvs) \<Rightarrow> Inr
                    \<lparr>er_erp_order_id =
                       (case map_of kvs ''erp_order_id'' of None \<Rightarrow> [] | Some v \<Rightarrow> str_of v),
                     er_duplicate =
                       (case map_of kvs ''duplicate'' of None \<Rightarrow> False | Some v \<Rightarrow> json_truthy v)\<rparr>
                | Some _ \<Rightarrow> Inl (AttributeError ''get''))))"

text \<open>\<open>random.uniform(a, b)\<close> with the random number \<open>u\<close>.\<close>

definition uniform :: "rat \<Rightarrow> rat \<Rightarrow> rat \<Rightarrow> rat" where
  "uniform a b u = a + (b - a) * u"

definition backoff_ceiling :: "int \<Rightarrow> settings \<Rightarrow> rat" where
  "backoff_ceiling attempt s =
     min (dispatch_backoff_max_seconds s) (dispatch_backoff_base_seconds s * 2 ^ nat attempt)"

definition backoff_delay :: "int \<Rightarrow> settings \<Rightarrow> rat \<Rightarrow> rat" where
  "backoff_delay attempt s u =
     (let base = dispatch_backoff_base_seconds s; ceiling = backoff_ceiling attempt s in
      uniform base (max ceiling base) u)"

section \<open>DispatchWorker\<close>

definition release_stale_every_n_cycles :: nat where
  "release_stale_every_n_cycles = 60"

text \<open>What one transaction of the worker meets: its clock, the jitter and the commit.\<close>

record dispatch_env =
  de_clock :: clock
  de_random :: rat
  de_fault :: commit_fault

definition with_session :: "(uow, exn, 'a) prog \<Rightarrow> db \<Rightarrow> (exn + 'a) \<times> db" where
  "with_session body d = (case body (uow_enter d) of (r, u) \<Rightarrow> (r, uow_exit False u))"

definition claim_batch ::
  "settings \<Rightarrow> string \<Rightarrow> dispatch_env \<Rightarrow> (outbox_row \<Rightarrow> bool) \<Rightarrow> db \<Rightarrow> (exn + outbox_item list) \<times> db" where
  "claim_batch s worker env visible =
     with_session
       (bnd (uow_run (reader_claim worker (nat (dispatch_batch_size s)) (db_now (de_clock env)) visible))
          (\<lambda>items. bnd (uow_commit (de_fault env)) (\<lambda>_. ret items)))"

definition release_abandoned :: "dispatch_env \<Rightarrow> db \<Rightarrow> (exn + unit) \<times> db" where
  "release_abandoned env =
     with_session
       (bnd (uow_run (reader_release_abandoned (db_now (de_clock env)) stale_lock_seconds))
          (\<lambda>_. uow_commit (de_fault env)))"

definition mark :: "unit sess \<Rightarrow> dispatch_env \<Rightarrow> db \<Rightarrow> (exn + unit) \<times> db" where
  "mark m env = with_uow (bnd (uow_run m) (\<lambda>_. uow_commit (de_fault env)))"

definition dispatch_mark_sent :: "dispatch_env \<Rightarrow> outbox_item \<Rightarrow> db \<Rightarrow> (exn + unit) \<times> db" where
  "dispatch_mark_sent env i = mark (mark_sent (app_now (de_clock env)) (ox_outbox_id i)) env"

definition dispatch_dead_letter :: "dispatch_env \<Rightarrow> outbox_item \<Rightarrow> string \<Rightarrow> db \<Rightarrow> (exn + unit) \<times> db" where
  "dispatch_dead_letter env i error = mark (mark_dead_letter (ox_outbox_id i) error) env"

definition next_attempt :: "settings \<Rightarrow> dispatch_env \<Rightarrow> outbox_item \<Rightarrow> ts" where
  "next_attempt s env i =
     app_now (de_clock env) + round (backoff_delay (ox_attempts i) s (de_random env) * 1000000)"

definition reschedule :: "settings \<Rightarrow> dispatch_env \<Rightarrow> outbox_item \<Rightarrow> string \<Rightarrow> db \<Rightarrow> (exn + unit) \<times> db" where
  "reschedule s env i error =
     (if dispatch_max_attempts s \<le> ox_attempts i
      then dispatch_dead_letter env i (''tentativas esgotadas: '' @ error)
      else mark (mark_retry (ox_outbox_id i) (next_attempt s env i) error) env)"

definition idempotency_key :: "outbox_item \<Rightarrow> string" where
  "idempotency_key i = ''outbox-'' @ int_str (ox_outbox_id i)"

definition dispatch ::
  "settings \<Rightarrow> (json \<Rightarrow> string) \<Rightarrow> dispatch_env \<Rightarrow> http_result \<Rightarrow> outbox_item \<Rightarrow> db \<Rightarrow> (exn + unit) \<times> db" where
  "dispatch s str_of env hr i d =
     (case send_order str_of hr of
        Inl (ErpTemporaryError err) \<Rightarrow> reschedule s env i err d
      | Inl (ErpPermanentError err) \<Rightarrow> dispatch_dead_letter env i err d
      | Inl x \<Rightarrow> (Inl x, d)
      | Inr _ \<Rightarrow> dispatch_mark_sent env i d)"

text \<open>
  One turn of \<open>_poll_until_stopped\<close>. The dispatches of a batch run concurrently and each ends in one
  transaction, so \<open>gather\<close> is their transactions in the order of completion, which the network
  decides; all of them run, and the first exception is raised.
\<close>

primrec gather ::
  "settings \<Rightarrow> (json \<Rightarrow> string) \<Rightarrow> (outbox_item \<times> http_result \<times> dispatch_env) list \<Rightarrow> db \<Rightarrow> (exn + unit) \<times> db" where
  "gather s str_of [] d = (Inr (), d)"
| "gather s str_of (c # cs) d =
     (case dispatch s str_of (snd (snd c)) (fst (snd c)) (fst c) d of
        (Inl x, d1) \<Rightarrow> (Inl x, snd (gather s str_of cs d1))
      | (Inr _, d1) \<Rightarrow> gather s str_of cs d1)"

definition poll_cycle ::
  "settings \<Rightarrow> (json \<Rightarrow> string) \<Rightarrow> string \<Rightarrow> nat \<Rightarrow> dispatch_env \<Rightarrow> (outbox_row \<Rightarrow> bool)
    \<Rightarrow> (outbox_item list \<Rightarrow> (outbox_item \<times> http_result \<times> dispatch_env) list) \<Rightarrow> db \<Rightarrow> (exn + unit) \<times> db" where
  "poll_cycle s str_of worker cycle env visible answers d =
     (case (if cycle mod release_stale_every_n_cycles = 0 then release_abandoned env d else (Inr (), d)) of
        (Inl x, d1) \<Rightarrow> (Inl x, d1)
      | (Inr _, d1) \<Rightarrow>
          (case claim_batch s worker env visible d1 of
             (Inl x, d2) \<Rightarrow> (Inl x, d2)
           | (Inr items, d2) \<Rightarrow>
               if items = [] then (Inr (), d2) else gather s str_of (answers items) d2))"

end
