(* ===== verification/Dispatch_Proofs.thy ===== *)
theory Dispatch_Proofs
  imports Dispatch Processor_Proofs
begin

text \<open>
  Every operation of the dispatch side is an UPDATE of outbox rows that keeps their identity. The
  lemmas give its result under each commit fault, that it keeps the database invariant, and the
  well-formedness of the outbox rows that all parts of the system keep.
\<close>

section \<open>Updates of the outbox\<close>

definition outbox_change :: "(outbox_row \<Rightarrow> bool) \<Rightarrow> (outbox_row \<Rightarrow> outbox_row) \<Rightarrow> db \<Rightarrow> db" where
  "outbox_change P f d = d\<lparr>outbox := upd_where P f (outbox d)\<rparr>"

definition same_message :: "outbox_row \<Rightarrow> outbox_row \<Rightarrow> bool" where
  "same_message r r' \<longleftrightarrow>
     ob_outbox_id r' = ob_outbox_id r \<and> ob_aggregate_id r' = ob_aggregate_id r
     \<and> ob_aggregate_type r' = ob_aggregate_type r \<and> ob_event_type r' = ob_event_type r
     \<and> ob_payload r' = ob_payload r \<and> ob_created_at r' = ob_created_at r"

lemma outbox_change_simps [simp]:
  "clients (outbox_change P f d) = clients d" "addresses (outbox_change P f d) = addresses d"
  "orders (outbox_change P f d) = orders d" "order_items (outbox_change P f d) = order_items d"
  "payments (outbox_change P f d) = payments d" "invoices (outbox_change P f d) = invoices d"
  "processed_events (outbox_change P f d) = processed_events d"
  "outbox (outbox_change P f d) = upd_where P f (outbox d)"
  "outbox_seq (outbox_change P f d) = outbox_seq d"
  "rollback d (outbox_change P f d) = d"
  "rollback (outbox_change P f d) (outbox_change P f d) = outbox_change P f d"
  by (simp_all add: outbox_change_def rollback_def)

lemma messages_for_change:
  assumes "\<And>r. same_message r (f r)"
  shows "messages_for uid (upd_where P f rs) = upd_where P f (messages_for uid rs)"
  unfolding messages_for_def using assms
  by (intro filter_upd_where) (simp add: same_message_def)

lemma outbox_change_ok:
  assumes "db_ok d" and "\<And>r. same_message r (f r)"
  shows "db_ok (outbox_change P f d)"
proof -
  have ids: "ob_outbox_id (f r) = ob_outbox_id r" "ob_aggregate_id (f r) = ob_aggregate_id r" for r
    using assms(2) [of r] by (simp_all add: same_message_def)
  have "db_keys (outbox_change P f d)"
    using db_okD(1) [OF assms(1)] ids by (simp add: outbox_change_def db_keys_def keyed_upd_where)
  moreover have "db_notified (outbox_change P f d)"
    using db_okD(6) [OF assms(1)] ids
    by (simp add: db_notified_def messages_for_change [OF assms(2)] image_upd_where)
  ultimately show ?thesis
    using assms(1) by (simp add: db_ok_def db_refs_def db_versions_def db_totals_def db_closed_def db_fits_def)
qed

section \<open>Well-formed messages\<close>

definition outbox_row_ok :: "outbox_row \<Rightarrow> bool" where
  "outbox_row_ok r \<longleftrightarrow>
     0 \<le> ob_attempts r
     \<and> json_path [''order'', ''order_uid''] (ob_payload r) = Some (JStr (ob_aggregate_id r))
     \<and> (ob_locked_by r \<noteq> None \<longleftrightarrow> ob_status r = ObIN_FLIGHT)
     \<and> (ob_locked_at r \<noteq> None \<longleftrightarrow> ob_status r = ObIN_FLIGHT)
     \<and> (case ob_last_error r of None \<Rightarrow> True | Some e \<Rightarrow> length e \<le> max_error_length)"

definition outbox_all :: "(outbox_row \<Rightarrow> bool) \<Rightarrow> db \<Rightarrow> bool" where
  "outbox_all P d \<longleftrightarrow> (\<forall>r \<in> set (outbox d). P r)"

abbreviation outbox_ok :: "db \<Rightarrow> bool" where
  "outbox_ok \<equiv> outbox_all outbox_row_ok"

lemma outbox_change_rows_ok:
  "outbox_ok d \<Longrightarrow> (\<And>r. outbox_row_ok r \<Longrightarrow> outbox_row_ok (f r)) \<Longrightarrow> outbox_ok (outbox_change P f d)"
  by (auto simp: outbox_all_def set_upd_where)

text \<open>The row updates of the reader and of the three marks.\<close>

definition row_sent :: "ts \<Rightarrow> outbox_row \<Rightarrow> outbox_row" where
  "row_sent now r = r\<lparr>ob_status := ObSENT, ob_sent_at := Some now, ob_locked_by := None,
       ob_locked_at := None, ob_last_error := None\<rparr>"

definition row_retry :: "ts \<Rightarrow> string \<Rightarrow> outbox_row \<Rightarrow> outbox_row" where
  "row_retry at1 error r = r\<lparr>ob_status := ObPENDING, ob_next_attempt_at := at1,
       ob_last_error := Some (take max_error_length error), ob_locked_by := None,
       ob_locked_at := None\<rparr>"

definition row_dead :: "string \<Rightarrow> outbox_row \<Rightarrow> outbox_row" where
  "row_dead error r = r\<lparr>ob_status := ObDLQ,
       ob_last_error := Some (take max_error_length error), ob_locked_by := None,
       ob_locked_at := None\<rparr>"

lemmas row_defs = row_claimed_def row_released_def row_sent_def row_retry_def row_dead_def

lemma row_same_message [simp]:
  "same_message r (row_claimed w t r)" "same_message r (row_released r)" "same_message r (row_sent t r)"
  "same_message r (row_retry t e r)" "same_message r (row_dead e r)"
  by (simp_all add: same_message_def row_defs)

lemma row_keeps_ok:
  "outbox_row_ok r \<Longrightarrow> outbox_row_ok (row_claimed w t r)" "outbox_row_ok r \<Longrightarrow> outbox_row_ok (row_released r)"
  "outbox_row_ok r \<Longrightarrow> outbox_row_ok (row_sent t r)" "outbox_row_ok r \<Longrightarrow> outbox_row_ok (row_retry t e r)"
  "outbox_row_ok r \<Longrightarrow> outbox_row_ok (row_dead e r)"
  by (simp_all add: outbox_row_ok_def row_defs)

section \<open>The transactions\<close>

text \<open>What a transaction that would leave \<open>d'\<close> leaves under a commit fault.\<close>

definition commit_end :: "commit_fault \<Rightarrow> db \<Rightarrow> db \<Rightarrow> (exn + unit) \<times> db" where
  "commit_end fault d d' =
     (case fault of
        CommitOk \<Rightarrow> (Inr (), d')
      | CommitRefused x \<Rightarrow> (Inl x, d)
      | CommitInDoubt x \<Rightarrow> (Inl x, d'))"

lemma mark_run:
  "mark (outbox_set oid f) env d =
     commit_end (de_fault env) d (outbox_change (\<lambda>r. ob_outbox_id r = oid) f d)"
  by (cases "de_fault env")
    (simp_all add: mark_def outbox_set_def update_outbox_def bnd_def uow_defs commit_end_def
      flip: outbox_change_def)

lemma mark_sent_run:
  "dispatch_mark_sent env i d = commit_end (de_fault env) d
     (outbox_change (\<lambda>r. ob_outbox_id r = ox_outbox_id i) (row_sent (app_now (de_clock env))) d)"
  by (simp add: dispatch_mark_sent_def mark_sent_def mark_run row_sent_def [abs_def])

lemma dead_letter_run:
  "dispatch_dead_letter env i err d = commit_end (de_fault env) d
     (outbox_change (\<lambda>r. ob_outbox_id r = ox_outbox_id i) (row_dead err) d)"
  by (simp add: dispatch_dead_letter_def mark_dead_letter_def mark_run row_dead_def [abs_def])

lemma reschedule_run:
  "reschedule s env i err d = commit_end (de_fault env) d
     (outbox_change (\<lambda>r. ob_outbox_id r = ox_outbox_id i)
        (if dispatch_max_attempts s \<le> ox_attempts i then row_dead (''tentativas esgotadas: '' @ err)
         else row_retry (next_attempt s env i) err) d)"
  by (simp add: reschedule_def dead_letter_run mark_retry_def mark_run row_retry_def [abs_def])

lemma release_abandoned_run:
  "release_abandoned env d = commit_end (de_fault env) d
     (outbox_change (abandoned (db_now (de_clock env)) stale_lock_seconds) row_released d)"
  by (cases "de_fault env")
    (simp_all add: release_abandoned_def reader_release_abandoned_def with_session_def update_outbox_def
      bnd_def uow_defs commit_end_def flip: outbox_change_def)

lemma claim_batch_run:
  fixes s worker env visible d
  defines "ids \<equiv> claim_ids (nat (dispatch_batch_size s)) (db_now (de_clock env)) visible d"
  defines "d' \<equiv> outbox_change (\<lambda>r. ob_outbox_id r \<in> set ids) (row_claimed worker (db_now (de_clock env))) d"
  shows "claim_batch s worker env visible d =
    (case commit_end (de_fault env) d d' of
       (Inl x, d1) \<Rightarrow> (Inl x, d1)
     | (Inr _, d1) \<Rightarrow> (Inr (map to_item (filter (\<lambda>r. ob_outbox_id r \<in> set ids) (outbox d'))), d1))"
  unfolding d'_def ids_def
  by (cases "de_fault env")
    (simp_all add: claim_batch_def reader_claim_def with_session_def update_outbox_def
      bnd_def uow_defs commit_end_def flip: outbox_change_def)

text \<open>
  The shape all of them have: some rows changed by a function that keeps the message and its
  well-formedness, or nothing.
\<close>

definition outbox_only :: "db \<Rightarrow> db \<Rightarrow> bool" where
  "outbox_only d d' \<longleftrightarrow>
     d' = d \<or> (\<exists>P f. d' = outbox_change P f d \<and> (\<forall>r. same_message r (f r))
                 \<and> (\<forall>r. outbox_row_ok r \<longrightarrow> outbox_row_ok (f r)))"

lemma outbox_onlyI:
  "(\<And>r. same_message r (f r)) \<Longrightarrow> (\<And>r. outbox_row_ok r \<Longrightarrow> outbox_row_ok (f r)) \<Longrightarrow>
   outbox_only d (outbox_change P f d)"
  unfolding outbox_only_def by blast

lemma commit_end_only:
  "commit_end fault d d' = (res, d1) \<Longrightarrow> outbox_only d d' \<Longrightarrow> outbox_only d d1"
  by (cases fault) (auto simp: commit_end_def outbox_only_def)

lemma outbox_only_ok: "outbox_only d d' \<Longrightarrow> db_ok d \<Longrightarrow> db_ok d'"
  by (auto simp: outbox_only_def intro: outbox_change_ok)

lemma outbox_only_rows_ok: "outbox_only d d' \<Longrightarrow> outbox_ok d \<Longrightarrow> outbox_ok d'"
  by (auto simp: outbox_only_def intro: outbox_change_rows_ok)

lemma outbox_only_frame:
  assumes "outbox_only d d'"
  shows "orders d' = orders d" and "payments d' = payments d" and "invoices d' = invoices d"
    and "processed_events d' = processed_events d" and "order_items d' = order_items d"
    and "clients d' = clients d" and "addresses d' = addresses d"
    and "map (\<lambda>r. (ob_outbox_id r, ob_aggregate_id r, ob_payload r)) (outbox d')
       = map (\<lambda>r. (ob_outbox_id r, ob_aggregate_id r, ob_payload r)) (outbox d)"
  using assms by (auto simp: outbox_only_def same_message_def map_upd_where_same)

lemma claim_batch_only: "claim_batch s worker env visible d = (res, d') \<Longrightarrow> outbox_only d d'"
  unfolding claim_batch_run
  by (auto split: prod.splits sum.splits dest!: commit_end_only intro!: outbox_onlyI row_keeps_ok)

lemma release_abandoned_only: "release_abandoned env d = (res, d') \<Longrightarrow> outbox_only d d'"
  unfolding release_abandoned_run
  by (erule commit_end_only) (auto intro!: outbox_onlyI row_keeps_ok)

lemma reschedule_only: "reschedule s env i err d = (res, d') \<Longrightarrow> outbox_only d d'"
  unfolding reschedule_run
  by (erule commit_end_only) (auto intro!: outbox_onlyI row_keeps_ok)

lemma dead_letter_only: "dispatch_dead_letter env i err d = (res, d') \<Longrightarrow> outbox_only d d'"
  unfolding dead_letter_run
  by (erule commit_end_only) (auto intro!: outbox_onlyI row_keeps_ok)

lemma mark_sent_only: "dispatch_mark_sent env i d = (res, d') \<Longrightarrow> outbox_only d d'"
  unfolding mark_sent_run
  by (erule commit_end_only) (auto intro!: outbox_onlyI row_keeps_ok)

lemma outbox_only_refl [simp]: "outbox_only d d"
  by (simp add: outbox_only_def)

lemma dispatch_only: "dispatch s str_of env hr i d = (res, d') \<Longrightarrow> outbox_only d d'"
  by (auto simp: dispatch_def intro: reschedule_only dead_letter_only mark_sent_only
      split: sum.splits exn.splits)

section \<open>The ingestion side and the shape of the messages\<close>

text \<open>A message as the payment handler enqueues it.\<close>

definition fresh_message :: "outbox_row \<Rightarrow> bool" where
  "fresh_message r \<longleftrightarrow>
     ob_status r = ObPENDING \<and> ob_attempts r = 0 \<and> ob_locked_by r = None \<and> ob_locked_at r = None
     \<and> ob_last_error r = None
     \<and> json_path [''order'', ''order_uid''] (ob_payload r) = Some (JStr (ob_aggregate_id r))"

lemma fresh_message_ok: "fresh_message r \<Longrightarrow> outbox_row_ok r"
  by (simp add: fresh_message_def outbox_row_ok_def)

lemma insert_keeps_outbox:
  "keeps (outbox_all P) (insert_client r1)" "keeps (outbox_all P) (insert_address r2)"
  "keeps (outbox_all P) (insert_order r3)" "keeps (outbox_all P) (insert_item r4)"
  "keeps (outbox_all P) (insert_payment r5)" "keeps (outbox_all P) (insert_invoice r6)"
  by (auto simp: keeps_def outbox_all_def insert_client_Inr insert_address_Inr insert_order_Inr
      insert_item_Inr insert_payment_Inr insert_invoice_Inr)

lemma update_keeps_outbox:
  "keeps (outbox_all P) (update_client cid f)" "keeps (outbox_all P) (update_address aid g)"
  "keeps (outbox_all P) (update_payment pid h)" "keeps (outbox_all P) (update_orders p k)"
  by (auto simp: keeps_def outbox_all_def update_address_def update_payment_def
      dest!: update_client_Inr update_orders_Inr)

lemma notification_keeps_outbox:
  assumes "\<And>r. fresh_message r \<Longrightarrow> P r"
  shows "keeps (outbox_all P) (enqueue_erp_notification clk o1)"
proof (rule keepsI)
  fix d a d'
  assume all: "outbox_all P d" and run: "enqueue_erp_notification clk o1 d = (Inr a, d')"
  from run obtain pay j r where doc: "build_order_payload d o1 pay = Some j"
    and ins: "outbox_enqueue clk ''order'' (or_order_uid o1) ''order.approved'' j d = (Inr r, d')"
    by (auto simp: enqueue_erp_notification_def payments_latest_for_order_def bnd_Inr_iff split: option.splits)
  from doc have "json_path [''order'', ''order_uid''] j = Some (JStr (or_order_uid o1))"
    by (auto simp: build_order_payload_def order_section_def split: option.splits)
  with ins assms all show "outbox_all P d'"
    by (auto simp: outbox_all_def outbox_enqueue_def insert_outbox_Inr fresh_message_def)
qed

lemmas outbox_keep_rules = insert_keeps_outbox update_keeps_outbox notification_keeps_outbox

lemma handler_keeps_outbox:
  assumes "\<And>r. fresh_message r \<Longrightarrow> P r"
  shows "keeps (outbox_all P) (handle_client w clk e)" "keeps (outbox_all P) (handle_order w clk e)"
    "keeps (outbox_all P) (handle_payment w clk e)" "keeps (outbox_all P) (handle_invoice w clk e)"
  unfolding handle_client_def clients_upsert_def clients_get_by_uid_def clients_insert_def
    addresses_upsert_version_def addresses_get_current_version_def addresses_open_version_def
    addresses_close_version_def handle_order_def orders_exists_def require_current_address_def
    resolve_billing_address_def orders_create_def orders_add_items_def handle_payment_def
    require_order_def orders_get_by_uid_def record_payment_def payments_upsert_def
    payments_get_by_provider_transaction_def orders_transition_def
    handle_invoice_def invoices_exists_for_order_def invoices_create_def
  by (auto intro!: keep_rules outbox_keep_rules assms split: option.splits)

text \<open>A handler that keeps whatever holds of the messages and of every fresh one.\<close>

locale outbox_handler = event_handler handle for handle :: "'d handler" +
  assumes handle_outbox: "(\<And>r. fresh_message r \<Longrightarrow> P r) \<Longrightarrow> keeps (outbox_all P) (handle w clk e)"
begin

lemma applied_outbox:
  assumes "event_applied handle w clk e d d'" and "\<And>r. fresh_message r \<Longrightarrow> P r" and "outbox_all P d"
  shows "outbox_all P d'"
proof -
  have run: "handle w clk e (with_ledger_row w clk e d) = (Inr (), d')"
    using assms(1) by (simp add: event_applied_def)
  have "outbox_all P (with_ledger_row w clk e d)"
    using assms(3) by (simp add: outbox_all_def)
  with keepsD [OF handle_outbox [of P, OF assms(2)] run] show ?thesis by blast
qed

end

interpretation client_outbox: outbox_handler handle_client
  by unfold_locales (rule handler_keeps_outbox)

interpretation order_outbox: outbox_handler handle_order
  by unfold_locales (rule handler_keeps_outbox)

interpretation payment_outbox: outbox_handler handle_payment
  by unfold_locales (rule handler_keeps_outbox)

interpretation invoice_outbox: outbox_handler handle_invoice
  by unfold_locales (rule handler_keeps_outbox)

lemma build_registry_outbox: "build_registry t = Some h \<Longrightarrow> outbox_handler h"
  using client_outbox.outbox_handler_axioms order_outbox.outbox_handler_axioms
    payment_outbox.outbox_handler_axioms invoice_outbox.outbox_handler_axioms
  by (cases t) (simp_all add: build_registry_eq)

lemma process_keeps_outbox:
  assumes "pr_registry p = build_registry" and "outbox_all P d" and "\<And>r. fresh_message r \<Longrightarrow> P r"
    and "process p clk fault e (d, r) = (res, d', r')"
  shows "outbox_all P d'"
proof -
  have "registry_ok (pr_registry p)"
    by (simp add: assms(1) build_registry_ok)
  from process_db_cases(2) [OF this assms(4)] show ?thesis
  proof
    assume "rows_same d d' \<and> res \<noteq> Inr processed_result"
    then show ?thesis using assms(2) rows_sameD(2) [of d d'] by (simp add: outbox_all_def)
  next
    assume "\<exists>h. pr_registry p (ev_event_type e) = Some h
         \<and> event_applied h (pr_outside p) clk e d d'
         \<and> (res = Inr processed_result \<or> (\<exists>x. fault = CommitInDoubt x))"
    then obtain h where h: "pr_registry p (ev_event_type e) = Some h"
      and app: "event_applied h (pr_outside p) clk e d d'" by blast
    have "outbox_handler h"
      using build_registry_outbox h by (simp add: assms(1))
    from outbox_handler.applied_outbox [OF this app assms(3) assms(2)] show ?thesis .
  qed
qed

end
