(* ===== verification/Dispatch_Claims.thy ===== *)
theory Dispatch_Claims
  imports Dispatch_Proofs Handler_Claims
begin

text \<open>
  The properties of the dispatch worker (src/dispatch_worker): claiming, the outcome of a dispatch,
  the number of attempts, the backoff, and what a slow worker can undo.
\<close>

section \<open>Claiming\<close>

lemma claim_batch_Inr:
  assumes "claim_batch s worker env visible d = (Inr items, d')"
  defines "ids \<equiv> claim_ids (nat (dispatch_batch_size s)) (db_now (de_clock env)) visible d"
  shows "d' = outbox_change (\<lambda>r. ob_outbox_id r \<in> set ids) (row_claimed worker (db_now (de_clock env))) d"
    and "items = map to_item (filter (\<lambda>r. ob_outbox_id r \<in> set ids) (outbox d'))"
  using assms(1) unfolding claim_batch_run ids_def
  by (auto simp: commit_end_def split: prod.splits sum.splits commit_fault.splits)

lemma outbox_ids_distinct: "db_ok d \<Longrightarrow> distinct (map ob_outbox_id (outbox d))"
  by (auto dest: db_okD(1) simp: db_keys_def keyed_def)

lemma claimed_row:
  assumes "db_ok d" and "r \<in> set (outbox d)" and "ob_outbox_id r \<in> set (claim_ids n now visible d)"
  shows "claimable now r \<and> visible r"
proof -
  from assms(3) obtain q where q: "q \<in> set (take n (filter (\<lambda>r. claimable now r \<and> visible r) (outbox d)))"
    and id: "ob_outbox_id q = ob_outbox_id r"
    by (auto simp: claim_ids_def)
  then have "q \<in> set (outbox d)" and "claimable now q \<and> visible q"
    by (auto dest: in_set_takeD)
  moreover from this(1) have "q = r"
    using distinct_map_eq [OF outbox_ids_distinct [OF assms(1)] _ assms(2) id] by blast
  ultimately show ?thesis by simp
qed

lemma filter_mem_length:
  assumes "distinct (map f rs)"
  shows "length (filter (\<lambda>r. f r \<in> set ks) rs) \<le> length ks"
proof -
  have "length (filter (\<lambda>r. f r \<in> set ks) rs) = card (f ` set (filter (\<lambda>r. f r \<in> set ks) rs))"
    using assms distinct_card [of "map f (filter (\<lambda>r. f r \<in> set ks) rs)"]
    by (simp add: distinct_map_filter)
  also have "\<dots> \<le> card (set ks)"
    by (intro card_mono) auto
  finally show ?thesis
    using card_length [of ks] by linarith
qed

lemma row_claimed_id: "ob_outbox_id (row_claimed worker now r) = ob_outbox_id r"
  by (simp add: row_claimed_def)

text \<open>The rows after a claim, by the ids of the items it returned; and where each item comes from.\<close>

lemma claim_batch_rows:
  assumes "claim_batch s worker env visible d = (Inr items, d')"
  shows "outbox d' = upd_where (\<lambda>r. ob_outbox_id r \<in> ox_outbox_id ` set items)
    (row_claimed worker (db_now (de_clock env))) (outbox d)"
proof -
  let ?ids = "claim_ids (nat (dispatch_batch_size s)) (db_now (de_clock env)) visible d"
  note d' = claim_batch_Inr [OF assms]
  have "ob_outbox_id ` set (outbox d') = ob_outbox_id ` set (outbox d)"
    using d'(1) by (simp add: image_upd_where row_claimed_id)
  moreover have "ox_outbox_id ` set items = ob_outbox_id ` {r \<in> set (outbox d'). ob_outbox_id r \<in> set ?ids}"
    unfolding d'(2) by (simp add: image_image to_item_def)
  moreover have "\<dots> = set ?ids \<inter> ob_outbox_id ` set (outbox d')"
    by blast
  ultimately have "ob_outbox_id r \<in> ox_outbox_id ` set items \<longleftrightarrow> ob_outbox_id r \<in> set ?ids" if "r \<in> set (outbox d)" for r
    using that by auto
  with d'(1) show ?thesis by (auto simp: upd_where_def)
qed

lemma claim_batch_items:
  assumes "db_ok d" and "claim_batch s worker env visible d = (Inr items, d')" and "i \<in> set items"
  shows "\<exists>r \<in> set (outbox d). claimable (db_now (de_clock env)) r
    \<and> i = to_item (row_claimed worker (db_now (de_clock env)) r)"
proof -
  let ?ids = "claim_ids (nat (dispatch_batch_size s)) (db_now (de_clock env)) visible d"
  let ?f = "row_claimed worker (db_now (de_clock env))"
  note d' = claim_batch_Inr [OF assms(2)]
  from assms(3) d'(2) obtain q where q: "q \<in> set (outbox d')" "ob_outbox_id q \<in> set ?ids" "i = to_item q"
    by auto
  with d'(1) obtain r where r: "r \<in> set (outbox d)" "q = (if ob_outbox_id r \<in> set ?ids then ?f r else r)"
    by (auto elim!: in_upd_whereE)
  with q(2) have "ob_outbox_id r \<in> set ?ids" by (auto simp: row_claimed_id split: if_splits)
  with r q(3) claimed_row [OF assms(1) r(1)] show ?thesis by auto
qed

lemma claim_batch_size:
  assumes "db_ok d" and "claim_batch s worker env visible d = (Inr items, d')"
  shows "length items \<le> nat (dispatch_batch_size s)"
proof -
  note d' = claim_batch_Inr [OF assms(2)]
  have "distinct (map ob_outbox_id (outbox d'))"
    using outbox_ids_distinct [OF assms(1)] d'(1) by (simp add: map_upd_where_same row_claimed_id)
  from filter_mem_length [OF this, of "claim_ids (nat (dispatch_batch_size s)) (db_now (de_clock env)) visible d"]
  show ?thesis using d'(2) by (simp add: claim_ids_def)
qed

text \<open>A claim takes rows that are due, and a claimed row is not.\<close>

lemma claim_batch_due:
  assumes "claim_batch s worker env visible d = (Inr items, d')" and "k \<in> ox_outbox_id ` set items"
  shows "\<exists>q \<in> set (outbox d). claimable (db_now (de_clock env)) q \<and> ob_outbox_id q = k"
proof -
  have "ox_outbox_id ` set items \<subseteq> set (claim_ids (nat (dispatch_batch_size s)) (db_now (de_clock env)) visible d)"
    using claim_batch_Inr(2) [OF assms(1)] by (auto simp: to_item_def)
  with assms(2) show ?thesis by (fastforce simp: claim_ids_def dest: in_set_takeD)
qed

lemma claimed_not_due:
  assumes "claim_batch s worker env visible d = (Inr items, d')" and "q \<in> set (outbox d')" and "claimable now q"
  shows "ob_outbox_id q \<notin> ox_outbox_id ` set items"
proof
  assume claimed: "ob_outbox_id q \<in> ox_outbox_id ` set items"
  from assms(2) [unfolded claim_batch_rows [OF assms(1)]] obtain r where "q = (if ob_outbox_id r \<in> ox_outbox_id ` set items
      then row_claimed worker (db_now (de_clock env)) r else r)"
    by (auto elim!: in_upd_whereE)
  with claimed have "q = row_claimed worker (db_now (de_clock env)) r"
    by (auto simp: row_claimed_id split: if_splits)
  with assms(3) show False by (simp add: claimable_def row_claimed_def)
qed


definition sample_dispatch_env :: dispatch_env where
  "sample_dispatch_env = \<lparr>de_clock = \<lparr>app_now = 2000, db_now = 2001\<rparr>, de_random = 1 / 2, de_fault = CommitOk\<rparr>"

lemma sample_claim:
  "case fst (claim_batch default_settings ''d1'' sample_dispatch_env (\<lambda>r. True) db_3) of
     Inl _ \<Rightarrow> False | Inr items \<Rightarrow> map ox_attempts items = [1] \<and> map ox_outbox_id items = [1]"
  by code_simp


section \<open>The outcome of a dispatch\<close>

text \<open>What an answer means, by the documentation of the client: the specification of a dispatch.\<close>

datatype answer = Delivered | Temporary | Permanent | Unreadable

definition answer_of :: "http_result \<Rightarrow> answer" where
  "answer_of hr =
     (case hr of
        HttpTimeout t \<Rightarrow> Temporary
      | HttpTransportError t \<Rightarrow> Temporary
      | HttpOtherError x \<Rightarrow>
          (case x of ErpTemporaryError t \<Rightarrow> Temporary | ErpPermanentError t \<Rightarrow> Permanent | _ \<Rightarrow> Unreadable)
      | HttpResponse code body txt \<Rightarrow>
          if code \<in> {408, 425, 429, 500, 502, 503, 504} then Temporary
          else if 400 \<le> code then Permanent
          else (case body of Some (JObj kvs) \<Rightarrow> Delivered | _ \<Rightarrow> Unreadable))"

lemma send_order_answer:
  "case send_order str_of hr of
     Inr resp \<Rightarrow> answer_of hr = Delivered
   | Inl x \<Rightarrow> (case x of
        ErpTemporaryError t \<Rightarrow> answer_of hr = Temporary
      | ErpPermanentError t \<Rightarrow> answer_of hr = Permanent
      | _ \<Rightarrow> answer_of hr = Unreadable)"
proof (cases hr)
  case (HttpResponse code body content)
  then show ?thesis
    by (auto simp: send_order_def answer_of_def raise_for_status_def retryable_status_codes_def
        client_error_threshold_def split: option.splits json.splits)
next
  case (HttpOtherError x)
  then show ?thesis
    by (cases x) (simp_all add: send_order_def answer_of_def)
qed (simp_all add: send_order_def answer_of_def)

lemma dispatch_run:
  obtains err where
    "dispatch s str_of env hr i d =
      (case answer_of hr of
         Delivered \<Rightarrow> dispatch_mark_sent env i d
       | Temporary \<Rightarrow> reschedule s env i err d
       | Permanent \<Rightarrow> dispatch_dead_letter env i err d
       | Unreadable \<Rightarrow> (case send_order str_of hr of Inl x \<Rightarrow> (Inl x, d) | Inr y \<Rightarrow> (Inr (), d)))"
    and "answer_of hr = Unreadable \<Longrightarrow> \<exists>x. send_order str_of hr = Inl x"
proof (cases "send_order str_of hr")
  case (Inr y)
  then show thesis
    using send_order_answer [where str_of = str_of and hr = hr] by (intro that) (simp_all add: dispatch_def)
next
  case (Inl x)
  show thesis
  proof (cases x)
    case (ErpTemporaryError t)
    then show thesis
      using Inl send_order_answer [where str_of = str_of and hr = hr] by (intro that [of t]) (simp_all add: dispatch_def)
  next
    case (ErpPermanentError t)
    then show thesis
      using Inl send_order_answer [where str_of = str_of and hr = hr] by (intro that [of t]) (simp_all add: dispatch_def)
  qed (use Inl send_order_answer [where str_of = str_of and hr = hr] in \<open>intro that; simp add: dispatch_def\<close>)+
qed

text \<open>The status a dispatched message ends in.\<close>

definition status_after :: "settings \<Rightarrow> answer \<Rightarrow> int \<Rightarrow> outbox_status" where
  "status_after s a attempts =
     (case a of
        Delivered \<Rightarrow> ObSENT
      | Permanent \<Rightarrow> ObDLQ
      | Temporary \<Rightarrow> if dispatch_max_attempts s \<le> attempts then ObDLQ else ObPENDING
      | Unreadable \<Rightarrow> ObIN_FLIGHT)"

lemma dispatch_effect:
  assumes "de_fault env = CommitOk"
  shows "if answer_of hr = Unreadable then \<exists>x. dispatch s str_of env hr i d = (Inl x, d)
    else \<exists>f. dispatch s str_of env hr i d =
          (Inr (), d\<lparr>outbox := upd_where (\<lambda>r. ob_outbox_id r = ox_outbox_id i) f (outbox d)\<rparr>)
      \<and> (\<forall>r. ob_status (f r) = status_after s (answer_of hr) (ox_attempts i) \<and> same_message r (f r)
           \<and> ob_attempts (f r) = ob_attempts r \<and> ob_locked_by (f r) = None
           \<and> (ob_status (f r) = ObPENDING \<longrightarrow> ob_next_attempt_at (f r) = next_attempt s env i)
           \<and> (ob_status (f r) = ObSENT \<longrightarrow> ob_sent_at (f r) = Some (app_now (de_clock env))))"
proof -
  obtain err where
    run: "dispatch s str_of env hr i d =
      (case answer_of hr of
         Delivered \<Rightarrow> dispatch_mark_sent env i d
       | Temporary \<Rightarrow> reschedule s env i err d
       | Permanent \<Rightarrow> dispatch_dead_letter env i err d
       | Unreadable \<Rightarrow> (case send_order str_of hr of Inl x \<Rightarrow> (Inl x, d) | Inr y \<Rightarrow> (Inr (), d)))"
    and bad: "answer_of hr = Unreadable \<Longrightarrow> \<exists>x. send_order str_of hr = Inl x"
    by (rule dispatch_run [where s = s and str_of = str_of and env = env and hr = hr and i = i and d = d])
      (rule that)
  note rows = row_sent_def row_retry_def row_dead_def same_message_def
  show ?thesis
  proof (cases "answer_of hr")
    case Delivered
    then show ?thesis
      unfolding run using assms
      by (simp add: mark_sent_run commit_end_def outbox_change_def status_after_def)
        (intro exI [of _ "row_sent (app_now (de_clock env))"], simp add: rows)
  next
    case Temporary
    let ?f = "if dispatch_max_attempts s \<le> ox_attempts i then row_dead (''tentativas esgotadas: '' @ err)
         else row_retry (next_attempt s env i) err"
    have "dispatch s str_of env hr i d =
        (Inr (), d\<lparr>outbox := upd_where (\<lambda>r. ob_outbox_id r = ox_outbox_id i) ?f (outbox d)\<rparr>)"
      unfolding run using assms Temporary by (simp add: reschedule_run commit_end_def outbox_change_def)
    moreover have "ob_status (?f r) = status_after s Temporary (ox_attempts i) \<and> same_message r (?f r)
           \<and> ob_attempts (?f r) = ob_attempts r \<and> ob_locked_by (?f r) = None
           \<and> (ob_status (?f r) = ObPENDING \<longrightarrow> ob_next_attempt_at (?f r) = next_attempt s env i)
           \<and> (ob_status (?f r) = ObSENT \<longrightarrow> ob_sent_at (?f r) = Some (app_now (de_clock env)))" for r
      by (simp add: status_after_def rows)
    ultimately show ?thesis
      using Temporary by auto
  next
    case Permanent
    then show ?thesis
      unfolding run using assms
      by (simp add: dead_letter_run commit_end_def outbox_change_def status_after_def)
        (intro exI [of _ "row_dead err"], simp add: rows)
  next
    case Unreadable
    with bad show ?thesis unfolding run by auto
  qed
qed



end
