(* ===== verification/Attempts_Claims.thy ===== *)
theory Attempts_Claims
  imports Dispatch_Claims
begin

text \<open>
  How often a message is tried and when (src/dispatch_worker/main.py, erp_client.py): the failing
  rounds of a message up to the dead letters, the bounds of the backoff, and the one way a message
  that was sent comes back.
\<close>

section \<open>Failing rounds\<close>

text \<open>
  One turn of the worker in which the server hands out only message \<open>oid\<close> and the ERP does not
  answer in time.
\<close>

definition failing_round ::
  "settings \<Rightarrow> (json \<Rightarrow> string) \<Rightarrow> string \<Rightarrow> int \<Rightarrow> dispatch_env \<Rightarrow> db \<Rightarrow> (exn + unit) \<times> db" where
  "failing_round s str_of worker oid env d =
     poll_cycle s str_of worker 1 env (\<lambda>r. ob_outbox_id r = oid) (map (\<lambda>i. (i, HttpTimeout '''', env))) d"

definition row_failed :: "settings \<Rightarrow> string \<Rightarrow> dispatch_env \<Rightarrow> outbox_row \<Rightarrow> outbox_row" where
  "row_failed s worker env r =
     (let c = row_claimed worker (db_now (de_clock env)) r in
      if dispatch_max_attempts s \<le> ob_attempts c
      then row_dead (''tentativas esgotadas: timeout ao chamar o ERP: '') c
      else row_retry (next_attempt s env (to_item c)) ''timeout ao chamar o ERP: '' c)"

lemma upd_where_twice_same:
  assumes "\<And>r. P (f r) = P r"
  shows "upd_where P g (upd_where P f rs) = upd_where P (g \<circ> f) rs"
  using assms by (auto simp: upd_where_def)

lemma upd_where_cong:
  "(\<And>r. r \<in> set rs \<Longrightarrow> P r = Q r) \<Longrightarrow> (\<And>r. r \<in> set rs \<Longrightarrow> P r \<Longrightarrow> f r = g r) \<Longrightarrow> upd_where P f rs = upd_where Q g rs"
  by (auto simp: upd_where_def)

lemma failing_round_run:
  assumes ok: "db_ok d" and r: "r \<in> set (outbox d)" "ob_outbox_id r = oid"
    and due: "claimable (db_now (de_clock env)) r" and commit: "de_fault env = CommitOk"
    and batch: "0 < dispatch_batch_size s"
  shows "failing_round s str_of worker oid env d =
    (Inr (), outbox_change (\<lambda>q. ob_outbox_id q = oid) (row_failed s worker env) d)"
proof -
  let ?now = "db_now (de_clock env)" and ?P = "\<lambda>q. ob_outbox_id q = oid"
  let ?f = "row_claimed worker ?now"
  let ?c = "?f r"
  let ?g = "if dispatch_max_attempts s \<le> ox_attempts (to_item ?c)
       then row_dead (''tentativas esgotadas: '' @ ''timeout ao chamar o ERP: '')
       else row_retry (next_attempt s env (to_item ?c)) ''timeout ao chamar o ERP: ''"
  have only: "filter ?P (outbox d) = [r]"
    using filter_key_unique [OF outbox_ids_distinct [OF ok] r(1)] by (simp add: r(2))
  have "filter (\<lambda>q. claimable ?now q \<and> ?P q) (outbox d) = filter (claimable ?now) (filter ?P (outbox d))"
    by (simp add: filter_filter conj_commute)
  then have ids: "claim_ids (nat (dispatch_batch_size s)) ?now ?P d = [oid]"
    using only due batch r(2) by (simp add: claim_ids_def take_Cons')
  have claimed: "outbox_change (\<lambda>q. ob_outbox_id q \<in> set [oid]) ?f d = outbox_change ?P ?f d"
    by (simp add: outbox_change_def)
  have keep: "?P (?f q) = ?P q" for q
    by (simp add: row_claimed_def)
  have "filter ?P (upd_where ?P ?f (outbox d)) = [?c]"
    using filter_upd_where [of "outbox d" ?P ?P ?f] keep only r(2) by simp
  then have claim: "claim_batch s worker env ?P d = (Inr [to_item ?c], outbox_change ?P ?f d)"
    unfolding claim_batch_run ids claimed by (simp add: commit_end_def commit)
  have send: "send_order str_of (HttpTimeout '''') = Inl (ErpTemporaryError ''timeout ao chamar o ERP: '')"
    by (simp add: send_order_def)
  have "dispatch s str_of env (HttpTimeout '''') (to_item ?c) (outbox_change ?P ?f d) =
      (Inr (), outbox_change (\<lambda>q. ob_outbox_id q = ox_outbox_id (to_item ?c)) ?g (outbox_change ?P ?f d))"
    unfolding dispatch_def send by (simp add: reschedule_run commit_end_def commit)
  moreover have "ox_outbox_id (to_item ?c) = oid"
    by (simp add: to_item_def row_claimed_def r(2))
  moreover have "outbox_change ?P ?g (outbox_change ?P ?f d) = outbox_change ?P (?g \<circ> ?f) d"
    by (simp add: outbox_change_def upd_where_twice_same keep)
  moreover have "outbox_change ?P (?g \<circ> ?f) d = outbox_change ?P (row_failed s worker env) d"
  proof -
    have "q = r" if "q \<in> set (outbox d)" "?P q" for q
    proof -
      have "q \<in> set (filter ?P (outbox d))" using that by simp
      then show ?thesis using only by simp
    qed
    then have "upd_where ?P (?g \<circ> ?f) (outbox d) = upd_where ?P (row_failed s worker env) (outbox d)"
      by (intro upd_where_cong) (auto simp: row_failed_def Let_def to_item_def)
    then show ?thesis by (simp add: outbox_change_def)
  qed
  ultimately show ?thesis
    by (simp add: failing_round_def poll_cycle_def release_stale_every_n_cycles_def claim)
qed

inductive failing_rounds ::
  "settings \<Rightarrow> (json \<Rightarrow> string) \<Rightarrow> string \<Rightarrow> int \<Rightarrow> nat \<Rightarrow> db \<Rightarrow> db \<Rightarrow> bool"
  for s str_of worker oid where
  no_round: "failing_rounds s str_of worker oid 0 d d"
| one_more: "failing_rounds s str_of worker oid n d d1 \<Longrightarrow> r \<in> set (outbox d1) \<Longrightarrow> ob_outbox_id r = oid \<Longrightarrow>
    claimable (db_now (de_clock env)) r \<Longrightarrow> de_fault env = CommitOk \<Longrightarrow>
    failing_round s str_of worker oid env d1 = (x, d2) \<Longrightarrow>
    failing_rounds s str_of worker oid (Suc n) d d2"

inductive_cases failing_rounds_SucE: "failing_rounds s str_of worker oid (Suc n) d d'"

lemma row_failed_ok:
  "same_message r (row_failed s worker env r)"
  "ob_attempts (row_failed s worker env r) = ob_attempts r + 1"
  "ob_status (row_failed s worker env r) =
     (if dispatch_max_attempts s \<le> ob_attempts r + 1 then ObDLQ else ObPENDING)"
  by (simp_all add: row_failed_def Let_def row_defs same_message_def)



section \<open>Backoff\<close>

lemma uniform_between: "a \<le> b \<Longrightarrow> 0 \<le> u \<Longrightarrow> u \<le> 1 \<Longrightarrow> a \<le> uniform a b u \<and> uniform a b u \<le> b"
  using mult_left_mono [of u 1 "b - a"] by (simp add: uniform_def)

text \<open>
  The backoff is bounded and never early. For any random number in the unit interval the delay is
  at least the base and at most the larger of base and \<open>min(max, base * 2^attempt)\<close>; that ceiling
  doubles with every attempt until it reaches the maximum and never falls; and the next attempt is
  scheduled at least the base delay after now.
\<close>

lemma backoff_is_bounded:
  assumes "0 \<le> u" and "u \<le> 1" and "0 < dispatch_backoff_base_seconds s"
  shows "dispatch_backoff_base_seconds s \<le> backoff_delay n s u
    \<and> backoff_delay n s u \<le> max (dispatch_backoff_base_seconds s) (dispatch_backoff_max_seconds s)
    \<and> backoff_delay n s u \<le> dispatch_backoff_base_seconds s * 2 ^ nat n
    \<and> (n \<le> m \<longrightarrow> backoff_ceiling n s \<le> backoff_ceiling m s)
    \<and> (0 \<le> n \<longrightarrow> backoff_ceiling (n + 1) s = min (dispatch_backoff_max_seconds s) (2 * (dispatch_backoff_base_seconds s * 2 ^ nat n)))
    \<and> (de_random env = u \<longrightarrow> ox_attempts i = n \<longrightarrow>
         app_now (de_clock env) + round (dispatch_backoff_base_seconds s * 1000000) \<le> next_attempt s env i)"
proof -
  let ?base = "dispatch_backoff_base_seconds s" and ?cap = "dispatch_backoff_max_seconds s"
  have pow: "(1 :: rat) \<le> 2 ^ k" for k by simp
  have base: "?base \<le> ?base * 2 ^ k" for k
    using assms(3) pow [of k] by (simp add: mult_le_cancel_left1)
  have delay: "?base \<le> backoff_delay n s u" "backoff_delay n s u \<le> max (backoff_ceiling n s) ?base"
    using uniform_between [of ?base "max (backoff_ceiling n s) ?base" u] assms(1,2)
    by (simp_all add: backoff_delay_def Let_def)
  have "max (backoff_ceiling n s) ?base \<le> max ?base ?cap" "max (backoff_ceiling n s) ?base \<le> ?base * 2 ^ nat n"
    using base by (auto simp: backoff_ceiling_def)
  with delay have upper: "backoff_delay n s u \<le> max ?base ?cap" "backoff_delay n s u \<le> ?base * 2 ^ nat n"
    by (auto intro: order_trans)
  have mono: "backoff_ceiling n s \<le> backoff_ceiling m s" if "n \<le> m"
  proof -
    have "(2 :: rat) ^ nat n \<le> 2 ^ nat m"
      using that by (intro power_increasing) auto
    then have "?base * 2 ^ nat n \<le> ?base * 2 ^ nat m"
      using assms(3) by (simp add: mult_left_mono)
    then show ?thesis
      unfolding backoff_ceiling_def by (intro min.mono) simp_all
  qed
  have double: "backoff_ceiling (n + 1) s = min ?cap (2 * (?base * 2 ^ nat n))" if "0 \<le> n"
    using that by (simp add: backoff_ceiling_def nat_add_distrib mult.left_commute)
  have sched: "app_now (de_clock env) + round (?base * 1000000) \<le> next_attempt s env i"
    if "de_random env = u" "ox_attempts i = n"
    using delay(1) that by (simp add: next_attempt_def round_mono)
  from delay(1) upper mono double sched show ?thesis by blast
qed

lemma backoff_is_bounded_example:
  "1 \<le> backoff_delay 3 default_settings (1 / 2) \<and> backoff_delay 3 default_settings (1 / 2) \<le> 60
   \<and> backoff_delay 3 default_settings (1 / 2) \<le> 8"
proof -
  have "dispatch_backoff_base_seconds default_settings = 1" "dispatch_backoff_max_seconds default_settings = 60"
    by (simp_all add: default_settings_def)
  with backoff_is_bounded [of "1 / 2" default_settings 3] show ?thesis by auto
qed

section \<open>A slow worker\<close>

text \<open>
  C34. A sent message can come back. The marks go by id only: if the lock of a worker was released as
  stale and another worker delivered the message, a timeout that the slow worker gets afterwards
  turns the SENT row into PENDING again, due for another delivery at the backoff's time.
\<close>

theorem late_timeout_reopens_sent:
  assumes "r \<in> set (outbox d)" and "ob_status r = ObSENT" and "ox_outbox_id i = ob_outbox_id r"
    and "ox_attempts i < dispatch_max_attempts s" and "de_fault env = CommitOk"
  shows "\<exists>d' q. dispatch s str_of env (HttpTimeout t) i d = (Inr (), d') \<and> q \<in> set (outbox d')
    \<and> same_message r q \<and> ob_status q = ObPENDING \<and> claimable (next_attempt s env i) q"
proof -
  let ?f = "row_retry (next_attempt s env i) (''timeout ao chamar o ERP: '' @ t)"
  let ?d = "outbox_change (\<lambda>q. ob_outbox_id q = ox_outbox_id i) ?f d"
  have "dispatch s str_of env (HttpTimeout t) i d = (Inr (), ?d)"
    using assms(4,5) by (simp add: dispatch_def send_order_def reschedule_run commit_end_def)
  moreover have "?f r \<in> set (outbox ?d)"
    using assms(1,3) by (auto simp: set_upd_where)
  moreover have "same_message r (?f r) \<and> ob_status (?f r) = ObPENDING \<and> claimable (next_attempt s env i) (?f r)"
    by (simp add: row_retry_def same_message_def claimable_def)
  ultimately show ?thesis by blast
qed

text \<open>The whole story on the sample database: claim, stale release, second claim, delivery, late timeout.\<close>

definition env_at :: "ts \<Rightarrow> dispatch_env" where
  "env_at t = \<lparr>de_clock = \<lparr>app_now = t, db_now = t\<rparr>, de_random = 1 / 2, de_fault = CommitOk\<rparr>"

definition sent_db :: db where
  "sent_db =
     (let d1 = snd (claim_batch default_settings ''slow'' (env_at 2000) (\<lambda>r. True) db_3);
          d2 = snd (release_abandoned (env_at 130000000) d1) in
      snd (poll_cycle default_settings (\<lambda>j. '''') ''fast'' 1 (env_at 130000000) (\<lambda>r. True)
             (map (\<lambda>i. (i, HttpResponse 201 (Some (JObj [])) '''', env_at 131000000))) d2))"

theorem late_timeout_reopens_sent_witness:
  "\<exists>r \<in> set (outbox sent_db). ob_status r = ObSENT \<and>
     (\<exists>d' q. dispatch default_settings (\<lambda>j. '''') (env_at 132000000) (HttpTimeout '''')
         \<lparr>ox_outbox_id = 1, ox_aggregate_id = ''O1'', ox_event_type = ''order.approved'', ox_payload = JNull, ox_attempts = 1\<rparr>
         sent_db = (Inr (), d') \<and> q \<in> set (outbox d') \<and> same_message r q \<and> ob_status q = ObPENDING)"
proof -
  let ?i = "\<lparr>ox_outbox_id = 1, ox_aggregate_id = ''O1'', ox_event_type = ''order.approved'', ox_payload = JNull, ox_attempts = 1\<rparr>"
  have "map (\<lambda>r. (ob_outbox_id r, ob_status r)) (outbox sent_db) = [(1, ObSENT)]"
    by code_simp
  then obtain r where r: "r \<in> set (outbox sent_db)" "ob_status r = ObSENT" "ob_outbox_id r = 1"
    by auto
  have "ox_outbox_id ?i = ob_outbox_id r" "ox_attempts ?i < dispatch_max_attempts default_settings"
    "de_fault (env_at 132000000) = CommitOk"
    by (simp_all add: r(3) default_settings_def env_at_def)
  from late_timeout_reopens_sent [OF r(1,2) this, of "\<lambda>j. ''''" "''''"] r(1,2) show ?thesis by blast
qed

end
