(* ===== verification/Erp_Mock.thy ===== *)
theory Erp_Mock
  imports Dispatch "HOL-Library.AList"
begin

text \<open>
  src/erp_mock/main.py: the ERP double with its idempotency by key and its injected failures. The
  request handler waits between the check of the key and the registration, so the two halves are
  separate steps; a request that runs alone is their composition. The random draws, the fresh id and
  the time of a request are parameters; field values are kept as the JSON values of the document.
\<close>

record erp_record =
  ek_erp_order_id :: string
  ek_order_uid :: string
  ek_received_at :: ts
  ek_items :: nat
  ek_total_amount :: "json option"
  ek_city :: "json option"

record erp =
  erp_acknowledged_by_key :: "(string \<times> erp_record) list"
  erp_id_by_order :: "(string \<times> string) list"

definition empty_erp :: erp where
  "empty_erp = \<lparr>erp_acknowledged_by_key = [], erp_id_by_order = []\<rparr>"

record erp_ack =
  ea_erp_order_id :: string
  ea_duplicate :: bool

text \<open>The draws of one request: two random numbers, the index of the error code, the id, the time.\<close>

record erp_draw =
  dr_first :: rat
  dr_second :: rat
  dr_code :: nat
  dr_hex :: string
  dr_now :: ts

definition server_error_codes :: "int list" where
  "server_error_codes = [500, 503]"

definition timeout_share_of_failures :: rat where
  "timeout_share_of_failures = 1 / 2"

text \<open>
  \<open>_maybe_fail\<close>: None to go on, or the status code, with the flag of the long sleep that makes the
  client time out first.
\<close>

definition maybe_fail :: "settings \<Rightarrow> erp_draw \<Rightarrow> (int \<times> bool) option" where
  "maybe_fail s x =
     (if erp_failure_rate s \<le> dr_first x then None
      else Some (server_error_codes ! (dr_code x mod length server_error_codes),
                 dr_second x < timeout_share_of_failures))"

text \<open>\<open>payload.get(key, default)\<close> on a document that is an object; \<open>str\<close> of a value is a parameter.\<close>

definition obj_get :: "string \<Rightarrow> json \<Rightarrow> json \<Rightarrow> json" where
  "obj_get k j dflt = (case json_get k j of None \<Rightarrow> dflt | Some v \<Rightarrow> v)"

definition json_len :: "json \<Rightarrow> nat" where
  "json_len j = (case j of JArr js \<Rightarrow> length js | JObj kvs \<Rightarrow> length kvs | JStr s \<Rightarrow> length s | _ \<Rightarrow> 0)"

definition payload_order_uid :: "(json \<Rightarrow> string) \<Rightarrow> json \<Rightarrow> string" where
  "payload_order_uid str_of payload =
     str_of (obj_get ''order_uid'' (obj_get ''order'' payload (JObj [])) (JStr ''desconhecido''))"

definition erp_register :: "(json \<Rightarrow> string) \<Rightarrow> erp_draw \<Rightarrow> json \<Rightarrow> erp \<Rightarrow> erp_record \<times> erp" where
  "erp_register str_of x payload e =
     (let order = obj_get ''order'' payload (JObj []);
          order_uid = payload_order_uid str_of payload;
          erp_order_id = ''ERP-'' @ str_upper (take 10 (dr_hex x)) in
      (\<lparr>ek_erp_order_id = erp_order_id, ek_order_uid = order_uid, ek_received_at = dr_now x,
        ek_items = json_len (obj_get ''items'' payload (JArr [])),
        ek_total_amount = json_get ''total_amount'' order,
        ek_city = json_get ''city'' (obj_get ''shipping_address'' payload (JObj []))\<rparr>,
       e\<lparr>erp_id_by_order := AList.update order_uid erp_order_id (erp_id_by_order e)\<rparr>))"

definition already_received :: "string \<Rightarrow> erp \<Rightarrow> erp_record option" where
  "already_received key e = (if key \<noteq> [] then map_of (erp_acknowledged_by_key e) key else None)"

text \<open>The second half, after the waits: register and remember the key.\<close>

definition finish_order ::
  "(json \<Rightarrow> string) \<Rightarrow> erp_draw \<Rightarrow> string \<Rightarrow> json \<Rightarrow> erp \<Rightarrow> erp_ack \<times> erp" where
  "finish_order str_of x key payload e =
     (case erp_register str_of x payload e of
        (rec1, e1) \<Rightarrow>
          (\<lparr>ea_erp_order_id = ek_erp_order_id rec1, ea_duplicate = False\<rparr>,
           if key \<noteq> [] then e1\<lparr>erp_acknowledged_by_key := AList.update key rec1 (erp_acknowledged_by_key e1)\<rparr>
           else e1))"

text \<open>A whole request that no other request interrupts: the status code of a failure, or the answer.\<close>

definition receive_order ::
  "settings \<Rightarrow> (json \<Rightarrow> string) \<Rightarrow> erp_draw \<Rightarrow> string \<Rightarrow> json \<Rightarrow> erp \<Rightarrow> ((int \<times> bool) + erp_ack) \<times> erp" where
  "receive_order s str_of x key payload e =
     (case already_received key e of
        Some rec1 \<Rightarrow> (Inr \<lparr>ea_erp_order_id = ek_erp_order_id rec1, ea_duplicate = True\<rparr>, e)
      | None \<Rightarrow>
          (case maybe_fail s x of
             Some failure \<Rightarrow> (Inl failure, e)
           | None \<Rightarrow> (case finish_order str_of x key payload e of (a, e1) \<Rightarrow> (Inr a, e1))))"

record erp_stats =
  es_total_orders :: nat
  es_failure_rate :: rat
  es_orders :: "erp_record list"

definition list_orders :: "settings \<Rightarrow> erp \<Rightarrow> erp_stats" where
  "list_orders s e = \<lparr>es_total_orders = length (erp_id_by_order e), es_failure_rate = erp_failure_rate s,
     es_orders = map snd (erp_acknowledged_by_key e)\<rparr>"

text \<open>
  What the HTTP client of the dispatch worker sees of an answer: FastAPI's JSON body with status 201,
  the error status, or its own timeout when the double slept past it. A successful answer may also
  be lost on the way (\<open>lost\<close>), which the client sees as a timeout too.
\<close>

definition http_of :: "bool \<Rightarrow> ((int \<times> bool) + erp_ack) \<Rightarrow> http_result" where
  "http_of lost a =
     (case a of
        Inl (code, slow) \<Rightarrow>
          if slow \<or> lost then HttpTimeout ''''
          else HttpResponse code (Some (JObj [(''detail'', JStr ''ERP indisponivel (falha injetada)'')])) ''''
      | Inr ack \<Rightarrow>
          if lost then HttpTimeout ''''
          else HttpResponse 201 (Some (JObj [(''erp_order_id'', JStr (ea_erp_order_id ack)),
                                             (''duplicate'', JBool (ea_duplicate ack))])) '''')"

end
