(* ===== verification/Erp_Claims.thy ===== *)
theory Erp_Claims
  imports Erp_Mock
begin

text \<open>
  The idempotency of the ERP double (src/erp_mock/main.py) as the dispatch worker relies on it, and
  where it ends.
\<close>

section \<open>Requests one after the other\<close>

lemma finish_order_key:
  assumes "finish_order str_of x key payload e = (a, e1)" and "key \<noteq> []"
  shows "\<exists>rec1. map_of (erp_acknowledged_by_key e1) key = Some rec1 \<and> ek_erp_order_id rec1 = ea_erp_order_id a
      \<and> ea_duplicate a = False"
    and "k \<noteq> key \<Longrightarrow> map_of (erp_acknowledged_by_key e1) k = map_of (erp_acknowledged_by_key e) k"
  using assms by (auto simp: finish_order_def erp_register_def Let_def update_conv')

lemma receive_order_keeps_key:
  assumes "receive_order s str_of x key payload e = (a, e1)" and "map_of (erp_acknowledged_by_key e) k = Some rec1"
  shows "map_of (erp_acknowledged_by_key e1) k = Some rec1"
proof (cases "already_received key e")
  case (Some r)
  with assms show ?thesis by (auto simp: receive_order_def)
next
  case None
  show ?thesis
  proof (cases "maybe_fail s x")
    case (Some f)
    with None assms show ?thesis by (auto simp: receive_order_def)
  next
    case no_fail: None
    obtain b e2 where fin: "finish_order str_of x key payload e = (b, e2)"
      by (cases "finish_order str_of x key payload e")
    then have e1: "e1 = e2"
      using None no_fail assms(1) by (auto simp: receive_order_def)
    show ?thesis
    proof (cases "key = []")
      case True
      then show ?thesis
        using fin assms(2) e1 by (auto simp: finish_order_def erp_register_def Let_def)
    next
      case False
      then have "k \<noteq> key"
        using None assms(2) by (auto simp: already_received_def)
      then show ?thesis
        using finish_order_key(2) [OF fin False] assms(2) e1 by simp
    qed
  qed
qed

text \<open>Requests in a row, with the answers.\<close>

fun receive_all ::
  "settings \<Rightarrow> (json \<Rightarrow> string) \<Rightarrow> (erp_draw \<times> string \<times> json) list \<Rightarrow> erp \<Rightarrow> ((int \<times> bool) + erp_ack) list \<times> erp" where
  "receive_all s str_of [] e = ([], e)"
| "receive_all s str_of ((x, key, payload) # qs) e =
     (case receive_order s str_of x key payload e of
        (a, e1) \<Rightarrow> (case receive_all s str_of qs e1 of (as, e2) \<Rightarrow> (a # as, e2)))"

lemma receive_all_keeps_key:
  "receive_all s str_of qs e = (as, e1) \<Longrightarrow> map_of (erp_acknowledged_by_key e) k = Some rec1 \<Longrightarrow>
   map_of (erp_acknowledged_by_key e1) k = Some rec1"
proof (induction s str_of qs e arbitrary: as e1 rule: receive_all.induct)
  case (2 s str_of x key payload qs e)
  obtain a e2 where one: "receive_order s str_of x key payload e = (a, e2)"
    by (cases "receive_order s str_of x key payload e")
  obtain bs e3 where rest: "receive_all s str_of qs e2 = (bs, e3)"
    by (cases "receive_all s str_of qs e2")
  have "e1 = e3" using "2.prems"(1) one rest by simp
  with "2.IH" [OF one [symmetric] rest] receive_order_keeps_key [OF one "2.prems"(2)] show ?case
    by simp
qed simp

text \<open>
  The ERP double is idempotent by key, for good. Once a request with a key was answered, every
  later request with that key, whatever its document, the random failures and the requests for other
  keys in between, gets the same order id marked as a duplicate, and changes nothing: it neither
  fails nor registers the order again.
\<close>

lemma erp_is_idempotent:
  assumes "key \<noteq> []" and "receive_order s str_of x key payload e = (Inr a, e1)"
    and "receive_all s str_of others e1 = (as, e2)"
  shows "receive_order s str_of x2 key payload2 e2 =
    (Inr \<lparr>ea_erp_order_id = ea_erp_order_id a, ea_duplicate = True\<rparr>, e2)"
proof -
  have "\<exists>rec1. map_of (erp_acknowledged_by_key e1) key = Some rec1 \<and> ek_erp_order_id rec1 = ea_erp_order_id a"
  proof (cases "already_received key e")
    case (Some r)
    then show ?thesis using assms(1,2) by (auto simp: receive_order_def already_received_def)
  next
    case None
    obtain b e3 where fin: "finish_order str_of x key payload e = (b, e3)"
      by (cases "finish_order str_of x key payload e")
    then show ?thesis
      using None assms(1,2) finish_order_key(1) [OF fin assms(1)]
      by (auto simp: receive_order_def split: option.splits)
  qed
  then obtain rec1 where "map_of (erp_acknowledged_by_key e1) key = Some rec1"
    and id: "ek_erp_order_id rec1 = ea_erp_order_id a" by blast
  then have "map_of (erp_acknowledged_by_key e2) key = Some rec1"
    using receive_all_keeps_key [OF assms(3)] by blast
  with assms(1) id show ?thesis
    by (simp add: receive_order_def already_received_def)
qed

definition sample_draw :: "rat \<Rightarrow> string \<Rightarrow> erp_draw" where
  "sample_draw u h = \<lparr>dr_first = u, dr_second = 0, dr_code = 0, dr_hex = h, dr_now = 5\<rparr>"

lemma erp_is_idempotent_example:
  "\<exists>a e1. receive_order default_settings (\<lambda>j. ''O1'') (sample_draw 1 ''ab12cd34ef'') ''outbox-1'' (JObj []) empty_erp = (Inr a, e1)
     \<and> ea_erp_order_id a = ''ERP-AB12CD34EF''
     \<and> receive_order default_settings (\<lambda>j. ''O1'') (sample_draw 0 ''ff'') ''outbox-1'' (JObj []) e1
       = (Inr \<lparr>ea_erp_order_id = ea_erp_order_id a, ea_duplicate = True\<rparr>, e1)"
proof -
  have eval: "case fst (receive_order default_settings (\<lambda>j. ''O1'') (sample_draw 1 ''ab12cd34ef'') ''outbox-1'' (JObj []) empty_erp) of
      Inl _ \<Rightarrow> False | Inr a \<Rightarrow> ea_erp_order_id a = ''ERP-AB12CD34EF''"
    by code_simp
  obtain b e1 where run: "receive_order default_settings (\<lambda>j. ''O1'') (sample_draw 1 ''ab12cd34ef'') ''outbox-1'' (JObj []) empty_erp = (b, e1)"
    by (cases "receive_order default_settings (\<lambda>j. ''O1'') (sample_draw 1 ''ab12cd34ef'') ''outbox-1'' (JObj []) empty_erp")
  with eval obtain a where a: "b = Inr a" "ea_erp_order_id a = ''ERP-AB12CD34EF''"
    by (cases b) auto
  have "receive_all default_settings (\<lambda>j. ''O1'') [] e1 = ([], e1)" by simp
  from erp_is_idempotent [OF _ run [unfolded a] this, of "sample_draw 0 ''ff''" "JObj []"] run a
  show ?thesis by simp
qed

section \<open>Retries of one message\<close>

text \<open>The successful answers among the answers of a list of attempts.\<close>

definition successes :: "((int \<times> bool) + erp_ack) list \<Rightarrow> erp_ack list" where
  "successes as = List.map_filter (\<lambda>a. case a of Inl f \<Rightarrow> None | Inr k \<Rightarrow> Some k) as"

lemma successes_simps [simp]:
  "successes [] = []" "successes (Inl f # as) = successes as" "successes (Inr k # as) = k # successes as"
  by (simp_all add: successes_def map_filter_simps)

lemma attempts_after_success:
  assumes "map_of (erp_acknowledged_by_key e) key = Some rec1" and "key \<noteq> []"
    and "receive_all s str_of (map (\<lambda>x. (x, key, payload)) xs) e = (as, e1)"
  shows "e1 = e \<and> successes as =
    replicate (length xs) \<lparr>ea_erp_order_id = ek_erp_order_id rec1, ea_duplicate = True\<rparr>"
  using assms(3)
proof (induction xs arbitrary: as e1)
  case (Cons x xs)
  have one: "receive_order s str_of x key payload e =
      (Inr \<lparr>ea_erp_order_id = ek_erp_order_id rec1, ea_duplicate = True\<rparr>, e)"
    using assms(1,2) by (simp add: receive_order_def already_received_def)
  obtain bs e2 where rest: "receive_all s str_of (map (\<lambda>x. (x, key, payload)) xs) e = (bs, e2)"
    by (cases "receive_all s str_of (map (\<lambda>x. (x, key, payload)) xs) e")
  from Cons.IH [OF rest] Cons.prems one rest show ?case by auto
qed simp

text \<open>
  C35. Retrying a message registers its order once. For any number of attempts with one idempotency
  key, failures and lost answers included, either every attempt failed and the ERP is as before, or
  all successful answers carry one order id, exactly the first of them is not a duplicate, and the
  ERP is in the state that this one registration left.
\<close>

theorem retries_register_once:
  assumes "key \<noteq> []" and "already_received key e = None"
    and "receive_all s str_of (map (\<lambda>x. (x, key, payload)) xs) e = (as, e1)"
  shows "(successes as = [] \<and> e1 = e)
    \<or> (\<exists>x a n. x \<in> set xs \<and> finish_order str_of x key payload e = (a, e1) \<and> ea_duplicate a = False
         \<and> successes as = a # replicate n \<lparr>ea_erp_order_id = ea_erp_order_id a, ea_duplicate = True\<rparr>)"
  using assms(3)
proof (induction xs arbitrary: as)
  case (Cons x xs)
  show ?case
  proof (cases "maybe_fail s x")
    case (Some f)
    then have one: "receive_order s str_of x key payload e = (Inl f, e)"
      using assms(2) by (simp add: receive_order_def)
    obtain bs e2 where rest: "receive_all s str_of (map (\<lambda>x. (x, key, payload)) xs) e = (bs, e2)"
      by (cases "receive_all s str_of (map (\<lambda>x. (x, key, payload)) xs) e")
    have "as = Inl f # bs" and "e1 = e2"
      using Cons.prems one rest by simp_all
    with Cons.IH [of bs] rest show ?thesis by auto
  next
    case None
    obtain a e2 where fin: "finish_order str_of x key payload e = (a, e2)"
      by (cases "finish_order str_of x key payload e")
    then have one: "receive_order s str_of x key payload e = (Inr a, e2)"
      using assms(2) None by (simp add: receive_order_def)
    obtain rec1 where rec1: "map_of (erp_acknowledged_by_key e2) key = Some rec1"
      "ek_erp_order_id rec1 = ea_erp_order_id a" "ea_duplicate a = False"
      using finish_order_key(1) [OF fin assms(1)] by blast
    obtain bs e3 where rest: "receive_all s str_of (map (\<lambda>x. (x, key, payload)) xs) e2 = (bs, e3)"
      by (cases "receive_all s str_of (map (\<lambda>x. (x, key, payload)) xs) e2")
    note after = attempts_after_success [OF rec1(1) assms(1) rest]
    have as: "as = Inr a # bs" and e1: "e1 = e3"
      using Cons.prems one rest by simp_all
    show ?thesis
      using fin rec1(2,3) after as e1
      by (intro disjI2 exI [of _ x] exI [of _ a] exI [of _ "length xs"]) simp
  qed
qed simp

theorem retries_register_once_witness:
  "\<exists>as e1. receive_all default_settings (\<lambda>j. ''O1'')
       (map (\<lambda>x. (x, ''outbox-1'', JObj [])) [sample_draw 0 ''aa'', sample_draw 1 ''bb'', sample_draw 1 ''cc'']) empty_erp = (as, e1)
     \<and> (\<exists>a n. successes as = a # replicate n \<lparr>ea_erp_order_id = ea_erp_order_id a, ea_duplicate = True\<rparr>)"
proof -
  let ?qs = "map (\<lambda>x. (x, ''outbox-1'', JObj [])) [sample_draw 0 ''aa'', sample_draw 1 ''bb'', sample_draw 1 ''cc'']"
  obtain as e1 where run: "receive_all default_settings (\<lambda>j. ''O1'') ?qs empty_erp = (as, e1)"
    by (cases "receive_all default_settings (\<lambda>j. ''O1'') ?qs empty_erp")
  have "length (successes (fst (receive_all default_settings (\<lambda>j. ''O1'') ?qs empty_erp))) = 2"
    by code_simp
  then have "successes as \<noteq> []" using run by auto
  moreover have "already_received ''outbox-1'' empty_erp = None"
    by (simp add: already_received_def empty_erp_def)
  ultimately show ?thesis
    using retries_register_once [OF _ _ run] run by auto
qed

section \<open>Two requests at once\<close>

text \<open>
  C36. The idempotency does not cover requests in flight. The handler waits between looking the key up
  and registering: if two requests with one key have both passed the lookup, both register; each is
  answered as new, with its own order id, and the ERP keeps the second.
\<close>

theorem concurrent_requests_register_twice:
  assumes "key \<noteq> []" and "already_received key e = None"
    and "finish_order str_of x1 key payload e = (a1, e1)" and "finish_order str_of x2 key payload e1 = (a2, e2)"
    and "str_upper (take 10 (dr_hex x1)) \<noteq> str_upper (take 10 (dr_hex x2))"
  shows "\<not> ea_duplicate a1 \<and> \<not> ea_duplicate a2 \<and> ea_erp_order_id a1 \<noteq> ea_erp_order_id a2
    \<and> (\<exists>rec2. already_received key e2 = Some rec2 \<and> ek_erp_order_id rec2 = ea_erp_order_id a2)"
  using assms
  by (auto simp: finish_order_def erp_register_def Let_def already_received_def update_conv')

theorem concurrent_requests_register_twice_witness:
  "\<exists>a1 a2 e1 e2. finish_order (\<lambda>j. ''O1'') (sample_draw 1 ''aa'') ''outbox-1'' JNull empty_erp = (a1, e1)
     \<and> finish_order (\<lambda>j. ''O1'') (sample_draw 1 ''bb'') ''outbox-1'' JNull e1 = (a2, e2)
     \<and> ea_erp_order_id a1 \<noteq> ea_erp_order_id a2"
proof -
  obtain a1 e1 where r1: "finish_order (\<lambda>j. ''O1'') (sample_draw 1 ''aa'') ''outbox-1'' JNull empty_erp = (a1, e1)"
    by (cases "finish_order (\<lambda>j. ''O1'') (sample_draw 1 ''aa'') ''outbox-1'' JNull empty_erp")
  obtain a2 e2 where r2: "finish_order (\<lambda>j. ''O1'') (sample_draw 1 ''bb'') ''outbox-1'' JNull e1 = (a2, e2)"
    by (cases "finish_order (\<lambda>j. ''O1'') (sample_draw 1 ''bb'') ''outbox-1'' JNull e1")
  have "str_upper (take 10 (dr_hex (sample_draw 1 ''aa''))) \<noteq> str_upper (take 10 (dr_hex (sample_draw 1 ''bb'')))"
    and "already_received ''outbox-1'' empty_erp = None"
    by code_simp+
  with concurrent_requests_register_twice [OF _ _ r1 r2] r1 r2 show ?thesis by blast
qed

end
