(* ===== verification/Webhook_Api.thy ===== *)
theory Webhook_Api
  imports Streams
begin

text \<open>
  src/webhook_api: the in-memory buffer with its flusher, the backpressure guard and the two routes,
  over any publisher that keeps the contract of the \<open>EventPublisher\<close> protocol
  (src/shared/messaging/ports.py). Clock readings are parameters; seconds are rationals.
\<close>

section \<open>The publisher's contract\<close>

text \<open>
  \<open>published q\<close> is what the publisher's log holds. A call that returns has appended its events in
  order and says how many; only beyond \<open>cap\<close> entries may the oldest be dropped. Measuring the lag
  never raises and leaves the log.
\<close>

locale event_publisher =
  fixes publish :: "'e list \<Rightarrow> ('q, exn, int) prog"
    and pending_lag :: "('q, exn, int) prog"
    and published :: "'q \<Rightarrow> string list"
    and dump :: "'e \<Rightarrow> string"
    and cap :: int
  assumes publish_appends: "publish es q = (Inr n, q') \<Longrightarrow>
      n = int (length es) \<and> (\<exists>k. published q' = drop k (published q @ map dump es)
        \<and> (int (length (published q) + length es) \<le> cap \<longrightarrow> k = 0))"
    and lag_returns: "\<exists>n q'. pending_lag q = (Inr n, q') \<and> 0 \<le> n \<and> published q' = published q"
begin

lemma publish_exact:
  "publish es q = (Inr n, q') \<Longrightarrow> int (length (published q) + length es) \<le> cap \<Longrightarrow>
   published q' = published q @ map dump es"
  using publish_appends [of es q n q'] by auto

end

definition payload_text :: "(string \<times> string) list \<Rightarrow> string" where
  "payload_text f = (case map_of f ''payload'' of None \<Rightarrow> [] | Some v \<Rightarrow> v)"

definition stream_log :: "'q streams \<Rightarrow> settings \<Rightarrow> 'q \<Rightarrow> string list" where
  "stream_log X s q = map payload_text (st_entries X q (stream_name s))"

section \<open>EventBuffer\<close>

record 'e buffer =
  bu_queue :: "'e list"
  bu_flusher :: bool
  bu_running :: bool
  bu_published :: int

definition new_buffer :: "'e buffer" where
  "new_buffer = \<lparr>bu_queue = [], bu_flusher = False, bu_running = False, bu_published = 0\<rparr>"

definition depth :: "'e buffer \<Rightarrow> nat" where
  "depth b = length (bu_queue b)"

text \<open>\<open>asyncio.Queue(maxsize)\<close>: a size of zero or less means no bound.\<close>

definition queue_full :: "settings \<Rightarrow> 'e buffer \<Rightarrow> bool" where
  "queue_full s b \<longleftrightarrow> 0 < buffer_queue_size s \<and> buffer_queue_size s \<le> int (depth b)"

definition submit :: "settings \<Rightarrow> 'e \<Rightarrow> ('e buffer, exn, unit) prog" where
  "submit s e b =
     (if queue_full s b then (Inl (BufferFullError ''buffer de ingestao cheio''), b)
      else (Inr (), b\<lparr>bu_queue := bu_queue b @ [e]\<rparr>))"

definition start :: "'e buffer \<Rightarrow> 'e buffer" where
  "start b = b\<lparr>bu_running := True, bu_flusher := True\<rparr>"

fun take_batch_loop :: "int \<Rightarrow> 'e list \<Rightarrow> 'e list \<Rightarrow> 'e list \<times> 'e list" where
  "take_batch_loop n batch [] = (batch, [])"
| "take_batch_loop n batch (e # q) =
     (if int (length batch) < n then take_batch_loop n (batch @ [e]) q else (batch, e # q))"

definition take_batch :: "settings \<Rightarrow> 'e buffer \<Rightarrow> 'e list \<times> 'e buffer" where
  "take_batch s b =
     (case take_batch_loop (buffer_max_batch s) [] (bu_queue b) of
        (batch, rest) \<Rightarrow> (batch, b\<lparr>bu_queue := rest\<rparr>))"

text \<open>
  \<open>_flush\<close>. The batch has left the queue before the publisher is called, so if the call raises it
  is in neither place. \<open>publish_taken\<close> is the part after the \<open>await\<close>, during which requests may run.
\<close>

definition publish_taken ::
  "('e list \<Rightarrow> ('q, exn, int) prog) \<Rightarrow> 'e list \<Rightarrow> ('e buffer \<times> 'q, exn, unit) prog" where
  "publish_taken publish batch = (\<lambda>(b, q).
     if batch = [] then (Inr (), b, q)
     else (case publish batch q of
             (Inl x, q') \<Rightarrow> (Inl x, b, q')
           | (Inr n, q') \<Rightarrow> (Inr (), b\<lparr>bu_published := bu_published b + n\<rparr>, q')))"

definition flush :: "settings \<Rightarrow> ('e list \<Rightarrow> ('q, exn, int) prog) \<Rightarrow> ('e buffer \<times> 'q, exn, unit) prog" where
  "flush s publish = (\<lambda>(b, q).
     case take_batch s b of (batch, b1) \<Rightarrow> publish_taken publish batch (b1, q))"

text \<open>One turn of \<open>_flush_periodically\<close> after its sleep: every exception is logged and dropped.\<close>

definition flush_turn :: "settings \<Rightarrow> ('e list \<Rightarrow> ('q, exn, int) prog) \<Rightarrow> 'e buffer \<times> 'q \<Rightarrow> 'e buffer \<times> 'q" where
  "flush_turn s publish bq = snd (flush s publish bq)"

text \<open>
  \<open>stop\<close>: the flusher finishes its turn, unless the drain timeout cancels it first, and the caller
  flushes once more.
\<close>

definition stop :: "settings \<Rightarrow> ('e list \<Rightarrow> ('q, exn, int) prog) \<Rightarrow> bool \<Rightarrow> ('e buffer \<times> 'q, exn, unit) prog" where
  "stop s publish cancelled = (\<lambda>(b, q).
     let b0 = b\<lparr>bu_running := False\<rparr>;
         (b1, q1) = (if bu_flusher b \<and> bu_running b \<and> \<not> cancelled then flush_turn s publish (b0, q) else (b0, q)) in
     flush s publish (b1, q1))"

section \<open>BackpressureGuard\<close>

definition min_retry_after_seconds :: int where "min_retry_after_seconds = 1"
definition max_retry_after_seconds :: int where "max_retry_after_seconds = 30"

record backpressure_state =
  bp_overloaded :: bool
  bp_lag :: int
  bp_retry_after_seconds :: int

record guard =
  gu_last_probe_at :: rat
  gu_state :: backpressure_state

definition new_guard :: guard where
  "new_guard = \<lparr>gu_last_probe_at = 0,
     gu_state = \<lparr>bp_overloaded = False, bp_lag = 0, bp_retry_after_seconds = min_retry_after_seconds\<rparr>\<rparr>"

definition probe_is_due :: "settings \<Rightarrow> rat \<Rightarrow> guard \<Rightarrow> bool" where
  "probe_is_due s now g \<longleftrightarrow> of_int (backpressure_probe_ms s) \<le> (now - gu_last_probe_at g) * 1000"

definition retry_after_for :: "int \<Rightarrow> int \<Rightarrow> int" where
  "retry_after_for lag limit =
     min max_retry_after_seconds (max min_retry_after_seconds (lag div max limit 1))"

definition state_for :: "settings \<Rightarrow> int \<Rightarrow> backpressure_state" where
  "state_for s lag = \<lparr>bp_overloaded = (backpressure_max_lag s \<le> lag), bp_lag = lag,
     bp_retry_after_seconds = retry_after_for lag (backpressure_max_lag s)\<rparr>"

text \<open>\<open>evaluate\<close>, with the two clock readings of the check and of the probe.\<close>

definition evaluate ::
  "settings \<Rightarrow> ('q, exn, int) prog \<Rightarrow> rat \<Rightarrow> rat \<Rightarrow> (guard \<times> 'q, exn, backpressure_state) prog" where
  "evaluate s pending_lag t_check t_probe = (\<lambda>(g, q).
     if probe_is_due s t_check g then
       let g1 = g\<lparr>gu_last_probe_at := t_probe\<rparr> in
       (case pending_lag q of
          (Inl x, q') \<Rightarrow> (Inl x, g1, q')
        | (Inr lag, q') \<Rightarrow> (Inr (state_for s lag), g1\<lparr>gu_state := state_for s lag\<rparr>, q'))
     else (Inr (gu_state g), g, q))"

section \<open>The routes\<close>

record response =
  rs_status_code :: int
  rs_retry_after :: "string option"

definition accepted_response :: response where
  "accepted_response = \<lparr>rs_status_code = 202, rs_retry_after = None\<rparr>"

definition ask_partner_to_slow_down :: "int \<Rightarrow> response \<Rightarrow> response" where
  "ask_partner_to_slow_down seconds r =
     r\<lparr>rs_status_code := 429, rs_retry_after := Some (int_str seconds)\<rparr>"

record accepted_body =
  ac_accepted :: nat
  ac_buffered :: nat

fun submit_events ::
  "settings \<Rightarrow> 'e list \<Rightarrow> nat \<Rightarrow> response \<Rightarrow> 'e buffer \<Rightarrow> nat \<times> response \<times> 'e buffer" where
  "submit_events s [] accepted r b = (accepted, r, b)"
| "submit_events s (e # es) accepted r b =
     (case submit s e b of
        (Inl x, b') \<Rightarrow> (accepted, ask_partner_to_slow_down min_retry_after_seconds r, b')
      | (Inr _, b') \<Rightarrow> submit_events s es (accepted + 1) r b')"

text \<open>The state of the application: guard, buffer and the publisher's server.\<close>

record ('e, 'q) app =
  ap_guard :: guard
  ap_buffer :: "'e buffer"
  ap_server :: 'q

definition ingest_events ::
  "settings \<Rightarrow> ('q, exn, int) prog \<Rightarrow> rat \<Rightarrow> rat \<Rightarrow> 'e list
    \<Rightarrow> (('e, 'q) app, exn, response \<times> accepted_body) prog" where
  "ingest_events s pending_lag t_check t_probe events = (\<lambda>a.
     case evaluate s pending_lag t_check t_probe (ap_guard a, ap_server a) of
       (Inl x, g, q) \<Rightarrow> (Inl x, a\<lparr>ap_guard := g, ap_server := q\<rparr>)
     | (Inr bp, g, q) \<Rightarrow>
         let a1 = a\<lparr>ap_guard := g, ap_server := q\<rparr> in
         if bp_overloaded bp then
           (Inr (ask_partner_to_slow_down (bp_retry_after_seconds bp) accepted_response,
                 \<lparr>ac_accepted = 0, ac_buffered = depth (ap_buffer a1)\<rparr>), a1)
         else (case submit_events s events 0 accepted_response (ap_buffer a1) of
                 (n, r, b) \<Rightarrow> (Inr (r, \<lparr>ac_accepted = n, ac_buffered = depth b\<rparr>), a1\<lparr>ap_buffer := b\<rparr>)))"

record health_body =
  he_status :: string
  he_buffer_depth :: nat
  he_stream_lag :: int

definition health ::
  "settings \<Rightarrow> ('q, exn, int) prog \<Rightarrow> rat \<Rightarrow> rat \<Rightarrow> (('e, 'q) app, exn, health_body) prog" where
  "health s pending_lag t_check t_probe = (\<lambda>a.
     case evaluate s pending_lag t_check t_probe (ap_guard a, ap_server a) of
       (Inl x, g, q) \<Rightarrow> (Inl x, a\<lparr>ap_guard := g, ap_server := q\<rparr>)
     | (Inr bp, g, q) \<Rightarrow>
         (Inr \<lparr>he_status = (if bp_overloaded bp then ''degraded'' else ''ok''),
               he_buffer_depth = depth (ap_buffer a), he_stream_lag = bp_lag bp\<rparr>,
          a\<lparr>ap_guard := g, ap_server := q\<rparr>))"

text \<open>\<open>lifespan\<close>: the application starts with a running buffer and a fresh guard, and stops the buffer.\<close>

definition start_app :: "'q \<Rightarrow> ('e, 'q) app" where
  "start_app q = \<lparr>ap_guard = new_guard, ap_buffer = start new_buffer, ap_server = q\<rparr>"

definition stop_app ::
  "settings \<Rightarrow> ('e list \<Rightarrow> ('q, exn, int) prog) \<Rightarrow> bool \<Rightarrow> (('e, 'q) app, exn, unit) prog" where
  "stop_app s publish cancelled = (\<lambda>a.
     case stop s publish cancelled (ap_buffer a, ap_server a) of
       (r, b, q) \<Rightarrow> (r, a\<lparr>ap_buffer := b, ap_server := q\<rparr>))"

section \<open>One process at work\<close>

text \<open>
  The requests and the flusher share one event loop, and the flusher's only \<open>await\<close> with a batch in
  hand is the publication. So the process is a sequence of requests, of flushes that take their batch
  and of flushes that publish it. \<open>run_accepted\<close> and \<open>run_failed\<close> record the past: the events answered
  as accepted, and whether a publication has raised.
\<close>

datatype 'e api_action = Receive rat rat "'e list" | Health rat rat | Take_batch | Publish_batch

record ('e, 'q) api_run =
  run_app :: "('e, 'q) app"
  run_in_flight :: "'e list"
  run_accepted :: "'e list"
  run_failed :: bool

definition start_run :: "'q \<Rightarrow> ('e, 'q) api_run" where
  "start_run q = \<lparr>run_app = start_app q, run_in_flight = [], run_accepted = [], run_failed = False\<rparr>"

fun run_step ::
  "settings \<Rightarrow> ('e list \<Rightarrow> ('q, exn, int) prog) \<Rightarrow> ('q, exn, int) prog \<Rightarrow> 'e api_action
    \<Rightarrow> ('e, 'q) api_run \<Rightarrow> ('e, 'q) api_run" where
  "run_step s publish lag (Receive t1 t2 es) r =
     (case ingest_events s lag t1 t2 es (run_app r) of
        (Inl x, a) \<Rightarrow> r\<lparr>run_app := a\<rparr>
      | (Inr (resp, body), a) \<Rightarrow>
          r\<lparr>run_app := a, run_accepted := run_accepted r @ take (ac_accepted body) es\<rparr>)"
| "run_step s publish lag (Health t1 t2) r = r\<lparr>run_app := snd (health s lag t1 t2 (run_app r))\<rparr>"
| "run_step s publish lag Take_batch r =
     (if run_in_flight r \<noteq> [] then r
      else (case take_batch s (ap_buffer (run_app r)) of
              (batch, b) \<Rightarrow> r\<lparr>run_app := (run_app r)\<lparr>ap_buffer := b\<rparr>, run_in_flight := batch\<rparr>))"
| "run_step s publish lag Publish_batch r =
     (case publish_taken publish (run_in_flight r) (ap_buffer (run_app r), ap_server (run_app r)) of
        (res, b, q) \<Rightarrow> r\<lparr>run_app := (run_app r)\<lparr>ap_buffer := b, ap_server := q\<rparr>, run_in_flight := [],
                          run_failed := (run_failed r \<or> isl res)\<rparr>)"

definition run_steps ::
  "settings \<Rightarrow> ('e list \<Rightarrow> ('q, exn, int) prog) \<Rightarrow> ('q, exn, int) prog \<Rightarrow> 'e api_action list
    \<Rightarrow> ('e, 'q) api_run \<Rightarrow> ('e, 'q) api_run" where
  "run_steps s publish lag actions r = fold (run_step s publish lag) actions r"

section \<open>The Redis publisher keeps the contract\<close>

lemma drop_drop_append: "\<exists>k'. drop k (drop j xs @ ys) = drop k' (xs @ ys) \<and> (j = 0 \<longrightarrow> k = 0 \<longrightarrow> k' = 0)"
proof (cases "j \<le> length xs")
  case True
  then show ?thesis by (intro exI [of _ "k + j"]) simp
next
  case False
  then show ?thesis by (intro exI [of _ "k + length xs"]) simp
qed

lemma pipeline_xadd:
  assumes "xadd_law X" and "pipeline (map (\<lambda>e. st_xadd X s [(''payload'', dump e)] n) es) q = (Inr u, q')"
  shows "\<exists>k. st_entries X q' s = drop k (st_entries X q s @ map (\<lambda>e. [(''payload'', dump e)]) es)
    \<and> (int (length (st_entries X q s) + length es) \<le> n \<longrightarrow> k = 0)"
  using assms(2)
proof (induction es arbitrary: q)
  case (Cons e es)
  obtain x q1 where add: "st_xadd X s [(''payload'', dump e)] n q = (x, q1)"
    by (cases "st_xadd X s [(''payload'', dump e)] n q")
  with Cons.prems obtain i where x: "x = Inr i"
    by (cases x) auto
  obtain k1 where k1: "st_entries X q1 s = drop k1 (st_entries X q s @ [[(''payload'', dump e)]])"
    "int (length (st_entries X q s)) < n \<longrightarrow> k1 = 0"
    using assms(1) add x unfolding xadd_law_def by blast
  obtain k2 where k2: "st_entries X q' s = drop k2 (st_entries X q1 s @ map (\<lambda>e. [(''payload'', dump e)]) es)"
    "int (length (st_entries X q1 s) + length es) \<le> n \<longrightarrow> k2 = 0"
    using Cons.IH [of q1] Cons.prems add x by auto
  obtain k where k: "drop k2 (drop k1 (st_entries X q s @ [[(''payload'', dump e)]]) @ map (\<lambda>e. [(''payload'', dump e)]) es)
      = drop k ((st_entries X q s @ [[(''payload'', dump e)]]) @ map (\<lambda>e. [(''payload'', dump e)]) es)"
    "k1 = 0 \<longrightarrow> k2 = 0 \<longrightarrow> k = 0"
    using drop_drop_append by blast
  have "k = 0" if "int (length (st_entries X q s) + length (e # es)) \<le> n"
  proof -
    have "k1 = 0" using k1(2) that by simp
    moreover from this have "k2 = 0" using k1(1) k2(2) that by simp
    ultimately show ?thesis using k(2) by simp
  qed
  with k1(1) k2(1) k(1) show ?case by (intro exI [of _ k]) auto
qed (auto intro!: exI [of _ 0])

lemma redis_publisher_contract:
  assumes "xadd_law X" and "xlen_law X"
  shows "event_publisher (publish_many X s dump) (redis_pending_lag X s) (stream_log X s) dump (stream_maxlen s)"
proof
  fix es q n q'
  assume run: "publish_many X s dump es q = (Inr n, q')"
  show "n = int (length es) \<and> (\<exists>k. stream_log X s q' = drop k (stream_log X s q @ map dump es)
        \<and> (int (length (stream_log X s q) + length es) \<le> stream_maxlen s \<longrightarrow> k = 0))"
  proof (cases "es = []")
    case True
    then show ?thesis using run by (auto simp: publish_many_def intro!: exI [of _ 0])
  next
    case False
    with run obtain u where n: "n = int (length es)"
      and pipe: "pipeline (map (\<lambda>e. st_xadd X (stream_name s) [(''payload'', dump e)] (stream_maxlen s)) es) q = (Inr u, q')"
      by (auto simp: publish_many_def bnd_Inr_iff)
    obtain k where k: "st_entries X q' (stream_name s)
        = drop k (st_entries X q (stream_name s) @ map (\<lambda>e. [(''payload'', dump e)]) es)"
      "int (length (st_entries X q (stream_name s)) + length es) \<le> stream_maxlen s \<longrightarrow> k = 0"
      using pipeline_xadd [OF assms(1) pipe] by blast
    have texts: "map payload_text (map (\<lambda>e. [(''payload'', dump e)]) es) = map dump es"
      by (simp add: payload_text_def)
    have "stream_log X s q' = drop k (stream_log X s q @ map dump es)"
      unfolding stream_log_def k(1) drop_map [symmetric] map_append texts ..
    with k(2) n show ?thesis by (auto simp: stream_log_def)
  qed
next
  fix q
  obtain x q' where run: "st_xlen X (stream_name s) q = (x, q')"
    by (cases "st_xlen X (stream_name s) q")
  have entries: "st_entries X q' = st_entries X q"
    using assms(2) run unfolding xlen_law_def by blast
  show "\<exists>n q'. redis_pending_lag X s q = (Inr n, q') \<and> 0 \<le> n \<and> stream_log X s q' = stream_log X s q"
  proof (cases x)
    case (Inl a)
    then show ?thesis
      using run entries by (simp add: redis_pending_lag_def healthy_lag_when_unmeasurable_def stream_log_def)
  next
    case (Inr n)
    then have "n = int (length (st_entries X q (stream_name s)))"
      using assms(2) run unfolding xlen_law_def by blast
    then show ?thesis
      using run entries Inr by (simp add: redis_pending_lag_def stream_log_def)
  qed
qed

end
