(* ===== verification/Webhook_Claims.thy ===== *)
theory Webhook_Claims
  imports Webhook_Api Ingest_Claims
begin

text \<open>
  The properties of the webhook API (src/webhook_api): what a request is answered, that accepted
  events reach the stream once and in order, and where they do not. The client's lemmas are proved in
  the locale of the publisher's contract; the Redis publisher provides it wherever the server keeps
  the documented laws of its commands.
\<close>

section \<open>The buffer\<close>

lemma take_batch_loop_eq:
  "take_batch_loop n batch q =
     (batch @ take (nat (n - int (length batch))) q, drop (nat (n - int (length batch))) q)"
proof (induction n batch q rule: take_batch_loop.induct)
  case (2 n batch e q)
  have "nat (n - int (length batch)) = Suc (nat (n - int (length (batch @ [e]))))"
    if "int (length batch) < n"
    using that by (simp add: Suc_nat_eq_nat_zadd1)
  with 2 show ?case by simp
qed simp

lemma take_batch_eq:
  "take_batch s b = (take (nat (buffer_max_batch s)) (bu_queue b),
                     b\<lparr>bu_queue := drop (nat (buffer_max_batch s)) (bu_queue b)\<rparr>)"
  by (simp add: take_batch_def take_batch_loop_eq)

lemma submit_events_spec:
  assumes "submit_events s es m r b = (n, r', b')"
  obtains k where "k \<le> length es" and "n = m + k" and "b' = b\<lparr>bu_queue := bu_queue b @ take k es\<rparr>"
    and "k = length es \<longrightarrow> r' = r"
    and "k < length es \<longrightarrow> queue_full s b' \<and> r' = ask_partner_to_slow_down min_retry_after_seconds r"
    and "\<forall>j < k. \<not> queue_full s (b\<lparr>bu_queue := bu_queue b @ take j es\<rparr>)"
  using assms
proof (induction es arbitrary: m b thesis)
  case Nil
  then show ?case by (auto intro!: Nil.prems(1) [of 0])
next
  case (Cons e es)
  show ?case
  proof (cases "queue_full s b")
    case True
    with Cons.prems(2) show ?thesis
      by (auto simp: submit_def intro!: Cons.prems(1) [of 0])
  next
    case False
    let ?b = "b\<lparr>bu_queue := bu_queue b @ [e]\<rparr>"
    have "submit_events s es (m + 1) r ?b = (n, r', b')"
      using Cons.prems(2) False by (simp add: submit_def)
    then obtain k where k: "k \<le> length es" "n = m + 1 + k" "b' = ?b\<lparr>bu_queue := bu_queue ?b @ take k es\<rparr>"
      "k = length es \<longrightarrow> r' = r"
      "k < length es \<longrightarrow> queue_full s b' \<and> r' = ask_partner_to_slow_down min_retry_after_seconds r"
      "\<forall>j < k. \<not> queue_full s (?b\<lparr>bu_queue := bu_queue ?b @ take j es\<rparr>)"
      using Cons.IH [of "m + 1" ?b] by blast
    have "\<not> queue_full s (b\<lparr>bu_queue := bu_queue b @ take j (e # es)\<rparr>)" if "j < Suc k" for j
      using that k(6) False by (cases j) auto
    with k(1-5) show ?thesis by (intro Cons.prems(1) [of "Suc k"]) auto
  qed
qed

lemma submit_events_bounded:
  assumes "submit_events s es m r b = (n, r', b')" and "0 < buffer_queue_size s"
    and "int (depth b) \<le> buffer_queue_size s"
  shows "int (depth b') \<le> buffer_queue_size s"
proof -
  obtain k where k: "k \<le> length es" "b' = b\<lparr>bu_queue := bu_queue b @ take k es\<rparr>"
    "\<forall>j < k. \<not> queue_full s (b\<lparr>bu_queue := bu_queue b @ take j es\<rparr>)"
    using submit_events_spec [OF assms(1)] by metis
  show ?thesis
  proof (cases k)
    case (Suc j)
    then have "\<not> queue_full s (b\<lparr>bu_queue := bu_queue b @ take j es\<rparr>)" using k(3) by simp
    with Suc k(1,2) assms(2) show ?thesis by (simp add: queue_full_def depth_def)
  qed (use k assms in \<open>simp add: depth_def\<close>)
qed

text \<open>
  What a run keeps: the accepted events are those that left the queue, then the batch in hand, then
  the queue, in order; the first part is in the log unless a publication has raised.
\<close>

definition conserved ::
  "settings \<Rightarrow> ('q \<Rightarrow> string list) \<Rightarrow> ('e \<Rightarrow> string) \<Rightarrow> int \<Rightarrow> string list \<Rightarrow> ('e, 'q) api_run \<Rightarrow> bool" where
  "conserved s entries dump cap old r \<longleftrightarrow>
     (\<exists>sent. run_accepted r = sent @ run_in_flight r @ bu_queue (ap_buffer (run_app r))
       \<and> (\<not> run_failed r \<longrightarrow> bu_published (ap_buffer (run_app r)) = int (length sent)
            \<and> (int (length old + length (run_accepted r)) \<le> cap \<longrightarrow>
                 entries (ap_server (run_app r)) = old @ map dump sent)))
     \<and> (0 < buffer_queue_size s \<longrightarrow> int (depth (ap_buffer (run_app r))) \<le> buffer_queue_size s)
     \<and> length (run_in_flight r) \<le> nat (buffer_max_batch s)"

lemma start_conserved: "conserved s entries dump cap (entries q) (start_run q)"
  by (auto simp: conserved_def start_run_def start_app_def new_buffer_def start_def depth_def)

lemma retry_after_in_range:
  "1 \<le> bp_retry_after_seconds (state_for s lag) \<and> bp_retry_after_seconds (state_for s lag) \<le> 30"
  by (simp add: state_for_def retry_after_for_def min_retry_after_seconds_def max_retry_after_seconds_def)

section \<open>The client of the contract\<close>

context event_publisher
begin

lemma evaluate_returns:
  obtains st g q' where "evaluate s pending_lag t1 t2 (g0, q) = (Inr st, g, q')"
    and "published q' = published q" and "st = gu_state g"
    and "probe_is_due s t1 g0 \<longrightarrow> (\<exists>lag. pending_lag q = (Inr lag, q') \<and> st = state_for s lag)"
    and "\<not> probe_is_due s t1 g0 \<longrightarrow> st = gu_state g0 \<and> g = g0 \<and> q' = q"
proof (cases "probe_is_due s t1 g0")
  case True
  obtain lag q' where lag: "pending_lag q = (Inr lag, q')" "published q' = published q"
    using lag_returns by blast
  show ?thesis
    by (rule that [of "state_for s lag" "g0\<lparr>gu_last_probe_at := t2, gu_state := state_for s lag\<rparr>" q'])
      (use True lag in \<open>auto simp: evaluate_def Let_def\<close>)
next
  case False
  show ?thesis by (rule that [of "gu_state g0" g0 q]) (use False in \<open>auto simp: evaluate_def\<close>)
qed

lemma ingest_returns:
  obtains resp body a' where "ingest_events s pending_lag t1 t2 es a = (Inr (resp, body), a')"
    and "published (ap_server a') = published (ap_server a)" and "ac_accepted body \<le> length es"
    and "ap_buffer a' = (ap_buffer a)\<lparr>bu_queue := bu_queue (ap_buffer a) @ take (ac_accepted body) es\<rparr>"
    and "ac_buffered body = depth (ap_buffer a')"
    and "bp_overloaded (gu_state (ap_guard a')) \<longrightarrow> ac_accepted body = 0
      \<and> resp = ask_partner_to_slow_down (bp_retry_after_seconds (gu_state (ap_guard a'))) accepted_response"
    and "\<not> bp_overloaded (gu_state (ap_guard a')) \<longrightarrow> ac_accepted body = length es \<longrightarrow> resp = accepted_response"
    and "\<not> bp_overloaded (gu_state (ap_guard a')) \<longrightarrow> ac_accepted body < length es \<longrightarrow>
      queue_full s (ap_buffer a') \<and> resp = ask_partner_to_slow_down min_retry_after_seconds accepted_response"
    and "0 < buffer_queue_size s \<longrightarrow> int (depth (ap_buffer a)) \<le> buffer_queue_size s \<longrightarrow>
      int (depth (ap_buffer a')) \<le> buffer_queue_size s"
    and "probe_is_due s t1 (ap_guard a) \<longrightarrow> (\<exists>lag. gu_state (ap_guard a') = state_for s lag)"
    and "\<not> probe_is_due s t1 (ap_guard a) \<longrightarrow> ap_guard a' = ap_guard a"
proof -
  obtain st g q' where ev: "evaluate s pending_lag t1 t2 (ap_guard a, ap_server a) = (Inr st, g, q')"
    "published q' = published (ap_server a)" "st = gu_state g"
    "probe_is_due s t1 (ap_guard a) \<longrightarrow> (\<exists>lag. pending_lag (ap_server a) = (Inr lag, q') \<and> st = state_for s lag)"
    "\<not> probe_is_due s t1 (ap_guard a) \<longrightarrow> st = gu_state (ap_guard a) \<and> g = ap_guard a \<and> q' = ap_server a"
    by (rule evaluate_returns)
  obtain n r b where sub: "submit_events s es 0 accepted_response (ap_buffer a) = (n, r, b)"
    by (cases "submit_events s es 0 accepted_response (ap_buffer a)")
  obtain k where k: "k \<le> length es" "n = 0 + k" "b = (ap_buffer a)\<lparr>bu_queue := bu_queue (ap_buffer a) @ take k es\<rparr>"
    "k = length es \<longrightarrow> r = accepted_response"
    "k < length es \<longrightarrow> queue_full s b \<and> r = ask_partner_to_slow_down min_retry_after_seconds accepted_response"
    using submit_events_spec [OF sub] by metis
  show ?thesis
  proof (cases "bp_overloaded st")
    case True
    with ev show ?thesis
      by (intro that [of "ask_partner_to_slow_down (bp_retry_after_seconds st) accepted_response"
            "\<lparr>ac_accepted = 0, ac_buffered = depth (ap_buffer a)\<rparr>" "a\<lparr>ap_guard := g, ap_server := q'\<rparr>"])
        (auto simp: ingest_events_def Let_def)
  next
    case False
    with ev k sub submit_events_bounded [OF sub] show ?thesis
      by (intro that [of r "\<lparr>ac_accepted = n, ac_buffered = depth b\<rparr>"
            "a\<lparr>ap_guard := g, ap_server := q', ap_buffer := b\<rparr>"])
        (auto simp: ingest_events_def Let_def)
  qed
qed

lemma health_keeps:
  "ap_buffer (snd (health s pending_lag t1 t2 a)) = ap_buffer a
   \<and> published (ap_server (snd (health s pending_lag t1 t2 a))) = published (ap_server a)"
proof -
  obtain st g q' where "evaluate s pending_lag t1 t2 (ap_guard a, ap_server a) = (Inr st, g, q')"
    "published q' = published (ap_server a)"
    by (rule evaluate_returns)
  then show ?thesis by (simp add: health_def)
qed

lemma step_conserves:
  assumes "conserved s published dump cap old r"
  shows "conserved s published dump cap old (run_step s publish pending_lag act r)"
proof (cases act)
  case (Receive t1 t2 es)
  obtain resp body a' where ing: "ingest_events s pending_lag t1 t2 es (run_app r) = (Inr (resp, body), a')"
    and keep: "published (ap_server a') = published (ap_server (run_app r))"
    and buf: "ap_buffer a' = (ap_buffer (run_app r))\<lparr>bu_queue :=
      bu_queue (ap_buffer (run_app r)) @ take (ac_accepted body) es\<rparr>"
    and bound: "0 < buffer_queue_size s \<longrightarrow> int (depth (ap_buffer (run_app r))) \<le> buffer_queue_size s \<longrightarrow>
      int (depth (ap_buffer a')) \<le> buffer_queue_size s"
    by (rule ingest_returns [where a = "run_app r"]) blast
  from assms obtain sent where
    acc: "run_accepted r = sent @ run_in_flight r @ bu_queue (ap_buffer (run_app r))"
    and ok: "\<not> run_failed r \<longrightarrow> bu_published (ap_buffer (run_app r)) = int (length sent)
        \<and> (int (length old + length (run_accepted r)) \<le> cap \<longrightarrow>
             published (ap_server (run_app r)) = old @ map dump sent)"
    and rest: "0 < buffer_queue_size s \<longrightarrow> int (depth (ap_buffer (run_app r))) \<le> buffer_queue_size s"
      "length (run_in_flight r) \<le> nat (buffer_max_batch s)"
    unfolding conserved_def by blast
  show ?thesis
    unfolding conserved_def Receive
    using acc ok rest ing keep buf bound by (intro conjI exI [of _ sent]) auto
next
  case (Health t1 t2)
  then show ?thesis
    using assms health_keeps [of s t1 t2 "run_app r"] by (simp add: conserved_def)
next
  case Take_batch
  show ?thesis
  proof (cases "run_in_flight r = []")
    case True
    with assms Take_batch show ?thesis
      by (auto simp: conserved_def take_batch_eq depth_def)
  qed (use assms Take_batch in simp)
next
  case Publish_batch
  from assms obtain sent where
    acc: "run_accepted r = sent @ run_in_flight r @ bu_queue (ap_buffer (run_app r))"
    and ok: "\<not> run_failed r \<longrightarrow> bu_published (ap_buffer (run_app r)) = int (length sent)
        \<and> (int (length old + length (run_accepted r)) \<le> cap \<longrightarrow>
             published (ap_server (run_app r)) = old @ map dump sent)"
    and rest: "0 < buffer_queue_size s \<longrightarrow> int (depth (ap_buffer (run_app r))) \<le> buffer_queue_size s"
    unfolding conserved_def by blast
  obtain res q' where pub: "publish (run_in_flight r) (ap_server (run_app r)) = (res, q')"
    by (cases "publish (run_in_flight r) (ap_server (run_app r))")
  have log: "published q' = old @ map dump (sent @ run_in_flight r)"
    if "res = Inr n" "\<not> run_failed r" "int (length old + length (run_accepted r)) \<le> cap" for n
    using publish_exact [of "run_in_flight r" "ap_server (run_app r)" n q'] pub that ok acc by auto
  have count: "n = int (length (run_in_flight r))" if "res = Inr n" for n
    using publish_appends pub that by blast
  show ?thesis
    unfolding conserved_def Publish_batch
    by (intro conjI exI [of _ "sent @ run_in_flight r"])
      (use acc ok rest pub log count in \<open>cases res; auto simp: publish_taken_def depth_def\<close>)+
qed

lemma run_conserves:
  "conserved s published dump cap old r \<Longrightarrow>
   conserved s published dump cap old (run_steps s publish pending_lag acts r)"
  by (induction acts arbitrary: r) (simp_all add: run_steps_def step_conserves)

end

section \<open>A server that keeps the laws provides the contract\<close>

locale redis_server =
  fixes X :: "'q streams"
  assumes xadd: "xadd_law X" and xack: "xack_law X" and xlen: "xlen_law X"
begin

lemma acked_entries_stay:
  assumes "co_streams c = X" and "ack c ids q = (Inr (), q')"
    and "st_pending X q (stream_name (co_settings c)) \<subseteq> set ids"
  shows "st_pending X q' (stream_name (co_settings c)) = {}" and "st_entries X q' = st_entries X q"
  using ack_pending [of c ids q "Inr ()" q'] assms xack by auto

lemma lag_counts_entries:
  assumes "st_xlen X (stream_name s) q = (Inr n, q')"
  shows "redis_pending_lag X s q = (Inr (int (length (st_entries X q (stream_name s)))), q')"
  using assms xlen unfolding redis_pending_lag_def xlen_law_def by fastforce

end

sublocale redis_server \<subseteq>
  publisher: event_publisher "publish_many X s dump" "redis_pending_lag X s" "stream_log X s" dump "stream_maxlen s"
  for s :: settings and dump :: "'e \<Rightarrow> string"
  by (rule redis_publisher_contract [OF xadd xlen])

interpretation memory: redis_server memory_streams
  by unfold_locales (rule memory_xadd_law memory_xack_law memory_xlen_law)+

lemma contract_of_laws:
  assumes "xadd_law X" and "xlen_law X"
  shows "event_publisher (publish_many X s dump) (redis_pending_lag X s) (stream_log X s) dump (stream_maxlen s)"
  using assms by (rule redis_publisher_contract)

section \<open>Properties\<close>


definition small_settings :: settings where
  "small_settings = default_settings\<lparr>buffer_max_batch := 2, buffer_queue_size := 3, backpressure_max_lag := 4\<rparr>"

definition empty_memory :: memory where
  "empty_memory = \<lparr>me_entries = [], me_new = [], me_pending = []\<rparr>"

definition sample_run :: "(string, memory) api_run" where
  "sample_run = run_steps small_settings (publish_many memory_streams small_settings id)
     (redis_pending_lag memory_streams small_settings)
     [Receive 1 1 [''a'', ''b'', ''c'', ''d''], Take_batch, Receive 1 1 [''e''], Publish_batch, Health 2 2, Take_batch]
     (start_run empty_memory)"

lemma sample_run_eval:
  "run_accepted sample_run = [''a'', ''b'', ''c'', ''e''] \<and> run_in_flight sample_run = [''c'', ''e'']
   \<and> \<not> run_failed sample_run
   \<and> stream_log memory_streams small_settings (ap_server (run_app sample_run)) = [''a'', ''b'']"
  by code_simp


text \<open>
  C37. Over a server that keeps the laws, a request never raises. It accepts a prefix of its events,
  puts exactly that prefix at the end of the queue and reports its length and the queue's. The answer
  is 202 with no Retry-After exactly when the sampled lag is not an overload and everything was
  accepted; otherwise it is 429 with a Retry-After between 1 and 30, and either nothing was accepted
  because of the overload or the queue is full. A fresh guard has such a Retry-After and every request
  keeps it.
\<close>

theorem request_is_answered:
  assumes "xadd_law X" and "xlen_law X"
    and "1 \<le> bp_retry_after_seconds (gu_state (ap_guard a)) \<and> bp_retry_after_seconds (gu_state (ap_guard a)) \<le> 30"
    and "ingest_events s (redis_pending_lag X s) t1 t2 events a = (res, a')"
  shows "\<exists>resp body n. res = Inr (resp, body)
    \<and> ac_accepted body \<le> length events
    \<and> bu_queue (ap_buffer a') = bu_queue (ap_buffer a) @ take (ac_accepted body) events
    \<and> ac_buffered body = length (bu_queue (ap_buffer a'))
    \<and> (if \<not> bp_overloaded (gu_state (ap_guard a')) \<and> ac_accepted body = length events
       then rs_status_code resp = 202 \<and> rs_retry_after resp = None
       else rs_status_code resp = 429 \<and> rs_retry_after resp = Some (int_str n) \<and> 1 \<le> n \<and> n \<le> 30
         \<and> (if bp_overloaded (gu_state (ap_guard a')) then ac_accepted body = 0
            else 0 < buffer_queue_size s
              \<and> buffer_queue_size s \<le> int (length (bu_queue (ap_buffer a')))))
    \<and> 1 \<le> bp_retry_after_seconds (gu_state (ap_guard a')) \<and> bp_retry_after_seconds (gu_state (ap_guard a')) \<le> 30"
proof -
  obtain resp body a1 where ing: "ingest_events s (redis_pending_lag X s) t1 t2 events a = (Inr (resp, body), a1)"
    "ac_accepted body \<le> length events"
    "ap_buffer a1 = (ap_buffer a)\<lparr>bu_queue := bu_queue (ap_buffer a) @ take (ac_accepted body) events\<rparr>"
    "ac_buffered body = depth (ap_buffer a1)"
    and over: "bp_overloaded (gu_state (ap_guard a1)) \<longrightarrow> ac_accepted body = 0
      \<and> resp = ask_partner_to_slow_down (bp_retry_after_seconds (gu_state (ap_guard a1))) accepted_response"
    and all: "\<not> bp_overloaded (gu_state (ap_guard a1)) \<longrightarrow> ac_accepted body = length events \<longrightarrow> resp = accepted_response"
    and full: "\<not> bp_overloaded (gu_state (ap_guard a1)) \<longrightarrow> ac_accepted body < length events \<longrightarrow>
      queue_full s (ap_buffer a1) \<and> resp = ask_partner_to_slow_down min_retry_after_seconds accepted_response"
    and due: "probe_is_due s t1 (ap_guard a) \<longrightarrow> (\<exists>lag. gu_state (ap_guard a1) = state_for s lag)"
      "\<not> probe_is_due s t1 (ap_guard a) \<longrightarrow> ap_guard a1 = ap_guard a"
    by (rule event_publisher.ingest_returns [OF contract_of_laws [OF assms(1,2)]])
  have seconds: "1 \<le> bp_retry_after_seconds (gu_state (ap_guard a1)) \<and> bp_retry_after_seconds (gu_state (ap_guard a1)) \<le> 30"
    using assms(3) due by (cases "probe_is_due s t1 (ap_guard a)") (auto simp: retry_after_in_range)
  have same: "res = Inr (resp, body)" "a' = a1" using assms(4) ing(1) by simp_all
  show ?thesis
  proof (cases "bp_overloaded (gu_state (ap_guard a1))")
    case True
    with ing over seconds same show ?thesis
      by (intro exI [of _ resp] exI [of _ body] exI [of _ "bp_retry_after_seconds (gu_state (ap_guard a1))"])
        (simp add: ask_partner_to_slow_down_def depth_def)
  next
    case False
    with ing all full seconds same show ?thesis
      by (intro exI [of _ resp] exI [of _ body] exI [of _ 1])
        (auto simp: ask_partner_to_slow_down_def depth_def accepted_response_def min_retry_after_seconds_def
          queue_full_def)
  qed
qed

definition full_app :: "(string, memory) app" where
  "full_app = (start_app empty_memory)\<lparr>ap_buffer := start (new_buffer\<lparr>bu_queue := [''x'', ''y'']\<rparr>)\<rparr>"

theorem request_is_answered_witness:
  "\<exists>resp body n a'. ingest_events small_settings (redis_pending_lag memory_streams small_settings) 1 1 [''a'', ''b''] full_app
      = (Inr (resp, body), a')
    \<and> rs_status_code resp = 429 \<and> rs_retry_after resp = Some (int_str n) \<and> 1 \<le> n \<and> n \<le> 30
    \<and> bu_queue (ap_buffer a') = [''x'', ''y'', ''a'']"
proof -
  obtain res a' where run: "ingest_events small_settings (redis_pending_lag memory_streams small_settings) 1 1 [''a'', ''b''] full_app = (res, a')"
    by (cases "ingest_events small_settings (redis_pending_lag memory_streams small_settings) 1 1 [''a'', ''b''] full_app")
  have eval: "(case ingest_events small_settings (redis_pending_lag memory_streams small_settings) 1 1 [''a'', ''b''] full_app of
      (Inl x, a') \<Rightarrow> False
    | (Inr (resp, body), a') \<Rightarrow> ac_accepted body = 1 \<and> bu_queue (ap_buffer a') = [''x'', ''y'', ''a''])"
    by code_simp
  have "1 \<le> bp_retry_after_seconds (gu_state (ap_guard full_app)) \<and> bp_retry_after_seconds (gu_state (ap_guard full_app)) \<le> 30"
    by code_simp
  from request_is_answered [OF memory_xadd_law memory_xlen_law this run] obtain resp body n where
    res: "res = Inr (resp, body)" and ans: "if \<not> bp_overloaded (gu_state (ap_guard a')) \<and> ac_accepted body = length [''a'', ''b'']
       then rs_status_code resp = 202 \<and> rs_retry_after resp = None
       else rs_status_code resp = 429 \<and> rs_retry_after resp = Some (int_str n) \<and> 1 \<le> n \<and> n \<le> 30
         \<and> (if bp_overloaded (gu_state (ap_guard a')) then ac_accepted body = 0
            else 0 < buffer_queue_size small_settings
              \<and> buffer_queue_size small_settings \<le> int (length (bu_queue (ap_buffer a'))))"
    by blast
  with eval run have "ac_accepted body = 1" "bu_queue (ap_buffer a') = [''x'', ''y'', ''a'']" by simp_all
  with run res ans show ?thesis by (intro exI [of _ resp] exI [of _ body] exI [of _ n] exI [of _ a']) simp
qed

text \<open>
  C38. A turn of the flusher swallows a failed publication: when every XADD to the stream raises and
  stores nothing, the turn leaves the server as it was, counts nothing, and takes the first
  \<open>buffer_max_batch\<close> events out of the queue. So a turn during an outage loses them: they are neither
  in the queue nor in the stream, and no error reaches a caller.
\<close>

lemma pipeline_all_raise:
  assumes "\<forall>e \<in> set es. f e q = (Inl x, q)" and "es \<noteq> []"
  shows "pipeline (map f es) q = (Inl x, q)"
  using assms
proof (induction es)
  case (Cons e es)
  then show ?case by (cases es) auto
qed simp

theorem failed_flush_drops_the_batch:
  assumes "\<forall>f n. st_xadd X (stream_name s) f n q = (Inl x, q)"
  shows "flush_turn s (publish_many X s dump) (b, q)
      = (b\<lparr>bu_queue := drop (nat (buffer_max_batch s)) (bu_queue b)\<rparr>, q)"
proof (cases "take (nat (buffer_max_batch s)) (bu_queue b) = []")
  case True
  then show ?thesis by (auto simp: flush_turn_def flush_def take_batch_eq publish_taken_def)
next
  case False
  have "publish_many X s dump (take (nat (buffer_max_batch s)) (bu_queue b)) q = (Inl x, q)"
    using False pipeline_all_raise [of "take (nat (buffer_max_batch s)) (bu_queue b)"
        "\<lambda>e. st_xadd X (stream_name s) [(''payload'', dump e)] (stream_maxlen s)" q x] assms
    by (simp add: publish_many_def bnd_def)
  with False show ?thesis
    by (simp add: flush_turn_def flush_def take_batch_eq publish_taken_def)
qed

definition down_streams :: "memory streams" where
  "down_streams = memory_streams\<lparr>st_xadd := (\<lambda>s f n q. (Inl (RedisError ''timeout''), q))\<rparr>"

theorem failed_flush_drops_the_batch_witness:
  "flush_turn small_settings (publish_many down_streams small_settings id)
     (new_buffer\<lparr>bu_queue := [''a'', ''b'', ''c'']\<rparr>, empty_memory)
   = (new_buffer\<lparr>bu_queue := [''c'']\<rparr>, empty_memory)"
proof -
  have "\<forall>f n. st_xadd down_streams (stream_name small_settings) f n empty_memory = (Inl (RedisError ''timeout''), empty_memory)"
    by (simp add: down_streams_def)
  from failed_flush_drops_the_batch [OF this, of id "new_buffer\<lparr>bu_queue := [''a'', ''b'', ''c'']\<rparr>"]
  show ?thesis by (simp add: small_settings_def new_buffer_def)
qed

text \<open>
  A shutdown publishes at most two batches: when \<open>stop\<close> returns, whatever the publisher is and
  however its first flush ended, the queue has lost its first \<open>buffer_max_batch\<close> events for the
  caller's flush and as many for the flusher's last turn if it was alive and not cancelled; every
  event behind them stays in the process's memory and is gone with it.
\<close>

lemma stop_leaves_the_rest:
  assumes "stop_app s publish cancelled a = (Inr (), a')" and "0 \<le> buffer_max_batch s"
  shows "bu_queue (ap_buffer a') =
    drop (if bu_flusher (ap_buffer a) \<and> bu_running (ap_buffer a) \<and> \<not> cancelled
          then nat (2 * buffer_max_batch s) else nat (buffer_max_batch s)) (bu_queue (ap_buffer a))"
proof -
  have twice: "nat (buffer_max_batch s) + nat (buffer_max_batch s) = nat (2 * buffer_max_batch s)"
    using assms(2) by simp
  have flushed: "bu_queue b' = drop (nat (buffer_max_batch s)) (bu_queue b)"
    if "flush s publish (b, q) = (r, b', q')" for b b' r and q q'
    using that by (auto simp: flush_def take_batch_eq publish_taken_def split: if_splits sum.splits prod.splits)
  let ?b = "(ap_buffer a)\<lparr>bu_running := False\<rparr>" and ?q = "ap_server a"
  obtain r1 b1 q1 where first: "flush s publish (?b, ?q) = (r1, b1, q1)"
    by (cases "flush s publish (?b, ?q)")
  have b1: "bu_queue b1 = drop (nat (buffer_max_batch s)) (bu_queue (ap_buffer a))"
    using flushed [OF first] by simp
  show ?thesis
  proof (cases "bu_flusher (ap_buffer a) \<and> bu_running (ap_buffer a) \<and> \<not> cancelled")
    case True
    obtain r2 b2 q2 where second: "flush s publish (b1, q1) = (r2, b2, q2)"
      by (cases "flush s publish (b1, q1)")
    from assms(1) True first second have "ap_buffer a' = b2"
      by (auto simp: stop_app_def stop_def flush_turn_def Let_def)
    with True flushed [OF second] b1 twice show ?thesis by simp
  next
    case False
    from assms(1) False first have "ap_buffer a' = b1"
      by (auto simp: stop_app_def stop_def flush_turn_def Let_def)
    with False b1 show ?thesis by auto
  qed
qed

definition busy_app :: "(string, memory) app" where
  "busy_app = (start_app empty_memory)\<lparr>ap_buffer := start (new_buffer\<lparr>bu_queue := [''a'', ''b'', ''c'', ''d'', ''e'']\<rparr>)\<rparr>"

lemma stop_leaves_the_rest_example:
  "\<exists>a'. stop_app small_settings (publish_many memory_streams small_settings id) False busy_app = (Inr (), a')
    \<and> bu_queue (ap_buffer a') = [''e'']"
proof -
  let ?run = "stop_app small_settings (publish_many memory_streams small_settings id) False busy_app"
  have "fst ?run = Inr ()" by code_simp
  then have run: "?run = (Inr (), snd ?run)" by (metis prod.collapse)
  have "drop (if bu_flusher (ap_buffer busy_app) \<and> bu_running (ap_buffer busy_app) \<and> \<not> False
          then nat (2 * buffer_max_batch small_settings) else nat (buffer_max_batch small_settings))
        (bu_queue (ap_buffer busy_app)) = [''e'']" and "0 \<le> buffer_max_batch small_settings"
    by code_simp+
  with stop_leaves_the_rest [OF run] have "bu_queue (ap_buffer (snd ?run)) = [''e'']" by simp
  with run show ?thesis by blast
qed

text \<open>
  The lag the guard measures is the length of the stream, and an acknowledged entry stays in it:
  once the stream holds \<open>backpressure_max_lag\<close> entries, then even after the worker has acknowledged
  every pending id, with nothing pending left, the next due probe reports the full length and an
  overload, so health says degraded and a webhook is answered 429 with nothing accepted.
\<close>

lemma acked_stream_still_overloads:
  assumes "xack_law X" and "xlen_law X" and "co_streams c = X" and "co_settings c = s"
    and "ack c ids q = (Inr (), q')" and "st_pending X q (stream_name s) \<subseteq> set ids"
    and "backpressure_max_lag s \<le> int (length (st_entries X q (stream_name s)))"
    and "st_xlen X (stream_name s) q' = (Inr n, q'')"
    and "ap_server a = q'" and "probe_is_due s t1 (ap_guard a)"
  shows "st_pending X q' (stream_name s) = {}
    \<and> (\<exists>h a'. health s (redis_pending_lag X s) t1 t2 a = (Inr h, a') \<and> he_status h = ''degraded''
         \<and> he_stream_lag h = int (length (st_entries X q (stream_name s))))
    \<and> (\<exists>resp body a'. ingest_events s (redis_pending_lag X s) t1 t2 events a = (Inr (resp, body), a')
         \<and> rs_status_code resp = 429 \<and> ac_accepted body = 0 \<and> ap_buffer a' = ap_buffer a)"
proof -
  have acked: "st_pending X q' (stream_name s) = {}" "st_entries X q' = st_entries X q"
    using ack_pending [of c ids q "Inr ()" q'] assms(1,3-6) by auto
  have "n = int (length (st_entries X q (stream_name s)))"
    using assms(2,8) acked(2) unfolding xlen_law_def by metis
  then have lag: "redis_pending_lag X s q' = (Inr (int (length (st_entries X q (stream_name s)))), q'')"
    using assms(8) by (simp add: redis_pending_lag_def)
  let ?st = "state_for s (int (length (st_entries X q (stream_name s))))"
  have over: "bp_overloaded ?st" using assms(7) by (simp add: state_for_def)
  have ev: "evaluate s (redis_pending_lag X s) t1 t2 (ap_guard a, ap_server a)
      = (Inr ?st, (ap_guard a)\<lparr>gu_last_probe_at := t2, gu_state := ?st\<rparr>, q'')"
    using assms(9,10) lag by (simp add: evaluate_def Let_def)
  show ?thesis
    using acked(1) over ev
    by (simp add: health_def ingest_events_def Let_def ask_partner_to_slow_down_def state_for_def)
qed

definition handled_memory :: memory where
  "handled_memory = \<lparr>me_entries = [(''events:ingest'', [[], [], [], []])], me_new = [],
     me_pending = [(''1'', [], 1), (''2'', [], 1)]\<rparr>"

definition small_consumer :: "memory consumer" where
  "small_consumer = \<lparr>co_streams = memory_streams, co_settings = small_settings, co_name = ''w1''\<rparr>"

lemma acked_stream_still_overloads_example:
  "\<exists>q' a. ack small_consumer [''1'', ''2''] handled_memory = (Inr (), q') \<and> ap_server a = q'
    \<and> st_pending memory_streams q' (stream_name small_settings) = {}
    \<and> (\<exists>resp body a'. ingest_events small_settings (redis_pending_lag memory_streams small_settings) 1 1 [''x''] a
         = (Inr (resp, body), a') \<and> rs_status_code resp = 429 \<and> ac_accepted body = 0)"
proof -
  let ?q' = "handled_memory\<lparr>me_pending := []\<rparr>" and ?a = "start_app (handled_memory\<lparr>me_pending := []\<rparr>) :: (string, memory) app"
  have c: "co_streams small_consumer = memory_streams" "co_settings small_consumer = small_settings"
    by (simp_all add: small_consumer_def)
  have ack: "ack small_consumer [''1'', ''2''] handled_memory = (Inr (), ?q')"
    by (simp add: ack_def small_consumer_def memory_streams_def handled_memory_def bnd_def ret_def)
  have entries: "st_entries memory_streams handled_memory (stream_name small_settings) = [[], [], [], []]"
    by code_simp
  have pend: "st_pending memory_streams handled_memory (stream_name small_settings) \<subseteq> set [''1'', ''2'']"
    by (auto simp: memory_streams_def handled_memory_def)
  have len: "st_xlen memory_streams (stream_name small_settings) ?q' = (Inr 4, ?q')"
    by (simp add: memory_streams_def small_settings_def default_settings_def entries_of_def handled_memory_def)
  have lim: "backpressure_max_lag small_settings
      \<le> int (length (st_entries memory_streams handled_memory (stream_name small_settings)))"
    unfolding entries by (simp add: small_settings_def)
  have srv: "ap_server ?a = ?q'" by (simp add: start_app_def)
  have due: "probe_is_due small_settings 1 (ap_guard ?a)"
    by (simp add: probe_is_due_def start_app_def new_guard_def small_settings_def default_settings_def)
  from acked_stream_still_overloads [OF memory_xack_law memory_xlen_law c ack pend lim len srv due, of 1 "[''x'']"]
    ack srv show ?thesis by (intro exI [of _ ?q'] exI [of _ ?a]) blast
qed

end
