(* ===== verification/Csv.thy ===== *)
theory Csv
  imports Prelude
begin

text \<open>
  The csv module as the bulk load uses it (airflow/dags/ecommerce/generator.py writes,
  bulk_loader.py reads): QUOTE_MINIMAL with the comma, the double quote doubled inside quotes, and
  a line feed as terminator. The reader is the state machine of the module's default dialect.
\<close>

section \<open>The writer\<close>

definition line_feed :: char where "line_feed = char_of (10::nat)"
definition carriage_return :: char where "carriage_return = char_of (13::nat)"

definition needs_quotes :: "string \<Rightarrow> bool" where
  "needs_quotes f \<longleftrightarrow> CHR '','' \<in> set f \<or> CHR 0x22 \<in> set f \<or> line_feed \<in> set f"

definition double_quotes :: "string \<Rightarrow> string" where
  "double_quotes f = concat (map (\<lambda>c. if c = CHR 0x22 then [c, c] else [c]) f)"

definition csv_field :: "bool \<Rightarrow> string \<Rightarrow> string" where
  "csv_field alone f =
     (if needs_quotes f \<or> (alone \<and> f = []) then CHR 0x22 # double_quotes f @ [CHR 0x22] else f)"

fun csv_fields :: "string list \<Rightarrow> string" where
  "csv_fields [] = []"
| "csv_fields [f] = csv_field False f"
| "csv_fields (f # g # fs) = csv_field False f @ CHR '','' # csv_fields (g # fs)"

definition csv_row :: "string list \<Rightarrow> string" where
  "csv_row fs = (case fs of [f] \<Rightarrow> csv_field True f | _ \<Rightarrow> csv_fields fs) @ [line_feed]"

definition csv_text :: "string list list \<Rightarrow> string" where
  "csv_text rows = concat (map csv_row rows)"

section \<open>The reader\<close>

datatype csv_state = Start_Record | Start_Field | In_Field | In_Quoted | Quote_In_Quoted | Eat_Crnl

text \<open>The state, the fields of the record so far and the field so far.\<close>

type_synonym csv_parser = "csv_state \<times> string list \<times> string"

definition new_parser :: csv_parser where
  "new_parser = (Start_Record, [], [])"

definition start_field :: "char \<Rightarrow> string list \<Rightarrow> string \<Rightarrow> csv_parser" where
  "start_field c fs f =
     (if c = line_feed \<or> c = carriage_return then (Eat_Crnl, fs @ [f], [])
      else if c = CHR 0x22 then (In_Quoted, fs, f)
      else if c = CHR '','' then (Start_Field, fs @ [f], [])
      else (In_Field, fs, f @ [c]))"

text \<open>A character of a line; an unquoted line break followed by more is the module's error, None.\<close>

fun csv_char :: "char \<Rightarrow> csv_parser \<Rightarrow> csv_parser option" where
  "csv_char c (Start_Record, fs, f) =
     (if c = line_feed \<or> c = carriage_return then Some (Eat_Crnl, fs, f) else Some (start_field c fs f))"
| "csv_char c (Start_Field, fs, f) = Some (start_field c fs f)"
| "csv_char c (In_Field, fs, f) =
     (if c = line_feed \<or> c = carriage_return then Some (Eat_Crnl, fs @ [f], [])
      else if c = CHR '','' then Some (Start_Field, fs @ [f], [])
      else Some (In_Field, fs, f @ [c]))"
| "csv_char c (In_Quoted, fs, f) =
     (if c = CHR 0x22 then Some (Quote_In_Quoted, fs, f) else Some (In_Quoted, fs, f @ [c]))"
| "csv_char c (Quote_In_Quoted, fs, f) =
     (if c = CHR 0x22 then Some (In_Quoted, fs, f @ [c])
      else if c = CHR '','' then Some (Start_Field, fs @ [f], [])
      else if c = line_feed \<or> c = carriage_return then Some (Eat_Crnl, fs @ [f], [])
      else Some (In_Field, fs, f @ [c]))"
| "csv_char c (Eat_Crnl, fs, f) =
     (if c = line_feed \<or> c = carriage_return then Some (Eat_Crnl, fs, f) else None)"

text \<open>The end of a line, which the reader signals to the machine after the line's characters.\<close>

fun csv_eol :: "csv_parser \<Rightarrow> csv_parser" where
  "csv_eol (Start_Record, fs, f) = (Start_Record, fs, f)"
| "csv_eol (Start_Field, fs, f) = (Start_Record, fs @ [f], [])"
| "csv_eol (In_Field, fs, f) = (Start_Record, fs @ [f], [])"
| "csv_eol (In_Quoted, fs, f) = (In_Quoted, fs, f)"
| "csv_eol (Quote_In_Quoted, fs, f) = (Start_Record, fs @ [f], [])"
| "csv_eol (Eat_Crnl, fs, f) = (Start_Record, fs, f)"

fun csv_eof :: "csv_parser \<Rightarrow> string list list" where
  "csv_eof (st, fs, f) = (if f \<noteq> [] \<or> st = In_Quoted then [fs @ [f]] else [])"

definition csv_end :: "bool \<Rightarrow> csv_parser \<Rightarrow> string list list" where
  "csv_end mid p =
     (if mid then (case csv_eol p of (Start_Record, fs, f) \<Rightarrow> [fs] | p' \<Rightarrow> csv_eof p') else csv_eof p)"

text \<open>A line ends after a line feed, and after a carriage return that no line feed follows.\<close>

definition ends_line :: "char \<Rightarrow> string \<Rightarrow> bool" where
  "ends_line c rest \<longleftrightarrow>
     c = line_feed \<or> (c = carriage_return \<and> (case rest of [] \<Rightarrow> True | d # _ \<Rightarrow> d \<noteq> line_feed))"

fun csv_read :: "csv_parser \<Rightarrow> bool \<Rightarrow> string \<Rightarrow> string list list option" where
  "csv_read p mid [] = Some (csv_end mid p)"
| "csv_read p mid (c # cs) =
     (case csv_char c p of
        None \<Rightarrow> None
      | Some p1 \<Rightarrow>
          if ends_line c cs then
            (case csv_eol p1 of
               (Start_Record, fs, f) \<Rightarrow> map_option ((#) fs) (csv_read new_parser False cs)
             | p2 \<Rightarrow> csv_read p2 False cs)
          else csv_read p1 True cs)"

definition csv_rows :: "string \<Rightarrow> string list list option" where
  "csv_rows text = csv_read new_parser False text"

section \<open>Reading what was written\<close>

lemma csv_chars [simp]:
  "line_feed \<noteq> carriage_return" "carriage_return \<noteq> line_feed"
  "CHR '','' \<noteq> line_feed" "CHR '','' \<noteq> carriage_return" "CHR 0x22 \<noteq> line_feed" "CHR 0x22 \<noteq> carriage_return"
  "line_feed \<noteq> CHR '',''" "line_feed \<noteq> CHR 0x22"
  by code_simp+

lemma read_quoted:
  assumes "carriage_return \<notin> set f"
  shows "csv_read (In_Quoted, fs, g) mid (double_quotes f @ CHR 0x22 # rest)
    = csv_read (Quote_In_Quoted, fs, g @ f) True rest"
  using assms
proof (induction f arbitrary: g mid)
  case (Cons c f)
  then show ?case
    by (auto simp: double_quotes_def ends_line_def)
qed (simp add: double_quotes_def ends_line_def)

lemma read_plain:
  assumes "carriage_return \<notin> set f" and "\<not> needs_quotes f"
  shows "csv_read (In_Field, fs, g) True (f @ rest) = csv_read (In_Field, fs, g @ f) True rest"
  using assms
proof (induction f arbitrary: g)
  case (Cons c f)
  then show ?case by (auto simp: needs_quotes_def ends_line_def)
qed simp

lemma read_start:
  assumes "carriage_return \<notin> set (c # f)" and "\<not> needs_quotes (c # f)" and "st \<in> {Start_Record, Start_Field}"
  shows "csv_read (st, fs, []) mid (c # f @ rest) = csv_read (In_Field, fs, c # f) True rest"
  using assms read_plain [of f fs "[c]" rest]
  by (auto simp: needs_quotes_def start_field_def ends_line_def)

lemma read_field_comma:
  assumes "carriage_return \<notin> set f" and "st \<in> {Start_Record, Start_Field}"
  shows "csv_read (st, fs, []) mid (csv_field False f @ CHR '','' # rest) = csv_read (Start_Field, fs @ [f], []) True rest"
proof (cases "needs_quotes f")
  case True
  then show ?thesis
    using assms read_quoted [of f fs "[]" True "CHR '','' # rest"]
    by (auto simp: csv_field_def start_field_def ends_line_def)
next
  case plain: False
  show ?thesis
  proof (cases f)
    case Nil
    then show ?thesis using plain assms by (auto simp: csv_field_def start_field_def ends_line_def)
  next
    case (Cons c f')
    then show ?thesis
      using plain assms read_start [of c f' st fs mid "CHR '','' # rest"]
      by (simp add: csv_field_def ends_line_def)
  qed
qed

lemma read_field_end:
  assumes "carriage_return \<notin> set f" and "st = Start_Field \<or> (st = Start_Record \<and> (alone \<or> f \<noteq> []))"
  shows "csv_read (st, fs, []) mid (csv_field alone f @ line_feed # rest)
    = map_option ((#) (fs @ [f])) (csv_read new_parser False rest)"
proof (cases "needs_quotes f \<or> (alone \<and> f = [])")
  case True
  then show ?thesis
    using assms read_quoted [of f fs "[]" True "line_feed # rest"]
    by (auto simp: csv_field_def start_field_def ends_line_def)
next
  case plain: False
  show ?thesis
  proof (cases f)
    case Nil
    then show ?thesis using plain assms by (auto simp: csv_field_def start_field_def ends_line_def)
  next
    case (Cons c f')
    then show ?thesis
      using plain assms read_start [of c f' st fs mid "line_feed # rest"]
      by (auto simp: csv_field_def ends_line_def)
  qed
qed

lemma read_fields:
  assumes "\<forall>f \<in> set (f # gs). carriage_return \<notin> set f" and "st = Start_Field \<or> (st = Start_Record \<and> gs \<noteq> [])"
  shows "csv_read (st, fs, []) mid (csv_fields (f # gs) @ line_feed # rest)
    = map_option ((#) (fs @ f # gs)) (csv_read new_parser False rest)"
  using assms
proof (induction gs arbitrary: f fs st mid)
  case Nil
  then show ?case using read_field_end [of f st False fs mid rest] by simp
next
  case (Cons g gs)
  then show ?case
    using read_field_comma [of f st fs mid "csv_fields (g # gs) @ line_feed # rest"] by auto
qed

lemma read_row:
  assumes "row \<noteq> []" and "\<forall>f \<in> set row. carriage_return \<notin> set f"
  shows "csv_read new_parser False (csv_row row @ rest) = map_option ((#) row) (csv_read new_parser False rest)"
proof (cases row)
  case (Cons f gs)
  then show ?thesis
    using assms read_field_end [of f Start_Record True "[]" False rest] read_fields [of f gs Start_Record "[]" False rest]
    by (cases gs) (simp_all add: csv_row_def new_parser_def)
qed (use assms in simp)

lemma csv_round_trip:
  assumes "\<forall>row \<in> set rows. row \<noteq> [] \<and> (\<forall>f \<in> set row. carriage_return \<notin> set f)"
  shows "csv_rows (csv_text rows) = Some rows"
  using assms
proof (induction rows)
  case Nil
  then show ?case by (simp add: csv_rows_def csv_text_def csv_end_def new_parser_def)
next
  case (Cons row rows)
  then show ?case using read_row [of row "csv_text rows"] by (simp add: csv_rows_def csv_text_def)
qed

end
