(* ===== verification/Bulk_Load.thy ===== *)
theory Bulk_Load
  imports Csv Settings "HOL-Library.Multiset"
begin

text \<open>
  airflow/dags: the synthetic order history. The catalog and the generator of rows
  (ecommerce/catalog.py, generator.py), the two ways of loading a chunk (bulk_loader.py) and the
  DAG's tasks (load_order_history_dag.py). Prices are rationals, tables are multisets of rows of
  cells, None for NULL; the random source and SQL Server's CSV reader are parameters.
\<close>

section \<open>The random source\<close>

text \<open>
  \<open>random.Random\<close>: a program over the generator's state per method. \<open>rg_choice n\<close> is the index that
  \<open>choice\<close> takes of a sequence of length n, \<open>rg_choices ws\<close> the index for the weights.
\<close>

record 'g rng =
  rg_seed :: "int \<Rightarrow> 'g"
  rg_randint :: "int \<Rightarrow> int \<Rightarrow> 'g \<Rightarrow> int \<times> 'g"
  rg_choice :: "nat \<Rightarrow> 'g \<Rightarrow> nat \<times> 'g"
  rg_uniform :: "rat \<Rightarrow> rat \<Rightarrow> 'g \<Rightarrow> rat \<times> 'g"
  rg_choices :: "nat list \<Rightarrow> 'g \<Rightarrow> nat \<times> 'g"

definition rng_law :: "'g rng \<Rightarrow> bool" where
  "rng_law R \<longleftrightarrow>
     (\<forall>a b g. a \<le> b \<longrightarrow> a \<le> fst (rg_randint R a b g) \<and> fst (rg_randint R a b g) \<le> b)
     \<and> (\<forall>n g. 0 < n \<longrightarrow> fst (rg_choice R n g) < n)
     \<and> (\<forall>a b g. a \<le> b \<longrightarrow> a \<le> fst (rg_uniform R a b g) \<and> fst (rg_uniform R a b g) \<le> b)
     \<and> (\<forall>ws g. ws \<noteq> [] \<longrightarrow> fst (rg_choices R ws g) < length ws)"

section \<open>The catalog\<close>

record product =
  pd_sku :: string
  pd_name :: string
  pd_category :: string
  pd_min_price :: rat
  pd_max_price :: rat

definition products :: "product list" where
  "products = [
   \<lparr>pd_sku = ''SKU-AF-4000'', pd_name = ''Air Fryer Digital 4L'', pd_category = ''Eletroportateis'',
     pd_min_price = 32990 / 100, pd_max_price = 54990 / 100\<rparr>,
   \<lparr>pd_sku = ''SKU-AF-8000'', pd_name = ''Air Fryer Familia 8L'', pd_category = ''Eletroportateis'',
     pd_min_price = 49990 / 100, pd_max_price = 79990 / 100\<rparr>,
   \<lparr>pd_sku = ''SKU-LQ-1200'', pd_name = ''Liquidificador 1200W 12 Vel.'', pd_category = ''Eletroportateis'',
     pd_min_price = 14990 / 100, pd_max_price = 28990 / 100\<rparr>,
   \<lparr>pd_sku = ''SKU-LQ-0800'', pd_name = ''Liquidificador Compacto 800W'', pd_category = ''Eletroportateis'',
     pd_min_price = 9990 / 100, pd_max_price = 17990 / 100\<rparr>,
   \<lparr>pd_sku = ''SKU-BT-0500'', pd_name = ''Batedeira Planetaria 500W'', pd_category = ''Eletroportateis'',
     pd_min_price = 27990 / 100, pd_max_price = 45990 / 100\<rparr>,
   \<lparr>pd_sku = ''SKU-CF-0750'', pd_name = ''Cafeteira Eletrica 30 Xicaras'', pd_category = ''Eletroportateis'',
     pd_min_price = 12990 / 100, pd_max_price = 24990 / 100\<rparr>,
   \<lparr>pd_sku = ''SKU-SD-0750'', pd_name = ''Sanduicheira Grill Antiaderente'', pd_category = ''Eletroportateis'',
     pd_min_price = 8990 / 100, pd_max_price = 15990 / 100\<rparr>,
   \<lparr>pd_sku = ''SKU-PE-0900'', pd_name = ''Panela Eletrica de Arroz 1.8L'', pd_category = ''Eletroportateis'',
     pd_min_price = 16990 / 100, pd_max_price = 27990 / 100\<rparr>,
   \<lparr>pd_sku = ''SKU-VT-0040'', pd_name = ''Ventilador de Coluna 40cm'', pd_category = ''Ventilacao'',
     pd_min_price = 19990 / 100, pd_max_price = 34990 / 100\<rparr>,
   \<lparr>pd_sku = ''SKU-VT-0030'', pd_name = ''Ventilador de Mesa 30cm'', pd_category = ''Ventilacao'',
     pd_min_price = 11990 / 100, pd_max_price = 19990 / 100\<rparr>,
   \<lparr>pd_sku = ''SKU-CR-0220'', pd_name = ''Circulador de Ar 6 Pas'', pd_category = ''Ventilacao'',
     pd_min_price = 17990 / 100, pd_max_price = 29990 / 100\<rparr>,
   \<lparr>pd_sku = ''SKU-PA-0220'', pd_name = ''Purificador de Agua Refrigerado'', pd_category = ''Agua'',
     pd_min_price = 64990 / 100, pd_max_price = 109990 / 100\<rparr>,
   \<lparr>pd_sku = ''SKU-FE-0900'', pd_name = ''Ferro a Vapor Ceramico'', pd_category = ''Cuidado com a Roupa'',
     pd_min_price = 8990 / 100, pd_max_price = 17990 / 100\<rparr>,
   \<lparr>pd_sku = ''SKU-AS-1400'', pd_name = ''Aspirador de Po 1400W'', pd_category = ''Limpeza'',
     pd_min_price = 24990 / 100, pd_max_price = 42990 / 100\<rparr>,
   \<lparr>pd_sku = ''SKU-MO-0020'', pd_name = ''Micro-ondas 20L Espelhado'', pd_category = ''Linha Branca'',
     pd_min_price = 59990 / 100, pd_max_price = 89990 / 100\<rparr>,
   \<lparr>pd_sku = ''SKU-FG-0004'', pd_name = ''Fogao 4 Bocas Inox'', pd_category = ''Linha Branca'',
     pd_min_price = 89990 / 100, pd_max_price = 149990 / 100\<rparr>,
   \<lparr>pd_sku = ''SKU-CK-0005'', pd_name = ''Cooktop 5 Bocas Vidro Temperado'', pd_category = ''Linha Branca'',
     pd_min_price = 74990 / 100, pd_max_price = 119990 / 100\<rparr>,
   \<lparr>pd_sku = ''SKU-FR-0300'', pd_name = ''Frigobar 120L'', pd_category = ''Linha Branca'',
     pd_min_price = 109990 / 100, pd_max_price = 169990 / 100\<rparr>
  ]"

definition channels :: "string list" where
  "channels = [''SITE'', ''MARKETPLACE'', ''APP'', ''TELEVENDAS'', ''B2B'']"

definition payment_methods :: "string list" where
  "payment_methods = [''PIX'', ''CREDIT_CARD'', ''BOLETO'']"

definition history_statuses :: "string list" where
  "history_statuses = [''APPROVED'', ''INVOICED'', ''CANCELLED'', ''PENDING'']"

definition locations :: "(string \<times> string \<times> string) list" where
  "locations = [
   (''SP'', ''Sao Paulo'', ''01''), (''SP'', ''Campinas'', ''13''),
   (''SP'', ''Santo Andre'', ''09''), (''RJ'', ''Rio de Janeiro'', ''20''),
   (''RJ'', ''Niteroi'', ''24''), (''MG'', ''Belo Horizonte'', ''30''),
   (''MG'', ''Uberlandia'', ''38''), (''PR'', ''Curitiba'', ''80''),
   (''PR'', ''Londrina'', ''86''), (''SC'', ''Joinville'', ''89''),
   (''SC'', ''Florianopolis'', ''88''), (''RS'', ''Porto Alegre'', ''90''),
   (''BA'', ''Salvador'', ''40''), (''PE'', ''Recife'', ''50''),
   (''CE'', ''Fortaleza'', ''60''), (''GO'', ''Goiania'', ''74''),
   (''DF'', ''Brasilia'', ''70''), (''ES'', ''Vitoria'', ''29''),
   (''PA'', ''Belem'', ''66''), (''AM'', ''Manaus'', ''69'')]"

section \<open>generate_cpf\<close>

fun weighted_sum :: "int \<Rightarrow> int list \<Rightarrow> int" where
  "weighted_sum w [] = 0"
| "weighted_sum w (n # ns) = n * w + weighted_sum (w - 1) ns"

definition cpf_digit :: "int list \<Rightarrow> int" where
  "cpf_digit numbers =
     (let weight = int (length numbers) + 1;
          total = weighted_sum weight numbers;
          remainder = (total * 10) mod 11 in
      if remainder = 10 then 0 else remainder)"

fun draw :: "nat \<Rightarrow> ('g \<Rightarrow> 'a \<times> 'g) \<Rightarrow> 'g \<Rightarrow> 'a list \<times> 'g" where
  "draw 0 f g = ([], g)"
| "draw (Suc n) f g = (case f g of (x, g1) \<Rightarrow> case draw n f g1 of (xs, g2) \<Rightarrow> (x # xs, g2))"

definition cpf_of :: "int list \<Rightarrow> int list" where
  "cpf_of base = (let b1 = base @ [cpf_digit base] in b1 @ [cpf_digit b1])"

definition generate_cpf :: "'g rng \<Rightarrow> 'g \<Rightarrow> string \<times> 'g" where
  "generate_cpf R g =
     (case draw 9 (rg_randint R 0 9) g of (base, g') \<Rightarrow> (concat (map int_str (cpf_of base)), g'))"

section \<open>Formatting\<close>

definition zero_pad :: "nat \<Rightarrow> int \<Rightarrow> string" where
  "zero_pad w n = replicate (w - length (int_str n)) (CHR ''0'') @ int_str n"

text \<open>\<open>round(x, 2)\<close>: to the nearest hundredth, a tie to the even one.\<close>

definition round2 :: "rat \<Rightarrow> rat" where
  "round2 x =
     (let f = \<lfloor>x * 100\<rfloor>; d = x * 100 - of_int f in
      of_int (if d < 1 / 2 then f else if 1 / 2 < d then f + 1 else if even f then f else f + 1) / 100)"

text \<open>\<open>str\<close> of a float with at most two decimals, not negative: at least one decimal is printed.\<close>

definition price_str :: "rat \<Rightarrow> string" where
  "price_str x =
     (let c = \<lfloor>x * 100\<rfloor> in
      int_str (c div 100) @ ''.'' @
      (if c mod 10 = 0 then int_str (c mod 100 div 10) else zero_pad 2 (c mod 100)))"

type_synonym civil_date = "int \<times> int \<times> int"

definition leap_year :: "int \<Rightarrow> bool" where
  "leap_year y \<longleftrightarrow> y mod 4 = 0 \<and> (y mod 100 \<noteq> 0 \<or> y mod 400 = 0)"

definition month_length :: "int \<Rightarrow> int \<Rightarrow> int" where
  "month_length y m =
     (if m = 2 then if leap_year y then 29 else 28 else if m \<in> {4, 6, 9, 11} then 30 else 31)"

fun next_day :: "civil_date \<Rightarrow> civil_date" where
  "next_day (y, m, d) =
     (if d < month_length y m then (y, m, d + 1) else if m < 12 then (y, m + 1, 1) else (y + 1, 1, 1))"

fun plus_days :: "nat \<Rightarrow> civil_date \<Rightarrow> civil_date" where
  "plus_days 0 t = t"
| "plus_days (Suc n) t = plus_days n (next_day t)"

fun isoformat :: "civil_date \<Rightarrow> string" where
  "isoformat (y, m, d) = zero_pad 4 y @ ''-'' @ zero_pad 2 m @ ''-'' @ zero_pad 2 d"

section \<open>generate_rows\<close>

definition columns :: "string list" where
  "columns = [''order_uid'', ''client_uid'', ''client_document'', ''order_date'', ''channel'',
     ''payment_method'', ''status'', ''sku'', ''product_name'', ''category'', ''quantity'',
     ''unit_price'', ''freight_amount'', ''total_amount'', ''state'', ''city'']"

definition cpf_pool_size :: int where "cpf_pool_size = 5000"
definition client_universe :: int where "client_universe = 900000"
definition max_items_per_order :: int where "max_items_per_order = 4"
definition max_freight :: rat where "max_freight = 899 / 10"
definition status_weights :: "nat list" where "status_weights = [70, 20, 7, 3]"
definition first_order_date :: civil_date where "first_order_date = (2023, 1, 1)"
definition order_date_span_days :: int where "order_date_span_days = 1000"
definition chunk_seed_offset :: int where "chunk_seed_offset = 1000"

record history_row =
  hr_order_uid :: string
  hr_client_uid :: string
  hr_client_document :: string
  hr_order_date :: civil_date
  hr_channel :: string
  hr_payment_method :: string
  hr_status :: string
  hr_sku :: string
  hr_product_name :: string
  hr_category :: string
  hr_quantity :: int
  hr_unit_price :: rat
  hr_freight_amount :: rat
  hr_total_amount :: rat
  hr_state :: string
  hr_city :: string

definition history_uid :: "int \<Rightarrow> string" where
  "history_uid sequence = ''HIST-'' @ zero_pad 12 sequence"

definition random_order_date :: "'g rng \<Rightarrow> 'g \<Rightarrow> civil_date \<times> 'g" where
  "random_order_date R g =
     (case rg_randint R 0 order_date_span_days g of (n, g') \<Rightarrow> (plus_days (nat n) first_order_date, g'))"

text \<open>The body of the loop, with the draws in the order the code makes them.\<close>

definition history_row_of :: "'g rng \<Rightarrow> string list \<Rightarrow> int \<Rightarrow> 'g \<Rightarrow> history_row \<times> 'g" where
  "history_row_of R cpf_pool sequence g0 =
     (let (i, g1) = rg_choice R (length products) g0; product = products ! i;
          (j, g2) = rg_choice R (length locations) g1; (state, city, zip_prefix) = locations ! j;
          (quantity, g3) = rg_randint R 1 max_items_per_order g2;
          (price, g4) = rg_uniform R (pd_min_price product) (pd_max_price product) g3;
          unit_price = round2 price;
          (fr, g5) = rg_uniform R 0 max_freight g4;
          freight = round2 fr;
          (client, g6) = rg_randint R 1 client_universe g5;
          (day, g7) = random_order_date R g6;
          (c, g8) = rg_choice R (length channels) g7;
          (p, g9) = rg_choice R (length payment_methods) g8;
          (s, g10) = rg_choices R status_weights g9
      in (\<lparr>hr_order_uid = history_uid sequence, hr_client_uid = ''CLI-'' @ zero_pad 8 client,
            hr_client_document = cpf_pool ! nat (sequence mod cpf_pool_size), hr_order_date = day,
            hr_channel = channels ! c, hr_payment_method = payment_methods ! p,
            hr_status = history_statuses ! s, hr_sku = pd_sku product, hr_product_name = pd_name product,
            hr_category = pd_category product, hr_quantity = quantity, hr_unit_price = unit_price,
            hr_freight_amount = freight, hr_total_amount = round2 (unit_price * of_int quantity + freight),
            hr_state = state, hr_city = city\<rparr>, g10))"

fun generate_from :: "'g rng \<Rightarrow> string list \<Rightarrow> int \<Rightarrow> nat \<Rightarrow> 'g \<Rightarrow> history_row list" where
  "generate_from R cpf_pool sequence 0 g = []"
| "generate_from R cpf_pool sequence (Suc n) g =
     (case history_row_of R cpf_pool sequence g of
        (row, g') \<Rightarrow> row # generate_from R cpf_pool (sequence + 1) n g')"

definition generate_rows :: "'g rng \<Rightarrow> int \<Rightarrow> int \<Rightarrow> history_row list" where
  "generate_rows R chunk_index row_count =
     (case draw (nat cpf_pool_size) (generate_cpf R) (rg_seed R (chunk_seed_offset + chunk_index)) of
        (cpf_pool, g) \<Rightarrow> generate_from R cpf_pool (chunk_index * row_count) (nat row_count) g)"

text \<open>What csv.writer prints of a row.\<close>

definition row_cells :: "history_row \<Rightarrow> string list" where
  "row_cells r = [hr_order_uid r, hr_client_uid r, hr_client_document r, isoformat (hr_order_date r),
     hr_channel r, hr_payment_method r, hr_status r, hr_sku r, hr_product_name r, hr_category r,
     int_str (hr_quantity r), price_str (hr_unit_price r), price_str (hr_freight_amount r),
     price_str (hr_total_amount r), hr_state r, hr_city r]"

definition chunk_csv :: "'g rng \<Rightarrow> int \<Rightarrow> int \<Rightarrow> string" where
  "chunk_csv R chunk_index row_count =
     csv_text (columns # map row_cells (generate_rows R chunk_index row_count))"

section \<open>plan_chunks\<close>

record chunk =
  ch_chunk_index :: int
  ch_row_count :: int

text \<open>The loop runs only with a positive size, so the second test stops nothing the code would do.\<close>

function plan_loop :: "int \<Rightarrow> int \<Rightarrow> chunk list \<Rightarrow> chunk list" where
  "plan_loop chunk_size remaining chunks =
     (if 0 < remaining \<and> 0 < chunk_size then
        (let size = min chunk_size remaining in
         plan_loop chunk_size (remaining - size)
           (chunks @ [\<lparr>ch_chunk_index = int (length chunks), ch_row_count = size\<rparr>]))
      else chunks)"
  by pat_completeness auto
termination
  by (relation "measure (\<lambda>(_, remaining, _). nat remaining)") auto

declare plan_loop.simps [simp del]

definition plan_chunks :: "int \<Rightarrow> int \<Rightarrow> string + chunk list" where
  "plan_chunks row_count chunk_size =
     (if row_count \<le> 0 \<or> chunk_size \<le> 0 then Inl ''row_count e chunk_size precisam ser positivos''
      else Inr (plan_loop chunk_size row_count []))"

end
