(* ===== verification/Bulk_Dag.thy ===== *)
theory Bulk_Dag
  imports Bulk_Load "HOL-Library.AList"
begin

text \<open>
  Loading the chunks (airflow/dags/ecommerce/bulk_loader.py) and the tasks of the DAG
  (airflow/dags/load_order_history_dag.py). A chunk's load may be cut short after some committed
  batches, which the fault of the attempt says: None for no fault, \<open>Some k\<close> for a failure once k
  batches are in. The mapped tasks run one after the other here; their inserts commute.
\<close>

section \<open>Tables\<close>

type_synonym cells = "string option list"

text \<open>Both tables declare every column NOT NULL; the conversion to the column types is the server's.\<close>

definition row_fits :: "cells \<Rightarrow> bool" where
  "row_fits r \<longleftrightarrow> length r = length columns \<and> None \<notin> set r"

fun insert_batches :: "nat option \<Rightarrow> cells list list \<Rightarrow> cells multiset \<Rightarrow> (string + unit) \<times> cells multiset" where
  "insert_batches (Some 0) bs t = (Inl ''connection lost'', t)"
| "insert_batches None [] t = (Inr (), t)"
| "insert_batches (Some (Suc k)) [] t = (Inl ''connection lost'', t)"
| "insert_batches None (b # bs) t =
     (if \<forall>r \<in> set b. row_fits r then insert_batches None bs (t + mset b)
      else (Inl ''Cannot insert the value NULL'', t))"
| "insert_batches (Some (Suc k)) (b # bs) t =
     (if \<forall>r \<in> set b. row_fits r then insert_batches (Some k) bs (t + mset b)
      else (Inl ''Cannot insert the value NULL'', t))"

section \<open>bulk_loader.py\<close>

datatype load_strategy = Bulk_Insert | Fast_Executemany

definition executemany_batch_size :: int where "executemany_batch_size = 50000"
definition bulk_insert_batch_size :: int where "bulk_insert_batch_size = 100000"

fun read_in_batches :: "int \<Rightarrow> 'a list \<Rightarrow> 'a list \<Rightarrow> 'a list list" where
  "read_in_batches n batch [] = (if batch = [] then [] else [batch])"
| "read_in_batches n batch (r # rs) =
     (let b = batch @ [r] in
      if n \<le> int (length b) then b # read_in_batches n [] rs else read_in_batches n b rs)"

text \<open>
  \<open>BULK INSERT ... FORMAT = 'CSV'\<close>: the server reads the file, \<open>bulk_csv\<close>, from its second record;
  an empty field is NULL. It returns the count of the whole table.
\<close>

definition load_with_bulk_insert ::
  "(string \<Rightarrow> string list list option) \<Rightarrow> nat option \<Rightarrow> string \<Rightarrow> cells multiset \<Rightarrow> (string + int) \<times> cells multiset" where
  "load_with_bulk_insert bulk_csv fault text t =
     (case bulk_csv text of
        None \<Rightarrow> (Inl ''Bulk load data conversion error'', t)
      | Some records \<Rightarrow>
          (case insert_batches fault
                  (read_in_batches bulk_insert_batch_size []
                     (map (map (\<lambda>c. if c = [] then None else Some c)) (tl records))) t of
             (Inl e, t') \<Rightarrow> (Inl e, t')
           | (Inr _, t') \<Rightarrow> (Inr (int (size t')), t')))"

text \<open>
  The cursor path: the file is read by the csv module, the connection commits each batch on its own.
  It returns the rows of the file. A file that does not parse is refused as a whole.
\<close>

definition load_with_fast_executemany ::
  "nat option \<Rightarrow> string \<Rightarrow> cells multiset \<Rightarrow> (string + int) \<times> cells multiset" where
  "load_with_fast_executemany fault text t =
     (case csv_rows text of
        None \<Rightarrow> (Inl ''new-line character seen in unquoted field'', t)
      | Some records \<Rightarrow>
          (case insert_batches fault
                  (read_in_batches executemany_batch_size [] (map (map Some) (tl records))) t of
             (Inl e, t') \<Rightarrow> (Inl e, t')
           | (Inr _, t') \<Rightarrow> (Inr (int (length (tl records))), t')))"

definition load_csv ::
  "(string \<Rightarrow> string list list option) \<Rightarrow> load_strategy \<Rightarrow> nat option \<Rightarrow> string \<Rightarrow> cells multiset
    \<Rightarrow> (string + int) \<times> cells multiset" where
  "load_csv bulk_csv strategy fault text t =
     (case strategy of
        Bulk_Insert \<Rightarrow> load_with_bulk_insert bulk_csv fault text t
      | Fast_Executemany \<Rightarrow> load_with_fast_executemany fault text t)"

text \<open>The server reads an RFC 4180 file, as the writer prints it, into its records.\<close>

definition bulk_csv_law :: "(string \<Rightarrow> string list list option) \<Rightarrow> bool" where
  "bulk_csv_law bulk_csv \<longleftrightarrow>
     (\<forall>rows. (\<forall>row \<in> set rows. row \<noteq> [] \<and> (\<forall>f \<in> set row. carriage_return \<notin> set f)) \<longrightarrow>
        bulk_csv (csv_text rows) = Some rows)"

section \<open>The tasks of the DAG\<close>

text \<open>The staging table, the fact table and the files of \<open>BULK_DIR\<close> by name.\<close>

record warehouse =
  wa_staging :: "cells multiset"
  wa_fact :: "cells multiset"
  wa_files :: "(string \<times> string) list"

definition chunk_file_prefix :: string where "chunk_file_prefix = ''order_history_''"
definition chunk_file_suffix :: string where "chunk_file_suffix = ''.csv''"

definition chunk_path :: "int \<Rightarrow> string" where
  "chunk_path chunk_index = chunk_file_prefix @ zero_pad 4 chunk_index @ chunk_file_suffix"

definition write_chunk_csv :: "'g rng \<Rightarrow> int \<Rightarrow> int \<Rightarrow> warehouse \<Rightarrow> warehouse" where
  "write_chunk_csv R chunk_index row_count w =
     w\<lparr>wa_files := AList.update (chunk_path chunk_index) (chunk_csv R chunk_index row_count) (wa_files w)\<rparr>"

definition prepare_staging :: "warehouse \<Rightarrow> warehouse" where
  "prepare_staging w = w\<lparr>wa_staging := {#}\<rparr>"

record loaded_chunk =
  lc_chunk_index :: int
  lc_rows :: int

definition generate_and_load ::
  "'g rng \<Rightarrow> (string \<Rightarrow> string list list option) \<Rightarrow> load_strategy \<Rightarrow> nat option \<Rightarrow> chunk \<Rightarrow> warehouse
    \<Rightarrow> (string + loaded_chunk) \<times> warehouse" where
  "generate_and_load R bulk_csv strategy fault c w =
     (let w1 = write_chunk_csv R (ch_chunk_index c) (ch_row_count c) w;
          path = chunk_path (ch_chunk_index c) in
      case load_csv bulk_csv strategy fault (chunk_csv R (ch_chunk_index c) (ch_row_count c)) (wa_staging w1) of
        (Inl e, t) \<Rightarrow> (Inl e, w1\<lparr>wa_staging := t\<rparr>)
      | (Inr _, t) \<Rightarrow>
          (Inr \<lparr>lc_chunk_index = ch_chunk_index c, lc_rows = ch_row_count c\<rparr>,
           w1\<lparr>wa_staging := t, wa_files := AList.delete path (wa_files w1)\<rparr>))"

text \<open>\<open>retries=2\<close>: a failed task instance runs again from the start, at most twice.\<close>

definition load_retries :: nat where "load_retries = 2"

definition next_fault :: "nat option list \<Rightarrow> nat option" where
  "next_fault faults = (case faults of [] \<Rightarrow> None | f # _ \<Rightarrow> f)"

primrec load_attempts ::
  "nat \<Rightarrow> 'g rng \<Rightarrow> (string \<Rightarrow> string list list option) \<Rightarrow> load_strategy \<Rightarrow> nat option list \<Rightarrow> chunk \<Rightarrow> warehouse
    \<Rightarrow> (string + loaded_chunk) \<times> warehouse" where
  "load_attempts 0 R bulk_csv strategy faults c w = generate_and_load R bulk_csv strategy (next_fault faults) c w"
| "load_attempts (Suc n) R bulk_csv strategy faults c w =
     (case generate_and_load R bulk_csv strategy (next_fault faults) c w of
        (Inl e, w1) \<Rightarrow> load_attempts n R bulk_csv strategy (tl faults) c w1
      | (Inr r, w1) \<Rightarrow> (Inr r, w1))"

text \<open>Every mapped instance runs; the tasks after them only if all of them succeeded.\<close>

fun load_chunks ::
  "'g rng \<Rightarrow> (string \<Rightarrow> string list list option) \<Rightarrow> load_strategy \<Rightarrow> (chunk \<Rightarrow> nat option list) \<Rightarrow> chunk list
    \<Rightarrow> warehouse \<Rightarrow> (string + loaded_chunk list) \<times> warehouse" where
  "load_chunks R bulk_csv strategy faults [] w = (Inr [], w)"
| "load_chunks R bulk_csv strategy faults (c # cs) w =
     (case load_attempts load_retries R bulk_csv strategy (faults c) c w of
        (r, w1) \<Rightarrow>
          (case load_chunks R bulk_csv strategy faults cs w1 of
             (rs, w2) \<Rightarrow>
               (case (r, rs) of (Inr x, Inr xs) \<Rightarrow> Inr (x # xs) | (Inl e, _) \<Rightarrow> Inl e | (_, Inl e) \<Rightarrow> Inl e, w2)))"

definition count_fact_rows :: "warehouse \<Rightarrow> int" where
  "count_fact_rows w = int (size (wa_fact w))"

definition count_distinct_skus :: "warehouse \<Rightarrow> int" where
  "count_distinct_skus w = int (card (set_mset (image_mset (\<lambda>r. r ! 7) (wa_fact w))))"

definition count_incomplete_rows :: "warehouse \<Rightarrow> int" where
  "count_incomplete_rows w =
     int (size (filter_mset (\<lambda>r. r ! 0 = None \<or> r ! 13 = None \<or> r ! 3 = None) (wa_fact w)))"

definition load_fact :: "warehouse \<Rightarrow> int \<times> warehouse" where
  "load_fact w = (let w1 = w\<lparr>wa_fact := wa_staging w\<rparr> in (count_fact_rows w1, w1))"

record load_report =
  lr_rows :: int
  lr_expected :: int
  lr_distinct_skus :: int

definition validate_load :: "int \<Rightarrow> int \<Rightarrow> warehouse \<Rightarrow> string + load_report" where
  "validate_load row_count fact_rows w =
     (if fact_rows \<noteq> row_count then
        Inl (''esperado '' @ int_str row_count @ '' linhas, encontrado '' @ int_str fact_rows)
      else if count_incomplete_rows w \<noteq> 0 then
        Inl (int_str (count_incomplete_rows w) @ '' linhas com campos obrigatorios nulos'')
      else Inr \<lparr>lr_rows = fact_rows, lr_expected = row_count, lr_distinct_skus = count_distinct_skus w\<rparr>)"

definition is_chunk_file :: "string \<Rightarrow> bool" where
  "is_chunk_file name \<longleftrightarrow>
     take (length chunk_file_prefix) name = chunk_file_prefix
     \<and> (length chunk_file_suffix \<le> length name
          \<and> drop (length name - length chunk_file_suffix) name = chunk_file_suffix)"

definition cleanup :: "warehouse \<Rightarrow> warehouse" where
  "cleanup w = w\<lparr>wa_files := filter (\<lambda>(name, _). \<not> is_chunk_file name) (wa_files w)\<rparr>"

text \<open>The whole run; \<open>cleanup\<close> has trigger rule \<open>all_done\<close>, so it follows failures too.\<close>

definition load_order_history ::
  "'g rng \<Rightarrow> (string \<Rightarrow> string list list option) \<Rightarrow> load_strategy \<Rightarrow> int \<Rightarrow> int \<Rightarrow> (chunk \<Rightarrow> nat option list)
    \<Rightarrow> warehouse \<Rightarrow> (string + load_report) \<times> warehouse" where
  "load_order_history R bulk_csv strategy row_count chunk_size faults w =
     (let w0 = prepare_staging w in
      case plan_chunks row_count chunk_size of
        Inl e \<Rightarrow> (Inl e, cleanup w0)
      | Inr chunks \<Rightarrow>
          (case load_chunks R bulk_csv strategy faults chunks w0 of
             (Inl e, w1) \<Rightarrow> (Inl e, cleanup w1)
           | (Inr loaded, w1) \<Rightarrow>
               (case load_fact w1 of
                  (fact_rows, w2) \<Rightarrow> (validate_load row_count fact_rows w2, cleanup w2))))"

end
