(* ===== verification/Bulk_Proofs.thy ===== *)
theory Bulk_Proofs
  imports Bulk_Dag
begin

text \<open>
  The lemmas of the order history load: decimal digits and padded ids, the chunks of a plan and their
  sequence numbers, cells that the csv module reads back, and what each task adds to the staging
  table.
\<close>

section \<open>Decimal digits\<close>

lemma digits_value_zeros: "digits_value (replicate k (CHR ''0'') @ s) = digits_value s"
  by (induction k) (simp_all add: digits_value_def)

lemma history_uid_inj:
  assumes "history_uid a = history_uid b" and "0 \<le> a" and "0 \<le> b"
  shows "a = b"
proof -
  have "digits_value (zero_pad 12 a) = digits_value (zero_pad 12 b)"
    using assms(1) by (simp add: history_uid_def)
  with assms(2,3) show ?thesis
    by (simp add: zero_pad_def digits_value_zeros int_str_def digits_value_nat_str)
qed

text \<open>Cells the csv module reads back and the tables take.\<close>

definition plain_cell :: "string \<Rightarrow> bool" where
  "plain_cell s \<longleftrightarrow> s \<noteq> [] \<and> carriage_return \<notin> set s"

lemma plain_append: "plain_cell s \<Longrightarrow> carriage_return \<notin> set t \<Longrightarrow> plain_cell (s @ t) \<and> plain_cell (t @ s)"
  by (auto simp: plain_cell_def)

lemma plain_nat_str: "plain_cell (nat_str n)"
proof -
  have "carriage_return \<noteq> char_of (48 + d :: nat)" if "d < 10" for d
  proof
    assume "carriage_return = char_of (48 + d)"
    then have "(of_char carriage_return :: nat) = of_char (char_of (48 + d :: nat) :: char)" by simp
    with that show False by (simp add: carriage_return_def of_char_of)
  qed
  then show ?thesis using nat_str_chars nat_str_not_Nil unfolding plain_cell_def by metis
qed

lemma plain_int_str: "plain_cell (int_str i)"
proof -
  have "CHR ''-'' \<noteq> carriage_return" by code_simp
  then show ?thesis using plain_nat_str by (auto simp: int_str_def plain_cell_def)
qed

lemma plain_zero_pad: "plain_cell (zero_pad w i)"
proof -
  have "CHR ''0'' \<noteq> carriage_return" by code_simp
  then show ?thesis using plain_int_str [of i] by (auto simp: zero_pad_def plain_cell_def)
qed

lemma plain_price_str: "plain_cell (price_str x)"
proof -
  have "carriage_return \<notin> set ''.''" by code_simp
  then show ?thesis
    using plain_int_str plain_zero_pad by (auto simp: price_str_def Let_def plain_cell_def)
qed

lemma plain_isoformat: "plain_cell (isoformat t)"
proof -
  have "carriage_return \<notin> set ''-''" by code_simp
  then show ?thesis
    using plain_zero_pad by (cases t) (auto simp: plain_cell_def)
qed

section \<open>The plan\<close>

lemma plan_loop_eq:
  assumes "0 < cs" and "0 \<le> rc"
  shows "plan_loop cs rc acc = acc
    @ map (\<lambda>i. \<lparr>ch_chunk_index = int (length acc + i), ch_row_count = cs\<rparr>) [0..<nat (rc div cs)]
    @ (if rc mod cs = 0 then []
       else [\<lparr>ch_chunk_index = int (length acc + nat (rc div cs)), ch_row_count = rc mod cs\<rparr>])"
  using assms
proof (induction cs rc acc rule: plan_loop.induct)
  case (1 cs rc acc)
  consider "rc = 0" | "0 < rc" "rc < cs" | "cs \<le> rc" using 1(3) by linarith
  then show ?case
  proof cases
    case 1
    then show ?thesis by (subst plan_loop.simps) simp
  next
    case 2
    then show ?thesis
      by (subst plan_loop.simps) (simp add: Let_def plan_loop.simps [of _ 0])
  next
    case 3
    have div: "rc div cs = (rc - cs) div cs + 1" "rc mod cs = (rc - cs) mod cs"
      using \<open>0 < cs\<close> div_add_self2 [of cs "rc - cs"] mod_add_self2 [of "rc - cs" cs] by simp_all
    have nn: "0 \<le> (rc - cs) div cs" using 3 \<open>0 < cs\<close> by (simp add: pos_imp_zdiv_nonneg_iff)
    then have n: "nat (rc div cs) = Suc (nat ((rc - cs) div cs))" using div(1) by (simp add: nat_add_distrib)
    have upt: "[0..<Suc m] = 0 # map Suc [0..<m]" for m :: nat by (simp add: upt_conv_Cons map_Suc_upt del: upt_Suc)
    let ?c = "\<lparr>ch_chunk_index = int (length acc), ch_row_count = cs\<rparr>"
    have "plan_loop cs rc acc = plan_loop cs (rc - cs) (acc @ [?c])"
      using 3 \<open>0 < cs\<close> by (subst plan_loop.simps) (simp add: Let_def min_def)
    moreover have "plan_loop cs (rc - cs) (acc @ [?c]) = (acc @ [?c])
        @ map (\<lambda>i. \<lparr>ch_chunk_index = int (length (acc @ [?c]) + i), ch_row_count = cs\<rparr>) [0..<nat ((rc - cs) div cs)]
        @ (if (rc - cs) mod cs = 0 then []
           else [\<lparr>ch_chunk_index = int (length (acc @ [?c]) + nat ((rc - cs) div cs)), ch_row_count = (rc - cs) mod cs\<rparr>])"
      using "1.IH" [OF _ refl] 3 \<open>0 < cs\<close> by (simp add: min_def)
    ultimately show ?thesis unfolding n upt div(2) by (simp add: comp_def)
  qed
qed

section \<open>Order ids\<close>

lemma history_row_uid: "hr_order_uid (fst (history_row_of R pool sequence g)) = history_uid sequence"
  by (simp add: history_row_of_def Let_def split: prod.split)

lemma generate_from_uids:
  "map hr_order_uid (generate_from R pool sequence n g) = map history_uid [sequence..sequence + int n - 1]"
proof (induction n arbitrary: sequence g)
  case (Suc n)
  have "[sequence..sequence + int (Suc n) - 1] = sequence # [sequence + 1..sequence + 1 + int n - 1]"
    by (subst upto_rec1) (simp_all add: algebra_simps)
  with Suc [of "sequence + 1"] history_row_uid [of R pool sequence g] show ?case
    by (cases "history_row_of R pool sequence g") simp
qed simp

definition chunk_rows :: "'g rng \<Rightarrow> chunk \<Rightarrow> history_row list" where
  "chunk_rows R c = generate_rows R (ch_chunk_index c) (ch_row_count c)"

definition chunk_sequences :: "chunk \<Rightarrow> int list" where
  "chunk_sequences c = [ch_chunk_index c * ch_row_count c..ch_chunk_index c * ch_row_count c + ch_row_count c - 1]"

lemma chunk_uids:
  assumes "0 \<le> ch_row_count c"
  shows "map hr_order_uid (chunk_rows R c) = map history_uid (chunk_sequences c)"
  using assms by (simp add: chunk_rows_def generate_rows_def chunk_sequences_def generate_from_uids split: prod.split)

lemma full_chunks_sequences:
  assumes "0 < cs"
  shows "concat (map (\<lambda>i. [int i * cs..int i * cs + cs - 1]) [0..<q]) = [0..int q * cs - 1]"
proof (induction q)
  case (Suc q)
  have "[0..int (Suc q) * cs - 1] = [0..int q * cs - 1] @ [int q * cs..int (Suc q) * cs - 1]"
    using assms by (intro upto_split1) (simp_all add: algebra_simps)
  with Suc show ?case by (simp add: algebra_simps)
qed simp

lemma plan_sequences:
  assumes "0 < cs" and "0 < rc"
  shows "concat (map chunk_sequences (plan_loop cs rc []))
    = [0..rc div cs * cs - 1] @ [rc div cs * (rc mod cs)..rc div cs * (rc mod cs) + rc mod cs - 1]"
proof -
  have q: "int (nat (rc div cs)) = rc div cs" using assms by (simp add: pos_imp_zdiv_nonneg_iff)
  have "concat (map chunk_sequences
      (map (\<lambda>i. \<lparr>ch_chunk_index = int (length ([] :: chunk list) + i), ch_row_count = cs\<rparr>) [0..<nat (rc div cs)]))
    = [0..int (nat (rc div cs)) * cs - 1]"
    using full_chunks_sequences [OF assms(1), of "nat (rc div cs)"] by (simp add: chunk_sequences_def comp_def)
  then show ?thesis
    using assms q unfolding plan_loop_eq [OF assms(1) less_imp_le [OF assms(2)]]
    by (simp add: chunk_sequences_def)
qed

lemma plan_sequences_distinct:
  assumes "0 < cs" and "0 < rc"
  shows "distinct (concat (map chunk_sequences (plan_loop cs rc []))) \<longleftrightarrow> cs dvd rc \<or> rc \<le> cs"
proof -
  let ?q = "rc div cs" and ?r = "rc mod cs"
  have q: "0 \<le> ?q" and r: "0 \<le> ?r" "?r < cs"
    using assms by (simp_all add: pos_imp_zdiv_nonneg_iff)
  have disjoint: "{0..?q * cs - 1} \<inter> {?q * ?r..?q * ?r + ?r - 1} = {} \<longleftrightarrow> ?r = 0 \<or> ?q = 0"
  proof
    assume none: "{0..?q * cs - 1} \<inter> {?q * ?r..?q * ?r + ?r - 1} = {}"
    show "?r = 0 \<or> ?q = 0"
    proof (rule ccontr)
      assume "\<not> (?r = 0 \<or> ?q = 0)"
      with q r have "?q * ?r < ?q * cs" and "0 \<le> ?q * ?r" and "0 < ?r"
        by (auto intro: mult_strict_left_mono)
      then have "?q * ?r \<in> {0..?q * cs - 1} \<inter> {?q * ?r..?q * ?r + ?r - 1}" by auto
      with none show False by blast
    qed
  qed auto
  have small: "?q = 0 \<longleftrightarrow> rc < cs"
    using assms by (simp add: zdiv_eq_0_iff)
  have "cs dvd rc \<or> rc \<le> cs \<longleftrightarrow> ?r = 0 \<or> rc < cs"
    by (auto simp: dvd_eq_mod_eq_0)
  with disjoint small show ?thesis
    unfolding plan_sequences [OF assms] by (simp add: Int_commute)
qed

lemma plan_rows:
  assumes "0 < cs" and "0 < rc"
  shows "sum_list (map ch_row_count (plan_loop cs rc [])) = rc"
    and "map ch_chunk_index (plan_loop cs rc []) = map int [0..<length (plan_loop cs rc [])]"
    and "\<forall>c \<in> set (plan_loop cs rc []). 1 \<le> ch_row_count c \<and> ch_row_count c \<le> cs"
proof -
  have q: "0 \<le> rc div cs" and r: "0 \<le> rc mod cs" "rc mod cs < cs"
    using assms by (simp_all add: pos_imp_zdiv_nonneg_iff)
  note plan = plan_loop_eq [OF assms(1) less_imp_le [OF assms(2)], of "[]"]
  show "sum_list (map ch_row_count (plan_loop cs rc [])) = rc"
    unfolding plan using q by (simp add: comp_def sum_list_triv minus_mod_eq_div_mult [symmetric])
  show "map ch_chunk_index (plan_loop cs rc []) = map int [0..<length (plan_loop cs rc [])]"
    unfolding plan by (simp add: comp_def)
  show "\<forall>c \<in> set (plan_loop cs rc []). 1 \<le> ch_row_count c \<and> ch_row_count c \<le> cs"
    unfolding plan using assms r by (auto split: if_splits)
qed

section \<open>Cells\<close>

lemma plain_by_code: "list_all (\<lambda>s. s \<noteq> [] \<and> carriage_return \<notin> set s) xs \<Longrightarrow> s \<in> set xs \<Longrightarrow> plain_cell s"
  by (auto simp: plain_cell_def list_all_iff)

lemma catalog_texts_plain:
  "p \<in> set products \<Longrightarrow> plain_cell (pd_sku p) \<and> plain_cell (pd_name p) \<and> plain_cell (pd_category p)"
  "l \<in> set locations \<Longrightarrow> plain_cell (fst l) \<and> plain_cell (fst (snd l))"
  "s \<in> set (channels @ payment_methods @ history_statuses) \<Longrightarrow> plain_cell s"
proof -
  have "list_all (\<lambda>p. list_all (\<lambda>s. s \<noteq> [] \<and> carriage_return \<notin> set s) [pd_sku p, pd_name p, pd_category p]) products"
    by code_simp
  then show "p \<in> set products \<Longrightarrow> plain_cell (pd_sku p) \<and> plain_cell (pd_name p) \<and> plain_cell (pd_category p)"
    by (auto simp: plain_cell_def list_all_iff)
  have "list_all (\<lambda>l. list_all (\<lambda>s. s \<noteq> [] \<and> carriage_return \<notin> set s) [fst l, fst (snd l)]) locations"
    by code_simp
  then show "l \<in> set locations \<Longrightarrow> plain_cell (fst l) \<and> plain_cell (fst (snd l))"
    by (auto simp: plain_cell_def list_all_iff)
  have "list_all (\<lambda>s. s \<noteq> [] \<and> carriage_return \<notin> set s) (channels @ payment_methods @ history_statuses)"
    by code_simp
  then show "s \<in> set (channels @ payment_methods @ history_statuses) \<Longrightarrow> plain_cell s"
    by (rule plain_by_code)
qed

lemma draw_length: "length (fst (draw n f g)) = n"
  by (induction n arbitrary: g) (simp_all split: prod.split, metis fst_conv)

lemma draw_all:
  assumes "\<And>g. P (fst (f g))" and "x \<in> set (fst (draw n f g))"
  shows "P x"
  using assms(2)
proof (induction n arbitrary: g)
  case (Suc n)
  then show ?case
    using assms(1) by (auto split: prod.splits) (metis fst_conv)+
qed simp

lemma plain_cpf: "plain_cell (fst (generate_cpf R g))"
proof -
  obtain base g' where base: "draw 9 (rg_randint R 0 9) g = (base, g')"
    by (cases "draw 9 (rg_randint R 0 9) g")
  let ?b1 = "base @ [cpf_digit base]"
  have "carriage_return \<notin> set (int_str i)" for i using plain_int_str by (simp add: plain_cell_def)
  moreover have "int_str (cpf_digit ?b1) \<noteq> []" using plain_int_str by (simp add: plain_cell_def)
  ultimately show ?thesis
    by (auto simp: generate_cpf_def base cpf_of_def Let_def plain_cell_def)
qed

text \<open>What a generated row must be for the csv module and the tables.\<close>

definition row_plain :: "history_row \<Rightarrow> bool" where
  "row_plain r \<longleftrightarrow> (\<forall>c \<in> set (row_cells r). plain_cell c)"

lemma history_row_plain:
  assumes "rng_law R" and "length pool = nat cpf_pool_size" and "\<forall>c \<in> set pool. plain_cell c"
  shows "row_plain (fst (history_row_of R pool sequence g0))"
proof -
  have randint: "a \<le> b \<Longrightarrow> rg_randint R a b g = (n, g') \<Longrightarrow> a \<le> n \<and> n \<le> b" for a b g n g'
    using assms(1) unfolding rng_law_def by (metis fst_conv)
  have choice: "0 < m \<Longrightarrow> rg_choice R m g = (n, g') \<Longrightarrow> n < m" for m g n g'
    using assms(1) unfolding rng_law_def by (metis fst_conv)
  have weights: "ws \<noteq> [] \<Longrightarrow> rg_choices R ws g = (n, g') \<Longrightarrow> n < length ws" for ws g n g'
    using assms(1) unfolding rng_law_def by (metis fst_conv)
  have lengths: "length products = 18" "length locations = 20" "length channels = 5" "length payment_methods = 3"
    "length history_statuses = length status_weights" "status_weights \<noteq> []"
    by code_simp+
  have cpf: "plain_cell (pool ! nat (sequence mod cpf_pool_size))"
  proof -
    have "nat (sequence mod cpf_pool_size) < length pool"
      unfolding assms(2) by (simp add: cpf_pool_size_def)
    with assms(3) show ?thesis by simp
  qed
  have ids: "plain_cell (''CLI-'' @ zero_pad 8 n)" "plain_cell (''HIST-'' @ zero_pad 12 n)" for n
  proof -
    have "carriage_return \<notin> set ''CLI-''" "carriage_return \<notin> set ''HIST-''" by code_simp+
    with plain_append [OF plain_zero_pad] show "plain_cell (''CLI-'' @ zero_pad 8 n)"
      "plain_cell (''HIST-'' @ zero_pad 12 n)" by blast+
  qed
  obtain i g1 where 1: "rg_choice R (length products) g0 = (i, g1)" by fastforce
  obtain j g2 where 2: "rg_choice R (length locations) g1 = (j, g2)" by fastforce
  obtain q g3 where 3: "rg_randint R 1 max_items_per_order g2 = (q, g3)" by fastforce
  obtain p g4 where 4: "rg_uniform R (pd_min_price (products ! i)) (pd_max_price (products ! i)) g3 = (p, g4)" by fastforce
  obtain f g5 where 5: "rg_uniform R 0 max_freight g4 = (f, g5)" by fastforce
  obtain cl g6 where 6: "rg_randint R 1 client_universe g5 = (cl, g6)" by fastforce
  obtain dt g7 where 7: "random_order_date R g6 = (dt, g7)" by fastforce
  obtain c g8 where 8: "rg_choice R (length channels) g7 = (c, g8)" by fastforce
  obtain m g9 where 9: "rg_choice R (length payment_methods) g8 = (m, g9)" by fastforce
  obtain w g10 where 10: "rg_choices R status_weights g9 = (w, g10)" by fastforce
  have "products ! i \<in> set products" "locations ! j \<in> set locations"
    "channels ! c \<in> set (channels @ payment_methods @ history_statuses)"
    "payment_methods ! m \<in> set (channels @ payment_methods @ history_statuses)"
    "history_statuses ! w \<in> set (channels @ payment_methods @ history_statuses)"
    using choice [OF _ 1] choice [OF _ 2] choice [OF _ 8] choice [OF _ 9] weights [OF _ 10] lengths by auto
  note texts = catalog_texts_plain(1) [OF this(1)] catalog_texts_plain(2) [OF this(2)]
    catalog_texts_plain(3) [OF this(3)] catalog_texts_plain(3) [OF this(4)] catalog_texts_plain(3) [OF this(5)]
  obtain state city zip where loc: "locations ! j = (state, city, zip)" by (cases "locations ! j")
  show ?thesis
    using texts cpf ids plain_isoformat plain_int_str plain_price_str loc
    by (simp add: history_row_of_def Let_def 1 2 3 4 5 6 7 8 9 10 row_plain_def row_cells_def history_uid_def
        split: prod.split)
qed

lemma generate_from_plain:
  assumes "rng_law R" and "length pool = nat cpf_pool_size" and "\<forall>c \<in> set pool. plain_cell c"
  shows "\<forall>r \<in> set (generate_from R pool sequence n g). row_plain r"
proof (induction n arbitrary: sequence g)
  case (Suc n)
  then show ?case
    using history_row_plain [OF assms, of sequence g]
    by (cases "history_row_of R pool sequence g") simp
qed simp

lemma chunk_rows_plain:
  assumes "rng_law R"
  shows "\<forall>r \<in> set (chunk_rows R c). row_plain r"
proof -
  let ?g = "rg_seed R (chunk_seed_offset + ch_chunk_index c)"
  obtain pool g where pool: "draw (nat cpf_pool_size) (generate_cpf R) ?g = (pool, g)"
    by (cases "draw (nat cpf_pool_size) (generate_cpf R) ?g")
  have "length pool = nat cpf_pool_size"
    using draw_length [of "nat cpf_pool_size" "generate_cpf R" ?g] pool by simp
  moreover have "\<forall>c \<in> set pool. plain_cell c"
    using draw_all [of plain_cell "generate_cpf R" _ "nat cpf_pool_size" ?g, OF plain_cpf] pool by simp
  ultimately show ?thesis
    using generate_from_plain [OF assms] pool by (simp add: chunk_rows_def generate_rows_def)
qed

section \<open>Loading a chunk\<close>

definition chunk_cells :: "'g rng \<Rightarrow> chunk \<Rightarrow> cells list" where
  "chunk_cells R c = map (map Some \<circ> row_cells) (chunk_rows R c)"

lemma chunk_cells_fit:
  assumes "rng_law R"
  shows "\<forall>r \<in> set (chunk_cells R c). row_fits r \<and> r ! 0 \<noteq> None \<and> r ! 13 \<noteq> None \<and> r ! 3 \<noteq> None"
  by (auto simp: chunk_cells_def row_fits_def row_cells_def columns_def)

lemma chunk_cells_length:
  "length (chunk_cells R c) = nat (ch_row_count c)"
proof -
  have "length (generate_from R pool q n g) = n" for pool q n g
    by (induction n arbitrary: q g) (simp_all split: prod.split)
  then show ?thesis by (simp add: chunk_cells_def chunk_rows_def generate_rows_def split: prod.split)
qed

lemma read_in_batches_concat: "concat (read_in_batches n batch rs) = batch @ rs"
  by (induction n batch rs rule: read_in_batches.induct) (auto simp: Let_def)

lemma insert_batches_None:
  "\<forall>b \<in> set bs. \<forall>r \<in> set b. row_fits r \<Longrightarrow> insert_batches None bs t = (Inr (), t + mset (concat bs))"
  by (induction bs arbitrary: t) (simp_all add: ac_simps)

lemma insert_batches_Some:
  "\<forall>b \<in> set bs. \<forall>r \<in> set b. row_fits r \<Longrightarrow>
   insert_batches (Some k) bs t = (Inl ''connection lost'', t + mset (concat (take k bs)))"
proof (induction bs arbitrary: k t)
  case Nil
  then show ?case by (cases k) simp_all
next
  case (Cons b bs)
  then show ?case by (cases k) (simp_all add: ac_simps)
qed

lemma insert_batches_adds:
  assumes "insert_batches f bs t = (res, t')" and "\<forall>b \<in> set bs. \<forall>r \<in> set b. row_fits r"
  shows "(f = None \<longleftrightarrow> res = Inr ())
    \<and> t' = t + mset (concat (case f of None \<Rightarrow> bs | Some k \<Rightarrow> take k bs))"
  using assms insert_batches_None [of bs t] insert_batches_Some [of bs _ t]
  by (cases f) auto

lemma chunk_csv_records:
  assumes "rng_law R"
  shows "\<forall>row \<in> set (columns # map row_cells (chunk_rows R c)). row \<noteq> [] \<and> (\<forall>f \<in> set row. carriage_return \<notin> set f)"
proof -
  have "list_all (\<lambda>f. carriage_return \<notin> set f) columns" by code_simp
  then have "\<forall>f \<in> set columns. carriage_return \<notin> set f" by (simp only: list_all_iff)
  moreover have "columns \<noteq> []" by (simp add: columns_def)
  moreover have "\<forall>r \<in> set (chunk_rows R c). row_cells r \<noteq> [] \<and> (\<forall>f \<in> set (row_cells r). carriage_return \<notin> set f)"
    using chunk_rows_plain [OF assms, of c] by (auto simp: row_plain_def plain_cell_def row_cells_def)
  ultimately show ?thesis by auto
qed

lemma null_cells:
  assumes "rng_law R"
  shows "map (map (\<lambda>c. if c = [] then None else Some c)) (map row_cells (chunk_rows R c)) = chunk_cells R c"
  using chunk_rows_plain [OF assms, of c]
  by (auto simp: chunk_cells_def row_plain_def plain_cell_def)

definition strategy_batches :: "'g rng \<Rightarrow> load_strategy \<Rightarrow> chunk \<Rightarrow> cells list list" where
  "strategy_batches R strategy c =
     read_in_batches (if strategy = Bulk_Insert then bulk_insert_batch_size else executemany_batch_size) []
       (chunk_cells R c)"

lemma strategy_batches_concat: "concat (strategy_batches R strategy c) = chunk_cells R c"
  by (simp add: strategy_batches_def read_in_batches_concat)

lemma load_csv_adds:
  assumes "rng_law R" and "bulk_csv_law bulk_csv"
    and "load_csv bulk_csv strategy fault (chunk_csv R (ch_chunk_index c) (ch_row_count c)) t = (res, t')"
  shows "(fault = None \<longleftrightarrow> (\<exists>n. res = Inr n))
    \<and> t' = t + mset (concat (case fault of None \<Rightarrow> strategy_batches R strategy c
        | Some k \<Rightarrow> take k (strategy_batches R strategy c)))"
proof -
  define records where "records = columns # map row_cells (chunk_rows R c)"
  have csv: "chunk_csv R (ch_chunk_index c) (ch_row_count c) = csv_text records"
    by (simp add: chunk_csv_def chunk_rows_def records_def)
  have bulk: "bulk_csv (csv_text records) = Some records"
    using assms(2) chunk_csv_records [OF assms(1)] unfolding bulk_csv_law_def records_def by blast
  have own: "csv_rows (csv_text records) = Some records"
    using csv_round_trip [OF chunk_csv_records [OF assms(1)]] unfolding records_def .
  have nulls: "map (map (\<lambda>c. if c = [] then None else Some c)) (tl records) = chunk_cells R c"
    using null_cells [OF assms(1)] unfolding records_def list.sel .
  have somes: "map (map Some) (tl records) = chunk_cells R c"
    by (simp add: records_def chunk_cells_def)
  obtain ins t1 where ins: "insert_batches fault (strategy_batches R strategy c) t = (ins, t1)"
    by (cases "insert_batches fault (strategy_batches R strategy c) t")
  have "\<forall>b \<in> set (strategy_batches R strategy c). \<forall>r \<in> set b. row_fits r"
    using chunk_cells_fit [OF assms(1), of c] strategy_batches_concat [of R strategy c]
    by (metis UN_I set_concat)
  note added = insert_batches_adds [OF ins this]
  have "t' = t1 \<and> ((\<exists>k. res = Inr k) \<longleftrightarrow> ins = Inr ())"
  proof (cases strategy)
    case Bulk_Insert
    with assms(3) ins show ?thesis
      by (cases ins) (auto simp: csv load_csv_def load_with_bulk_insert_def bulk nulls strategy_batches_def)
  next
    case Fast_Executemany
    with assms(3) ins show ?thesis
      by (cases ins) (auto simp: csv load_csv_def load_with_fast_executemany_def own somes strategy_batches_def)
  qed
  with added show ?thesis by auto
qed

section \<open>The tasks\<close>

lemma generate_and_load_adds:
  assumes "rng_law R" and "bulk_csv_law bulk_csv"
    and "generate_and_load R bulk_csv strategy fault c w = (res, w')"
  shows "(fault = None \<longleftrightarrow> (\<exists>r. res = Inr r))
    \<and> wa_staging w' = wa_staging w + mset (concat (case fault of None \<Rightarrow> strategy_batches R strategy c
        | Some k \<Rightarrow> take k (strategy_batches R strategy c)))"
proof -
  obtain r t where load: "load_csv bulk_csv strategy fault (chunk_csv R (ch_chunk_index c) (ch_row_count c)) (wa_staging w) = (r, t)"
    by (cases "load_csv bulk_csv strategy fault (chunk_csv R (ch_chunk_index c) (ch_row_count c)) (wa_staging w)")
  have "wa_staging (write_chunk_csv R i n w) = wa_staging w" for i n by (simp add: write_chunk_csv_def)
  with assms(3) load have "wa_staging w' = t \<and> ((\<exists>x. res = Inr x) \<longleftrightarrow> (\<exists>n. r = Inr n))"
    by (cases r) (auto simp: generate_and_load_def Let_def)
  with load_csv_adds [OF assms(1,2) load] show ?thesis by simp
qed

text \<open>The rows that failed attempts of a chunk leave behind, with n retries left.\<close>

primrec leftovers :: "nat \<Rightarrow> 'g rng \<Rightarrow> load_strategy \<Rightarrow> nat option list \<Rightarrow> chunk \<Rightarrow> cells multiset" where
  "leftovers 0 R strategy faults c =
     (case next_fault faults of None \<Rightarrow> {#} | Some k \<Rightarrow> mset (concat (take k (strategy_batches R strategy c))))"
| "leftovers (Suc n) R strategy faults c =
     (case next_fault faults of None \<Rightarrow> {#}
      | Some k \<Rightarrow> mset (concat (take k (strategy_batches R strategy c))) + leftovers n R strategy (tl faults) c)"

lemma load_attempts_adds:
  assumes "rng_law R" and "bulk_csv_law bulk_csv"
    and "load_attempts n R bulk_csv strategy faults c w = (res, w')"
  shows "wa_staging w' = wa_staging w + leftovers n R strategy faults c
      + (if \<exists>r. res = Inr r then mset (chunk_cells R c) else {#})
    \<and> (next_fault faults = None \<longrightarrow> (\<exists>r. res = Inr r))"
  using assms(3)
proof (induction n arbitrary: faults w)
  case 0
  then have "generate_and_load R bulk_csv strategy (next_fault faults) c w = (res, w')" by simp
  note one = generate_and_load_adds [OF assms(1,2) this]
  show ?case
  proof (cases "next_fault faults")
    case None
    with one show ?thesis by (auto simp: strategy_batches_concat)
  next
    case (Some k)
    with one have "\<not> (\<exists>r. res = Inr r)" by simp
    with one Some show ?thesis by (simp only: leftovers.simps option.case if_False) simp
  qed
next
  case (Suc n)
  obtain r w1 where gen: "generate_and_load R bulk_csv strategy (next_fault faults) c w = (r, w1)"
    by (cases "generate_and_load R bulk_csv strategy (next_fault faults) c w")
  note one = generate_and_load_adds [OF assms(1,2) gen]
  show ?case
  proof (cases r)
    case (Inl e)
    with one obtain k where fault: "next_fault faults = Some k" by (cases "next_fault faults") auto
    from Suc.prems gen Inl have "load_attempts n R bulk_csv strategy (tl faults) c w1 = (res, w')" by simp
    from Suc.IH [OF this] one fault show ?thesis by (simp add: ac_simps)
  next
    case (Inr x)
    with one have "next_fault faults = None" by simp
    with Suc.prems gen Inr one show ?thesis by (auto simp: strategy_batches_concat)
  qed
qed

lemma load_chunks_adds:
  assumes "rng_law R" and "bulk_csv_law bulk_csv"
    and "load_chunks R bulk_csv strategy faults cs w = (res, w')"
  shows "((\<exists>rs. res = Inr rs) \<longrightarrow> wa_staging w' = wa_staging w + mset (concat (map (chunk_cells R) cs))
        + (\<Sum>c\<leftarrow>cs. leftovers load_retries R strategy (faults c) c))
    \<and> ((\<forall>c \<in> set cs. faults c = []) \<longrightarrow> (\<exists>rs. res = Inr rs))"
  using assms(3)
proof (induction cs arbitrary: w res w')
  case (Cons c cs)
  obtain r w1 where one: "load_attempts load_retries R bulk_csv strategy (faults c) c w = (r, w1)"
    by (cases "load_attempts load_retries R bulk_csv strategy (faults c) c w")
  obtain rs w2 where rest: "load_chunks R bulk_csv strategy faults cs w1 = (rs, w2)"
    by (cases "load_chunks R bulk_csv strategy faults cs w1")
  have out: "w' = w2" "(\<exists>x. res = Inr x) \<longleftrightarrow> (\<exists>x. r = Inr x) \<and> (\<exists>x. rs = Inr x)"
    using Cons.prems one rest by (cases r; cases rs; auto)+
  have first: "wa_staging w1 = wa_staging w + leftovers load_retries R strategy (faults c) c
      + (if \<exists>x. r = Inr x then mset (chunk_cells R c) else {#})"
    and quiet: "faults c = [] \<longrightarrow> (\<exists>x. r = Inr x)"
    using load_attempts_adds [OF assms(1,2) one] by (simp_all add: next_fault_def)
  show ?case
  proof (intro conjI impI)
    assume "\<exists>x. res = Inr x"
    with out have "\<exists>x. r = Inr x" "\<exists>x. rs = Inr x" by blast+
    with first Cons.IH [OF rest] out(1) show "wa_staging w' = wa_staging w + mset (concat (map (chunk_cells R) (c # cs)))
        + (\<Sum>c\<leftarrow>c # cs. leftovers load_retries R strategy (faults c) c)"
      by (simp add: ac_simps)
  next
    assume "\<forall>c' \<in> set (c # cs). faults c' = []"
    with quiet Cons.IH [OF rest] show "\<exists>x. res = Inr x" unfolding out(2) by simp
  qed
qed simp

lemma leftovers_quiet: "faults = [] \<Longrightarrow> leftovers n R strategy faults c = {#}"
  by (cases n) (simp_all add: next_fault_def)

lemma read_in_batches_nonempty: "b \<in> set (read_in_batches n batch rs) \<Longrightarrow> b \<noteq> []"
  by (induction n batch rs rule: read_in_batches.induct) (auto simp: Let_def split: if_splits)

lemma leftovers_partial:
  assumes "0 < ch_row_count c" and "faults = Some (Suc k) # fs"
  shows "leftovers n R strategy faults c \<noteq> {#}"
proof -
  have "concat (strategy_batches R strategy c) \<noteq> []"
    using assms(1) chunk_cells_length [of R c] unfolding strategy_batches_concat by auto
  then obtain b bs where bs: "strategy_batches R strategy c = b # bs"
    by (cases "strategy_batches R strategy c") auto
  then have "b \<noteq> []" using read_in_batches_nonempty unfolding strategy_batches_def by (metis list.set_intros(1))
  with bs assms(2) show ?thesis by (cases n) (simp_all add: next_fault_def)
qed

lemma int_sum_list: "int (sum_list xs) = sum_list (map int xs)"
  by (induction xs) simp_all

lemma planned_size:
  assumes "0 < cs" and "0 < rc"
  shows "int (size (mset (concat (map (chunk_cells R) (plan_loop cs rc []))))) = rc"
proof -
  have "int (length (concat (map (chunk_cells R) (plan_loop cs rc []))))
      = (\<Sum>c\<leftarrow>plan_loop cs rc []. int (nat (ch_row_count c)))"
    by (simp add: length_concat comp_def chunk_cells_length int_sum_list)
  also have "\<dots> = (\<Sum>c\<leftarrow>plan_loop cs rc []. ch_row_count c)"
    using plan_rows(3) [OF assms] by (intro arg_cong [of _ _ sum_list] map_cong) auto
  finally show ?thesis using plan_rows(1) [OF assms] by simp
qed

end
