(* ===== verification/Bulk_Claims.thy ===== *)
theory Bulk_Claims
  imports Bulk_Proofs
begin

text \<open>
  The properties of the order history load (airflow/dags): the plan and the order ids it yields, what
  a validated load holds, the retry of a chunk that was partly loaded, and the check digits of the
  generated documents.
\<close>

section \<open>Properties\<close>

text \<open>A random source and a server for the witnesses.\<close>

definition flat_rng :: "nat rng" where
  "flat_rng = \<lparr>rg_seed = (\<lambda>i. 0), rg_randint = (\<lambda>a b g. (a, g)), rg_choice = (\<lambda>n g. (0, g)),
     rg_uniform = (\<lambda>a b g. (a, g)), rg_choices = (\<lambda>ws g. (0, g))\<rparr>"

lemma flat_rng_law: "rng_law flat_rng"
  by (simp add: rng_law_def flat_rng_def)

lemma csv_rows_law: "bulk_csv_law csv_rows"
  unfolding bulk_csv_law_def using csv_round_trip by blast

definition used_warehouse :: warehouse where
  "used_warehouse = \<lparr>wa_staging = {#[]#}, wa_fact = {#[]#},
     wa_files = [(''order_history_0007.csv'', ''old''), (''notes.txt'', ''keep'')]\<rparr>"

text \<open>
  C39. A plan numbers its chunks from 0, gives each between 1 and \<open>chunk_size\<close> rows and covers
  \<open>row_count\<close> rows in all; a count or size that is not positive is an error. Whatever the random
  source, the order ids of the planned rows are all different exactly when the size divides the count
  or one chunk is enough: a shorter last chunk starts its ids at its index times its own length and
  repeats ids of the full chunks.
\<close>

theorem order_ids_are_distinct_iff:
  "case plan_chunks row_count chunk_size of
     Inl e \<Rightarrow> row_count \<le> 0 \<or> chunk_size \<le> 0
   | Inr chunks \<Rightarrow>
       sum_list (map ch_row_count chunks) = row_count
       \<and> map ch_chunk_index chunks = map int [0..<length chunks]
       \<and> (\<forall>c \<in> set chunks. 1 \<le> ch_row_count c \<and> ch_row_count c \<le> chunk_size)
       \<and> (distinct (concat (map (\<lambda>c. map hr_order_uid (generate_rows R (ch_chunk_index c) (ch_row_count c))) chunks))
          \<longleftrightarrow> chunk_size dvd row_count \<or> row_count \<le> chunk_size)"
proof (cases "row_count \<le> 0 \<or> chunk_size \<le> 0")
  case True
  then show ?thesis by (simp add: plan_chunks_def)
next
  case False
  then have pos: "0 < chunk_size" "0 < row_count" by simp_all
  let ?plan = "plan_loop chunk_size row_count []"
  have nonneg: "\<forall>c \<in> set ?plan. 0 \<le> ch_chunk_index c"
  proof -
    have "set (map ch_chunk_index ?plan) \<subseteq> {0..}" unfolding plan_rows(2) [OF pos] by auto
    then show ?thesis by auto
  qed
  have "concat (map (\<lambda>c. map hr_order_uid (generate_rows R (ch_chunk_index c) (ch_row_count c))) ?plan)
      = concat (map (\<lambda>c. map history_uid (chunk_sequences c)) ?plan)"
    using plan_rows(3) [OF pos] chunk_uids [of _ R] unfolding chunk_rows_def by (intro arg_cong [of _ _ concat] map_cong) auto
  also have "\<dots> = map history_uid (concat (map chunk_sequences ?plan))"
    by (simp add: map_concat comp_def)
  finally have uids: "concat (map (\<lambda>c. map hr_order_uid (generate_rows R (ch_chunk_index c) (ch_row_count c))) ?plan)
      = map history_uid (concat (map chunk_sequences ?plan))" .
  have "inj_on history_uid (set (concat (map chunk_sequences ?plan)))"
  proof (rule inj_onI)
    have "0 \<le> x" if "x \<in> set (concat (map chunk_sequences ?plan))" for x
    proof -
      from that obtain c where "c \<in> set ?plan" and x: "x \<in> set (chunk_sequences c)" by auto
      with nonneg plan_rows(3) [OF pos] have "0 \<le> ch_chunk_index c * ch_row_count c" by fastforce
      with x show ?thesis by (simp add: chunk_sequences_def)
    qed
    then show "x = y" if "x \<in> set (concat (map chunk_sequences ?plan))"
      "y \<in> set (concat (map chunk_sequences ?plan))" "history_uid x = history_uid y" for x y
      using that history_uid_inj by blast
  qed
  then have "distinct (map history_uid (concat (map chunk_sequences ?plan)))
      \<longleftrightarrow> distinct (concat (map chunk_sequences ?plan))"
    by (simp only: distinct_map simp_thms)
  with plan_sequences_distinct [OF pos] plan_rows [OF pos] False show ?thesis
    by (simp add: plan_chunks_def uids)
qed

theorem order_ids_are_distinct_iff_witness:
  "\<exists>chunks. plan_chunks 5 2 = Inr chunks
    \<and> \<not> distinct (concat (map (\<lambda>c. map hr_order_uid (generate_rows flat_rng (ch_chunk_index c) (ch_row_count c))) chunks))"
proof -
  have "plan_chunks 5 2 = Inr (plan_loop 2 5 [])" by (simp add: plan_chunks_def)
  moreover have "\<not> (2::int) dvd 5" by simp
  ultimately show ?thesis using order_ids_are_distinct_iff [of 5 2 flat_rng] by simp
qed

text \<open>A run whose chunks were all loaded: the staging table holds the planned rows and what failed attempts left.\<close>

lemma loaded_run:
  assumes "rng_law R" and "bulk_csv_law bulk_csv" and plan: "plan_chunks row_count chunk_size = Inr chunks"
    and load: "load_chunks R bulk_csv strategy faults chunks (prepare_staging w) = (Inr l, w1)"
    and run: "load_order_history R bulk_csv strategy row_count chunk_size faults w = (res, w')"
  defines "rows \<equiv> mset (concat (map (chunk_cells R) chunks))"
    and "left \<equiv> (\<Sum>c\<leftarrow>chunks. leftovers load_retries R strategy (faults c) c)"
  shows "int (size rows) = row_count" and "wa_staging w1 = rows + left"
    and "w' = cleanup (w1\<lparr>wa_fact := wa_staging w1\<rparr>)"
    and "res = validate_load row_count (int (size (wa_staging w1))) (w1\<lparr>wa_fact := wa_staging w1\<rparr>)"
proof -
  have "0 < chunk_size" "0 < row_count" "chunks = plan_loop chunk_size row_count []"
    using plan by (simp_all add: plan_chunks_def split: if_splits)
  then show "int (size rows) = row_count" using planned_size unfolding rows_def by simp
  show "wa_staging w1 = rows + left"
    using load_chunks_adds [OF assms(1,2) load] by (simp add: prepare_staging_def rows_def left_def)
  show "w' = cleanup (w1\<lparr>wa_fact := wa_staging w1\<rparr>)"
    and "res = validate_load row_count (int (size (wa_staging w1))) (w1\<lparr>wa_fact := wa_staging w1\<rparr>)"
    using run plan load by (simp_all add: load_order_history_def load_fact_def count_fact_rows_def Let_def)
qed

lemma complete_rows:
  assumes "rng_law R" and "wa_fact w = mset (concat (map (chunk_cells R) chunks))"
  shows "count_incomplete_rows w = 0"
proof -
  have "\<forall>r \<in># wa_fact w. r ! 0 \<noteq> None \<and> r ! 13 \<noteq> None \<and> r ! 3 \<noteq> None"
    using chunk_cells_fit [OF assms(1)] unfolding assms(2) by fastforce
  then show ?thesis by (auto simp: count_incomplete_rows_def)
qed

text \<open>
  C9. Over a server that reads RFC 4180 files, with either strategy and whatever the attempts of the
  chunks meet: no chunk file is left in the directory; a run that reports success has a fact table
  that holds exactly the generated rows of every planned chunk, each once, and reports that many; and
  a run whose attempts meet no fault succeeds.
\<close>

theorem validated_load_is_exact:
  assumes "rng_law R" and "bulk_csv_law bulk_csv"
    and "load_order_history R bulk_csv strategy row_count chunk_size faults w = (res, w')"
  shows "(\<forall>(name, text) \<in> set (wa_files w'). \<not> is_chunk_file name)
    \<and> (\<forall>rep. res = Inr rep \<longrightarrow> lr_rows rep = row_count \<and> lr_expected rep = row_count
         \<and> (\<exists>chunks. plan_chunks row_count chunk_size = Inr chunks
              \<and> wa_fact w' = mset (concat (map (\<lambda>c. map (map Some \<circ> row_cells)
                    (generate_rows R (ch_chunk_index c) (ch_row_count c))) chunks))))
    \<and> (0 < row_count \<longrightarrow> 0 < chunk_size \<longrightarrow> (\<forall>c. faults c = []) \<longrightarrow> (\<exists>rep. res = Inr rep))"
proof (cases "plan_chunks row_count chunk_size")
  case (Inl e)
  with assms(3) show ?thesis
    by (auto simp: load_order_history_def cleanup_def plan_chunks_def Let_def split: if_splits)
next
  case plan: (Inr chunks)
  obtain rs w1 where load: "load_chunks R bulk_csv strategy faults chunks (prepare_staging w) = (rs, w1)"
    by (cases "load_chunks R bulk_csv strategy faults chunks (prepare_staging w)")
  let ?left = "\<Sum>c\<leftarrow>chunks. leftovers load_retries R strategy (faults c) c"
  have quiet: "?left = {#}" if "\<forall>c. faults c = []"
    using that by (induction chunks) (simp_all add: leftovers_quiet)
  have cells: "chunk_cells R = (\<lambda>c. map (map Some \<circ> row_cells) (generate_rows R (ch_chunk_index c) (ch_row_count c)))"
    by (rule ext) (simp add: chunk_cells_def chunk_rows_def)
  show ?thesis
  proof (cases rs)
    case (Inl e)
    with assms(3) plan load have "res = Inl e" "w' = cleanup w1"
      by (simp_all add: load_order_history_def)
    with load_chunks_adds [OF assms(1,2) load] Inl show ?thesis by (auto simp: cleanup_def)
  next
    case (Inr l)
    note run = loaded_run [OF assms(1,2) plan load [unfolded Inr] assms(3)]
    have "lr_rows rep = row_count \<and> lr_expected rep = row_count \<and> ?left = {#}" if "res = Inr rep" for rep
      using that run(1,2,4) by (auto simp: validate_load_def split: if_splits)
    moreover have "\<exists>rep. res = Inr rep" if "?left = {#}"
      using complete_rows [OF assms(1), of "w1\<lparr>wa_fact := wa_staging w1\<rparr>" chunks] run(1,2,4) that
      by (simp add: validate_load_def)
    ultimately show ?thesis
      using plan run(2,3) quiet by (auto simp: cleanup_def cells)
  qed
qed

theorem validated_load_is_exact_witness:
  "\<exists>rep w'. load_order_history flat_rng csv_rows Bulk_Insert 5 2 (\<lambda>c. []) used_warehouse = (Inr rep, w')
    \<and> lr_rows rep = 5
    \<and> (\<exists>chunks. plan_chunks 5 2 = Inr chunks \<and> map ch_row_count chunks = [2, 2, 1]
         \<and> wa_fact w' = mset (concat (map (\<lambda>c. map (map Some \<circ> row_cells)
               (generate_rows flat_rng (ch_chunk_index c) (ch_row_count c))) chunks)))"
proof -
  obtain res w' where run: "load_order_history flat_rng csv_rows Bulk_Insert 5 2 (\<lambda>c. []) used_warehouse = (res, w')"
    by (cases "load_order_history flat_rng csv_rows Bulk_Insert 5 2 (\<lambda>c. []) used_warehouse")
  note exact = validated_load_is_exact [OF flat_rng_law csv_rows_law run]
  have "plan_chunks 5 2 = Inr [\<lparr>ch_chunk_index = 0, ch_row_count = 2\<rparr>, \<lparr>ch_chunk_index = 1, ch_row_count = 2\<rparr>,
      \<lparr>ch_chunk_index = 2, ch_row_count = 1\<rparr>]"
    by code_simp
  with exact run show ?thesis by fastforce
qed

text \<open>
  A chunk whose first attempt fails after at least one batch is committed makes the run fail,
  whatever the retries do: the retry loads the chunk from its start, the committed batches stay, and
  the validation finds more rows than planned.
\<close>

lemma retried_partial_load_is_refused:
  assumes "rng_law R" and "bulk_csv_law bulk_csv"
    and "plan_chunks row_count chunk_size = Inr chunks" and "c \<in> set chunks" and "faults c = Some (Suc k) # later"
    and "load_order_history R bulk_csv strategy row_count chunk_size faults w = (res, w')"
  shows "\<exists>e. res = Inl e"
proof -
  obtain rs w1 where load: "load_chunks R bulk_csv strategy faults chunks (prepare_staging w) = (rs, w1)"
    by (cases "load_chunks R bulk_csv strategy faults chunks (prepare_staging w)")
  let ?left = "\<Sum>c\<leftarrow>chunks. leftovers load_retries R strategy (faults c) c"
  show ?thesis
  proof (cases rs)
    case (Inl e)
    with assms(3,6) load show ?thesis by (auto simp: load_order_history_def Let_def)
  next
    case (Inr l)
    note run = loaded_run [OF assms(1-3) load [unfolded Inr] assms(6)]
    have "0 < ch_row_count c"
      using plan_rows(3) [of chunk_size row_count] assms(3,4) by (fastforce simp: plan_chunks_def split: if_splits)
    then have "leftovers load_retries R strategy (faults c) c \<noteq> {#}"
      using assms(5) by (rule leftovers_partial)
    moreover from assms(4) have "leftovers load_retries R strategy (faults c) c \<subseteq># ?left"
      by (induction chunks) (auto intro: subset_mset.order_trans)
    ultimately have "?left \<noteq> {#}" by auto
    then have "int (size (wa_staging w1)) \<noteq> row_count" using run(1,2) by simp
    then show ?thesis using run(4) by (simp add: validate_load_def)
  qed
qed

definition one_cut :: "chunk \<Rightarrow> nat option list" where
  "one_cut c = (if ch_chunk_index c = 0 then [Some 1] else [])"

lemma retried_partial_load_is_refused_example:
  "\<exists>e w'. load_order_history flat_rng csv_rows Fast_Executemany 5 2 one_cut used_warehouse = (Inl e, w')"
proof -
  obtain res w' where run: "load_order_history flat_rng csv_rows Fast_Executemany 5 2 one_cut used_warehouse = (res, w')"
    by (cases "load_order_history flat_rng csv_rows Fast_Executemany 5 2 one_cut used_warehouse")
  have plan: "plan_chunks 5 2 = Inr [\<lparr>ch_chunk_index = 0, ch_row_count = 2\<rparr>, \<lparr>ch_chunk_index = 1, ch_row_count = 2\<rparr>,
      \<lparr>ch_chunk_index = 2, ch_row_count = 1\<rparr>]"
    by code_simp
  have fault: "one_cut \<lparr>ch_chunk_index = 0, ch_row_count = 2\<rparr> = Some (Suc 0) # []" by (simp add: one_cut_def)
  from retried_partial_load_is_refused [OF flat_rng_law csv_rows_law plan list.set_intros(1) fault run]
  show ?thesis using run by blast
qed

section \<open>Check digits\<close>

text \<open>The published rule for a CPF's check digit, over the digits before it with weights down to 2.\<close>

definition official_digit :: "int list \<Rightarrow> int" where
  "official_digit ns =
     (let r = (\<Sum>i<length ns. ns ! i * (int (length ns) + 1 - int i)) mod 11 in if r < 2 then 0 else 11 - r)"

lemma weighted_sum_eq: "weighted_sum w ns = (\<Sum>i<length ns. ns ! i * (w - int i))"
proof (induction ns arbitrary: w)
  case (Cons n ns)
  have "(\<Sum>i<length (n # ns). (n # ns) ! i * (w - int i)) = n * w + (\<Sum>i<length ns. ns ! i * (w - 1 - int i))"
    by (simp add: sum.lessThan_Suc_shift algebra_simps del: sum.lessThan_Suc)
  with Cons show ?case by simp
qed simp

lemma cpf_digit_official: "cpf_digit ns = official_digit ns"
proof -
  have "(let r = t * 10 mod 11 in if r = 10 then 0 else r) = (let r = t mod 11 in if r < 2 then 0 else 11 - r)"
    for t :: int
  proof -
    have "t * 10 mod 11 = t mod 11 * 10 mod 11" by (simp add: mod_mult_left_eq)
    moreover have "t mod 11 = 0 \<or> t mod 11 = 1 \<or> t mod 11 = 2 \<or> t mod 11 = 3 \<or> t mod 11 = 4 \<or> t mod 11 = 5
        \<or> t mod 11 = 6 \<or> t mod 11 = 7 \<or> t mod 11 = 8 \<or> t mod 11 = 9 \<or> t mod 11 = 10"
      by presburger
    ultimately show ?thesis by (elim disjE) simp_all
  qed
  then show ?thesis
    by (simp add: cpf_digit_def official_digit_def weighted_sum_eq Let_def)
qed

lemma official_digit_range: "0 \<le> official_digit ns \<and> official_digit ns \<le> 9"
proof -
  have "0 \<le> t mod 11" "t mod 11 < 11" for t :: int by simp_all
  then show ?thesis unfolding official_digit_def Let_def by (smt (verit))
qed

lemma digit_str: "0 \<le> d \<Longrightarrow> d \<le> 9 \<Longrightarrow> length (int_str d) = 1"
  by (simp add: int_str_def nat_str.simps)

text \<open>
  A generated document has eleven decimal digits, and its last two are the check digits of the
  published rule over the digits before them, for every source of random digits.
\<close>

lemma generated_cpf_is_valid:
  assumes "rng_law R"
  shows "\<exists>ds. fst (generate_cpf R g) = concat (map int_str ds) \<and> length ds = 11
    \<and> (\<forall>d \<in> set ds. 0 \<le> d \<and> d \<le> 9) \<and> length (fst (generate_cpf R g)) = 11
    \<and> ds ! 9 = official_digit (take 9 ds) \<and> ds ! 10 = official_digit (take 10 ds)"
proof -
  obtain base g' where base: "draw 9 (rg_randint R 0 9) g = (base, g')"
    by (cases "draw 9 (rg_randint R 0 9) g")
  have len: "length base = 9" using draw_length [of 9 "rg_randint R 0 9" g] base by simp
  have "0 \<le> fst (rg_randint R 0 9 h) \<and> fst (rg_randint R 0 9 h) \<le> 9" for h
    using assms unfolding rng_law_def by simp
  from draw_all [of "\<lambda>d. 0 \<le> d \<and> d \<le> 9" "rg_randint R 0 9", OF this, of _ 9 g]
  have digits: "\<forall>d \<in> set base. 0 \<le> d \<and> d \<le> 9"
    unfolding base fst_conv by blast
  let ?d1 = "official_digit base" let ?d2 = "official_digit (base @ [?d1])"
  define ds where "ds = base @ [?d1, ?d2]"
  have text_of: "fst (generate_cpf R g) = concat (map int_str ds)"
    by (simp add: ds_def generate_cpf_def base cpf_of_def cpf_digit_official)
  have all: "\<forall>d \<in> set ds. 0 \<le> d \<and> d \<le> 9" using digits official_digit_range by (auto simp: ds_def)
  have "length (concat (map int_str ds)) = sum_list (map (\<lambda>d. 1) ds)"
    unfolding length_concat map_map using all by (intro arg_cong [of _ _ sum_list] map_cong) (auto simp: digit_str)
  then have "length (concat (map int_str ds)) = 11" using len by (simp add: ds_def sum_list_triv)
  moreover have "ds ! 9 = official_digit (take 9 ds)" "ds ! 10 = official_digit (take 10 ds)"
    using len by (simp_all add: ds_def nth_append)
  moreover have "length ds = 11" using len by (simp add: ds_def)
  ultimately show ?thesis using text_of all by auto
qed

lemma generated_cpf_example:
  "fst (generate_cpf flat_rng 0) = ''00000000000'' \<and>
   (\<exists>ds. fst (generate_cpf flat_rng 0) = concat (map int_str ds) \<and> length ds = 11
      \<and> ds ! 9 = official_digit (take 9 ds) \<and> ds ! 10 = official_digit (take 10 ds))"
proof -
  have "fst (generate_cpf flat_rng 0) = ''00000000000''" by code_simp
  with generated_cpf_is_valid [OF flat_rng_law, of 0] show ?thesis by blast
qed

end
