(* ===== verification/System.thy ===== *)
theory System
  imports Dispatch_Proofs History_Claims Erp_Mock
begin

text \<open>
  The parts that meet in the database and at the ERP, as one transition system: the ingest worker's
  processor, the dispatch workers with the messages they hold and the answers they wait for, and the
  ERP. Every step is one call of the code's model; which step comes next, the clocks, the faults, the
  loss of answers and the death of workers are free.
\<close>

section \<open>The system\<close>

record 'r system =
  sy_db :: db
  sy_redis :: 'r
  sy_erp :: erp
  sy_items :: "outbox_item list"
  sy_answers :: "(outbox_item \<times> http_result) list"

text \<open>The processor as the worker builds it (src/ingest_worker/main.py).\<close>

definition worker_processor :: "('d, 'r) processor \<Rightarrow> ('d, 'r) processor" where
  "worker_processor p = p\<lparr>pr_registry := build_registry\<rparr>"

definition start_system :: "'r system \<Rightarrow> bool" where
  "start_system y \<longleftrightarrow> sy_db y = empty_db \<and> sy_erp y = empty_erp \<and> sy_items y = [] \<and> sy_answers y = []"

text \<open>
  \<open>redis\<close>: keys expire and Redis comes and goes. \<open>request\<close>: the ERP answers a request of a worker that
  holds the message, and the answer may be lost. \<open>no_answer\<close>: the network answers instead, with
  anything but a success. \<open>settle\<close>: the worker stores the outcome of an answer. \<open>crash\<close>: workers die with
  what they hold.
\<close>

inductive dispatch_step :: "settings \<Rightarrow> (json \<Rightarrow> string) \<Rightarrow> 'r system \<Rightarrow> 'r system \<Rightarrow> bool" for s str_of where
  redis: "dispatch_step s str_of y (y\<lparr>sy_redis := r\<rparr>)"
| claim: "claim_batch s worker env visible (sy_db y) = (Inr items, d) \<Longrightarrow>
    dispatch_step s str_of y (y\<lparr>sy_db := d, sy_items := sy_items y @ items\<rparr>)"
| claim_failed: "claim_batch s worker env visible (sy_db y) = (Inl x, d) \<Longrightarrow>
    dispatch_step s str_of y (y\<lparr>sy_db := d\<rparr>)"
| release: "release_abandoned env (sy_db y) = (res, d) \<Longrightarrow> dispatch_step s str_of y (y\<lparr>sy_db := d\<rparr>)"
| request: "i \<in> set (sy_items y) \<Longrightarrow>
    receive_order s str_of x (idempotency_key i) (ox_payload i) (sy_erp y) = (a, e) \<Longrightarrow>
    dispatch_step s str_of y (y\<lparr>sy_erp := e, sy_answers := sy_answers y @ [(i, http_of lost a)]\<rparr>)"
| no_answer: "i \<in> set (sy_items y) \<Longrightarrow> send_order str_of hr = Inl x \<Longrightarrow>
    dispatch_step s str_of y (y\<lparr>sy_answers := sy_answers y @ [(i, hr)]\<rparr>)"
| settle: "(i, hr) \<in> set (sy_answers y) \<Longrightarrow> dispatch s str_of env hr i (sy_db y) = (res, d) \<Longrightarrow>
    dispatch_step s str_of y (y\<lparr>sy_db := d, sy_answers := remove1 (i, hr) (sy_answers y)\<rparr>)"
| crash: "set items \<subseteq> set (sy_items y) \<Longrightarrow> set answers \<subseteq> set (sy_answers y) \<Longrightarrow>
    dispatch_step s str_of y (y\<lparr>sy_items := items, sy_answers := answers\<rparr>)"

text \<open>The whole: the dispatch side, and an ingest worker that processes any event.\<close>

inductive system_step ::
  "settings \<Rightarrow> ('d, 'r) processor \<Rightarrow> (json \<Rightarrow> string) \<Rightarrow> 'r system \<Rightarrow> 'r system \<Rightarrow> bool"
  for s p str_of where
  ingest: "process (worker_processor p) clk fault e (sy_db y, sy_redis y) = (res, d, r) \<Longrightarrow>
    system_step s p str_of y (y\<lparr>sy_db := d, sy_redis := r\<rparr>)"
| others: "dispatch_step s str_of y y' \<Longrightarrow> system_step s p str_of y y'"

inductive_cases dispatch_stepE: "dispatch_step s str_of y y'"

lemma dispatch_step_only:
  assumes "dispatch_step s str_of y y'"
  shows "outbox_only (sy_db y) (sy_db y')"
  using assms
  by cases (simp_all add: outbox_only_refl claim_batch_only release_abandoned_only dispatch_only)

section \<open>Messages never change\<close>

definition row_key :: "outbox_row \<Rightarrow> string" where
  "row_key r = idempotency_key (to_item r)"

definition message :: "outbox_row \<Rightarrow> int \<times> string \<times> json" where
  "message r = (ob_outbox_id r, ob_aggregate_id r, ob_payload r)"

definition item_message :: "outbox_item \<Rightarrow> int \<times> string \<times> json" where
  "item_message i = (ox_outbox_id i, ox_aggregate_id i, ox_payload i)"

definition messages :: "db \<Rightarrow> (int \<times> string \<times> json) set" where
  "messages d = message ` set (outbox d)"

lemma item_message_to_item: "item_message (to_item r) = message r"
  by (simp add: item_message_def to_item_def message_def)

lemma key_of_message: "item_message i = message r \<Longrightarrow> idempotency_key i = row_key r"
  by (simp add: item_message_def message_def row_key_def idempotency_key_def to_item_def)

lemma outbox_only_messages: "outbox_only d d' \<Longrightarrow> messages d' = messages d"
proof -
  assume "outbox_only d d'"
  then have "map message (outbox d') = map message (outbox d)"
    by (auto simp: outbox_only_def same_message_def message_def map_upd_where_same)
  then show ?thesis unfolding messages_def by (metis set_map)
qed

lemma process_messages:
  assumes "pr_registry p = build_registry" and "db_ok d" and "process p clk fault e (d, r) = (res, d', r')"
  shows "messages d \<subseteq> messages d'"
proof -
  have "registry_ok (pr_registry p)" by (simp add: assms(1) build_registry_ok)
  from process_grows [OF this assms(2,3)] have "prefix (outbox d) (outbox d')"
    by (simp add: rows_grow_def)
  then show ?thesis unfolding messages_def by (intro image_mono set_mono_prefix)
qed

section \<open>The ERP's part\<close>

text \<open>The successes of \<open>send_order\<close> are the ERP's own acknowledgements, and those leave the key stored.\<close>

lemma key_nonempty: "idempotency_key i \<noteq> []"
  by (simp add: idempotency_key_def)

lemma http_of_success:
  assumes "send_order str_of (http_of lost a) = Inr resp" and "receive_order s str_of x key payload e = (a, e')"
  shows "\<exists>k. a = Inr k"
proof (cases a)
  case (Inl f)
  with assms(2) have "maybe_fail s x = Some f"
    by (auto simp: receive_order_def split: option.splits prod.splits)
  then have code: "fst f = 500 \<or> fst f = 503"
    by (auto simp: maybe_fail_def server_error_codes_def less_Suc_eq nth_Cons' split: if_splits)
  with assms(1) Inl show ?thesis
    by (cases f) (auto simp: http_of_def send_order_def raise_for_status_def retryable_status_codes_def split: if_splits)
qed blast

definition erp_keys :: "erp \<Rightarrow> string set" where
  "erp_keys e = fst ` set (erp_acknowledged_by_key e)"

text \<open>What one request can do to the ERP's state.\<close>

definition registered :: "string \<Rightarrow> erp_record \<Rightarrow> erp \<Rightarrow> erp" where
  "registered key rec1 e =
     \<lparr>erp_acknowledged_by_key = AList.update key rec1 (erp_acknowledged_by_key e),
      erp_id_by_order = AList.update (ek_order_uid rec1) (ek_erp_order_id rec1) (erp_id_by_order e)\<rparr>"

lemma erp_keys_registered: "erp_keys (registered key rec1 e) = insert key (erp_keys e)"
  by (simp add: erp_keys_def registered_def dom_update)

lemma receive_order_erp:
  assumes "receive_order s str_of x key payload e = (a, e')" and "key \<noteq> []"
  shows "(e' = e \<and> (\<forall>k. a = Inr k \<longrightarrow> key \<in> erp_keys e))
    \<or> (\<exists>rec1. ek_order_uid rec1 = payload_order_uid str_of payload \<and> e' = registered key rec1 e)"
proof (cases "map_of (erp_acknowledged_by_key e) key")
  case (Some rec0)
  then have "key \<in> erp_keys e" unfolding erp_keys_def by (force dest: map_of_SomeD)
  with assms Some show ?thesis by (auto simp: receive_order_def already_received_def)
next
  case None
  show ?thesis
  proof (cases "maybe_fail s x")
    case (Some f)
    with assms None show ?thesis by (auto simp: receive_order_def already_received_def)
  next
    case fine: None
    obtain rec1 e1 where reg: "erp_register str_of x payload e = (rec1, e1)"
      by (cases "erp_register str_of x payload e")
    then have rec1: "ek_order_uid rec1 = payload_order_uid str_of payload"
      "e1 = e\<lparr>erp_id_by_order := AList.update (ek_order_uid rec1) (ek_erp_order_id rec1) (erp_id_by_order e)\<rparr>"
      by (auto simp: erp_register_def Let_def)
    from assms None fine reg have "e' = registered key rec1 e"
      by (cases e) (auto simp: receive_order_def already_received_def finish_order_def registered_def rec1(2))
    with rec1(1) show ?thesis by blast
  qed
qed

section \<open>The invariant\<close>

text \<open>
  The database is well formed; what workers hold are messages of the outbox; the ERP has only keys
  and orders of such messages; a successful answer in flight and a message marked SENT have their key
  at the ERP.
\<close>

definition held_ok :: "outbox_item list \<Rightarrow> (outbox_item \<times> http_result) list \<Rightarrow> db \<Rightarrow> bool" where
  "held_ok items answers d \<longleftrightarrow> item_message ` (set items \<union> fst ` set answers) \<subseteq> messages d"

definition erp_ok :: "(json \<Rightarrow> string) \<Rightarrow> erp \<Rightarrow> db \<Rightarrow> bool" where
  "erp_ok str_of e d \<longleftrightarrow>
     (\<forall>(key, rec1) \<in> set (erp_acknowledged_by_key e). \<exists>(n, uid, j) \<in> messages d.
        key = ''outbox-'' @ int_str n \<and> ek_order_uid rec1 = str_of (JStr uid))
     \<and> (\<forall>(uid', eid) \<in> set (erp_id_by_order e). \<exists>(n, uid, j) \<in> messages d. uid' = str_of (JStr uid))"

definition acks_ok :: "(json \<Rightarrow> string) \<Rightarrow> (outbox_item \<times> http_result) list \<Rightarrow> erp \<Rightarrow> bool" where
  "acks_ok str_of answers e \<longleftrightarrow>
     (\<forall>(i, hr) \<in> set answers. (\<exists>resp. send_order str_of hr = Inr resp) \<longrightarrow> idempotency_key i \<in> erp_keys e)"

definition sent_ok :: "string set \<Rightarrow> outbox_row \<Rightarrow> bool" where
  "sent_ok keys r \<longleftrightarrow> ob_status r = ObSENT \<longrightarrow> row_key r \<in> keys"

definition system_inv :: "(json \<Rightarrow> string) \<Rightarrow> 'r system \<Rightarrow> bool" where
  "system_inv str_of y \<longleftrightarrow>
     db_ok (sy_db y) \<and> outbox_ok (sy_db y) \<and> held_ok (sy_items y) (sy_answers y) (sy_db y)
     \<and> erp_ok str_of (sy_erp y) (sy_db y) \<and> acks_ok str_of (sy_answers y) (sy_erp y)
     \<and> outbox_all (sent_ok (erp_keys (sy_erp y))) (sy_db y)"

lemma start_inv: "start_system y \<Longrightarrow> system_inv str_of y"
proof -
  have "outbox empty_db = []" by (simp add: empty_db_def)
  then show "start_system y \<Longrightarrow> system_inv str_of y"
    by (simp add: start_system_def system_inv_def held_ok_def erp_ok_def acks_ok_def empty_db_ok outbox_all_def empty_erp_def)
qed

lemma held_ok_mono:
  "held_ok items answers d \<Longrightarrow> messages d \<subseteq> messages d' \<Longrightarrow> set items' \<subseteq> set items \<Longrightarrow>
   set answers' \<subseteq> set answers \<Longrightarrow> held_ok items' answers' d'"
  unfolding held_ok_def by blast

lemma erp_ok_mono: "erp_ok str_of e d \<Longrightarrow> messages d \<subseteq> messages d' \<Longrightarrow> erp_ok str_of e d'"
  unfolding erp_ok_def by fast

lemma acks_ok_mono: "acks_ok str_of answers e \<Longrightarrow> set answers' \<subseteq> set answers \<Longrightarrow> acks_ok str_of answers' e"
  unfolding acks_ok_def by blast

lemma sent_ok_mono: "outbox_all (sent_ok K) d \<Longrightarrow> K \<subseteq> K' \<Longrightarrow> outbox_all (sent_ok K') d"
  by (auto simp: outbox_all_def sent_ok_def)

text \<open>The transactions of the dispatch side.\<close>

lemma sent_ok_rows:
  "sent_ok K r \<Longrightarrow> sent_ok K (row_claimed w t r)" "sent_ok K (row_released r)"
  "sent_ok K (row_retry t' e r)" "sent_ok K (row_dead e r)"
  by (simp_all add: sent_ok_def row_defs)

lemma outbox_change_sent:
  assumes "outbox_all Q d" and "\<And>r. r \<in> set (outbox d) \<Longrightarrow> P r \<Longrightarrow> Q r \<Longrightarrow> Q (f r)"
  shows "outbox_all Q (outbox_change P f d)"
  using assms by (auto simp: outbox_all_def upd_where_def)

lemma commit_end_all:
  "commit_end fault d d' = (res, d1) \<Longrightarrow> outbox_all Q d \<Longrightarrow> outbox_all Q d' \<Longrightarrow> outbox_all Q d1"
  by (cases fault) (auto simp: commit_end_def)

lemma claim_sent:
  "claim_batch s worker env visible d = (res, d') \<Longrightarrow> outbox_all (sent_ok K) d \<Longrightarrow> outbox_all (sent_ok K) d'"
  unfolding claim_batch_run
  by (auto split: prod.splits sum.splits dest!: commit_end_all intro!: outbox_change_sent sent_ok_rows)

lemma release_sent:
  "release_abandoned env d = (res, d') \<Longrightarrow> outbox_all (sent_ok K) d \<Longrightarrow> outbox_all (sent_ok K) d'"
  unfolding release_abandoned_run
  by (erule commit_end_all) (auto intro!: outbox_change_sent sent_ok_rows)

lemma reschedule_sent:
  "reschedule s env i err d = (res, d') \<Longrightarrow> outbox_all (sent_ok K) d \<Longrightarrow> outbox_all (sent_ok K) d'"
  unfolding reschedule_run
  by (erule commit_end_all) (auto intro!: outbox_change_sent sent_ok_rows)

lemma dead_letter_sent:
  "dispatch_dead_letter env i err d = (res, d') \<Longrightarrow> outbox_all (sent_ok K) d \<Longrightarrow> outbox_all (sent_ok K) d'"
  unfolding dead_letter_run
  by (erule commit_end_all) (auto intro!: outbox_change_sent sent_ok_rows)

lemma mark_sent_sent:
  assumes "dispatch_mark_sent env i d = (res, d')" and "outbox_all (sent_ok K) d" and "idempotency_key i \<in> K"
  shows "outbox_all (sent_ok K) d'"
proof -
  have "row_key (row_sent t r) = idempotency_key i" if "ob_outbox_id r = ox_outbox_id i" for r t
    using that by (simp add: row_key_def to_item_def idempotency_key_def row_sent_def)
  with assms show ?thesis
    unfolding mark_sent_run
    by (elim commit_end_all) (auto intro!: outbox_change_sent simp: sent_ok_def)
qed

lemma dispatch_sent:
  assumes "dispatch s str_of env hr i d = (res, d')" and "outbox_all (sent_ok K) d"
    and "\<forall>resp. send_order str_of hr = Inr resp \<longrightarrow> idempotency_key i \<in> K"
  shows "outbox_all (sent_ok K) d'"
  using assms
  by (auto simp: dispatch_def intro: reschedule_sent dead_letter_sent mark_sent_sent split: sum.splits exn.splits)

section \<open>Every step keeps the invariant\<close>

lemma inv_outbox_step:
  assumes "system_inv str_of y" and "outbox_only (sy_db y) d" and "outbox_all (sent_ok (erp_keys (sy_erp y))) d"
  shows "db_ok d" and "outbox_ok d" and "messages d = messages (sy_db y)" and "erp_ok str_of (sy_erp y) d"
  using assms outbox_only_messages [OF assms(2)]
  by (auto simp: system_inv_def intro: outbox_only_ok outbox_only_rows_ok erp_ok_mono)

lemma ingest_inv:
  assumes "system_inv str_of y" and "process (worker_processor p) clk fault e (sy_db y, sy_redis y) = (res, d, r)"
  shows "system_inv str_of (y\<lparr>sy_db := d, sy_redis := r\<rparr>)"
proof -
  have reg: "pr_registry (worker_processor p) = build_registry" by (simp add: worker_processor_def)
  then have ok: "registry_ok (pr_registry (worker_processor p))" by (simp add: build_registry_ok)
  have "db_ok (sy_db y)" "outbox_ok (sy_db y)" "outbox_all (sent_ok (erp_keys (sy_erp y))) (sy_db y)"
    using assms(1) by (simp_all add: system_inv_def)
  note keep = process_keeps_ok [OF ok this(1) assms(2)]
    process_keeps_outbox [OF reg this(2) fresh_message_ok assms(2)]
    process_keeps_outbox [OF reg this(3) _ assms(2)]
    process_messages [OF reg this(1) assms(2)]
  have "sent_ok (erp_keys (sy_erp y)) q" if "fresh_message q" for q
    using that by (simp add: sent_ok_def fresh_message_def)
  with keep assms(1) show ?thesis
    unfolding system_inv_def by (auto intro: held_ok_mono erp_ok_mono)
qed

lemma claimed_messages:
  assumes "claim_batch s worker env visible d = (Inr items, d')"
  shows "item_message ` set items \<subseteq> messages d'"
proof -
  from assms have "set items \<subseteq> to_item ` set (outbox d')"
    unfolding claim_batch_run
    by (cases "de_fault env") (auto simp: commit_end_def)
  then show ?thesis
    using item_message_to_item unfolding messages_def by (fastforce simp: image_iff)
qed

lemma request_inv:
  assumes inv: "system_inv str_of y" and i: "i \<in> set (sy_items y)"
    and run: "receive_order s str_of x (idempotency_key i) (ox_payload i) (sy_erp y) = (a, e)"
  shows "system_inv str_of (y\<lparr>sy_erp := e, sy_answers := sy_answers y @ [(i, http_of lost a)]\<rparr>)"
proof -
  from inv i obtain r where r: "r \<in> set (outbox (sy_db y))" "item_message i = message r"
    unfolding system_inv_def held_ok_def messages_def by blast
  have msg: "(ox_outbox_id i, ob_aggregate_id r, ox_payload i) \<in> messages (sy_db y)"
    using r by (auto simp: messages_def message_def item_message_def)
  have "json_path [''order'', ''order_uid''] (ob_payload r) = Some (JStr (ob_aggregate_id r))"
    using inv r(1) by (simp add: system_inv_def outbox_all_def outbox_row_ok_def)
  then have uid: "payload_order_uid str_of (ox_payload i) = str_of (JStr (ob_aggregate_id r))"
    using r(2) by (auto simp: payload_order_uid_def obj_get_def item_message_def message_def split: option.splits)
  note erp = receive_order_erp [OF run key_nonempty]
  have keys: "erp_keys (sy_erp y) \<subseteq> erp_keys e"
    using erp by (auto simp: erp_keys_registered)
  have key: "idempotency_key i \<in> erp_keys e" if "\<exists>resp. send_order str_of (http_of lost a) = Inr resp"
    using that http_of_success [OF _ run] erp by (auto simp: erp_keys_registered)
  have "erp_ok str_of e (sy_db y)"
    using erp
  proof
    assume "e = sy_erp y \<and> (\<forall>k. a = Inr k \<longrightarrow> idempotency_key i \<in> erp_keys (sy_erp y))"
    with inv show ?thesis by (simp add: system_inv_def)
  next
    assume "\<exists>rec1. ek_order_uid rec1 = payload_order_uid str_of (ox_payload i)
      \<and> e = registered (idempotency_key i) rec1 (sy_erp y)"
    then obtain rec1 where rec1: "ek_order_uid rec1 = payload_order_uid str_of (ox_payload i)"
      "e = registered (idempotency_key i) rec1 (sy_erp y)" by blast
    have upd: "set (AList.update k v al) \<subseteq> insert (k, v) (set al)" for k v and al :: "('k \<times> 'v) list"
      by (induction al) auto
    have "erp_ok str_of (sy_erp y) (sy_db y)" using inv by (simp add: system_inv_def)
    with msg uid rec1 show ?thesis
      using upd [of "idempotency_key i" rec1 "erp_acknowledged_by_key (sy_erp y)"]
        upd [of "ek_order_uid rec1" "ek_erp_order_id rec1" "erp_id_by_order (sy_erp y)"]
      unfolding erp_ok_def registered_def idempotency_key_def by fastforce
  qed
  moreover have "held_ok (sy_items y) (sy_answers y @ [(i, http_of lost a)]) (sy_db y)"
    using inv i by (auto simp: system_inv_def held_ok_def)
  moreover have "acks_ok str_of (sy_answers y @ [(i, http_of lost a)]) e"
    using inv keys key by (fastforce simp: system_inv_def acks_ok_def)
  ultimately show ?thesis
    using inv sent_ok_mono [OF _ keys] by (simp add: system_inv_def)
qed

lemma settle_inv:
  assumes inv: "system_inv str_of y" and ans: "(i, hr) \<in> set (sy_answers y)"
    and run: "dispatch s str_of env hr i (sy_db y) = (res, d)"
  shows "system_inv str_of (y\<lparr>sy_db := d, sy_answers := remove1 (i, hr) (sy_answers y)\<rparr>)"
proof -
  have "outbox_all (sent_ok (erp_keys (sy_erp y))) d"
    using dispatch_sent [OF run] inv ans by (auto simp: system_inv_def acks_ok_def)
  note step = inv_outbox_step [OF inv dispatch_only [OF run] this] this
  have "set (remove1 (i, hr) (sy_answers y)) \<subseteq> set (sy_answers y)" by (rule set_remove1_subset)
  with step inv show ?thesis
    by (auto simp: system_inv_def intro: held_ok_mono acks_ok_mono)
qed

lemma dispatch_step_inv:
  assumes "system_inv str_of y" and "dispatch_step s str_of y y'"
  shows "system_inv str_of y'"
proof -
  have sent: "outbox_all (sent_ok (erp_keys (sy_erp y))) (sy_db y)"
    using assms(1) by (simp add: system_inv_def)
  from assms(2) show ?thesis
  proof cases
  case (redis r)
  then show ?thesis using assms(1) by (simp add: system_inv_def)
next
  case (claim worker env visible items d)
  note only = claim_batch_only [OF claim(2)]
  note kept = inv_outbox_step [OF assms(1) only claim_sent [OF claim(2) sent]] claim_sent [OF claim(2) sent]
  have "held_ok (sy_items y @ items) (sy_answers y) d"
    using kept(3) claimed_messages [OF claim(2)] assms(1)
    unfolding system_inv_def held_ok_def set_append image_Un by blast
  then show ?thesis using kept claim(1) assms(1) by (simp add: system_inv_def)
next
  case (claim_failed worker env visible x d)
  note only = claim_batch_only [OF claim_failed(2)]
  note kept = inv_outbox_step [OF assms(1) only claim_sent [OF claim_failed(2) sent]] claim_sent [OF claim_failed(2) sent]
  then show ?thesis using claim_failed(1) assms(1) by (auto simp: system_inv_def intro: held_ok_mono)
next
  case (release env res d)
  note only = release_abandoned_only [OF release(2)]
  note kept = inv_outbox_step [OF assms(1) only release_sent [OF release(2) sent]] release_sent [OF release(2) sent]
  then show ?thesis using release(1) assms(1) by (auto simp: system_inv_def intro: held_ok_mono)
next
  case (request i x a e lost)
  then show ?thesis using request_inv [OF assms(1)] by simp
next
  case (no_answer i hr x)
  then show ?thesis using assms(1) by (auto simp: system_inv_def held_ok_def acks_ok_def)
next
  case (settle i hr env res d)
  then show ?thesis using settle_inv [OF assms(1)] by simp
next
  case (crash items answers)
  then show ?thesis using assms(1) by (auto simp: system_inv_def intro: held_ok_mono acks_ok_mono)
qed
qed

lemma step_inv:
  assumes "system_inv str_of y" and "system_step s p str_of y y'"
  shows "system_inv str_of y'"
  using assms(2)
proof cases
  case (ingest clk fault e res d r)
  then show ?thesis using ingest_inv [OF assms(1)] by simp
next
  case others
  with assms(1) show ?thesis by (rule dispatch_step_inv)
qed

interpretation delivery: invariant_system start_system "system_step s p str_of" "system_inv str_of"
  for s :: settings and p :: "('d, 'r) processor" and str_of :: "json \<Rightarrow> string"
  by unfold_locales (rule start_inv step_inv; assumption)+

section \<open>What the invariant says of both ends\<close>

lemma message_unique:
  assumes "db_ok d" and "r \<in> set (outbox d)" and "(ob_outbox_id r, uid, j) \<in> messages d"
  shows "uid = ob_aggregate_id r"
proof -
  from assms(3) obtain q where q: "q \<in> set (outbox d)" "ob_outbox_id q = ob_outbox_id r" "ob_aggregate_id q = uid"
    by (auto simp: messages_def message_def)
  have "distinct (map ob_outbox_id (outbox d))"
    using db_okD(1) [OF assms(1)] by (simp add: db_keys_def keyed_def)
  with q assms(2) have "q = r" by (metis distinct_map inj_on_def)
  with q show ?thesis by simp
qed

lemma sent_is_registered:
  assumes "db_ok d" and "erp_ok str_of e d" and "outbox_all (sent_ok (erp_keys e)) d"
    and "r \<in> set (outbox d)" and "ob_status r = ObSENT"
  shows "\<exists>rec1. already_received (idempotency_key (to_item r)) e = Some rec1
    \<and> ek_order_uid rec1 = str_of (JStr (ob_aggregate_id r))"
proof -
  have "row_key r \<in> erp_keys e"
    using assms(3-5) by (auto simp: outbox_all_def sent_ok_def)
  then obtain rec1 where rec1: "map_of (erp_acknowledged_by_key e) (row_key r) = Some rec1"
    unfolding erp_keys_def by (metis map_of_eq_None_iff option.exhaust)
  from assms(2) map_of_SomeD [OF rec1] obtain n uid j where m: "(n, uid, j) \<in> messages d"
    "row_key r = ''outbox-'' @ int_str n" "ek_order_uid rec1 = str_of (JStr uid)"
    unfolding erp_ok_def by fast
  have "n = ob_outbox_id r"
    using m(2) int_str_inj [of n "ob_outbox_id r"] by (simp add: row_key_def idempotency_key_def to_item_def)
  with m message_unique [OF assms(1,4)] have "ek_order_uid rec1 = str_of (JStr (ob_aggregate_id r))" by blast
  with rec1 key_nonempty show ?thesis by (auto simp: already_received_def row_key_def)
qed

lemma registered_is_approved:
  assumes "db_ok d" and "erp_ok str_of e d" and "(uid, eid) \<in> set (erp_id_by_order e)"
  shows "\<exists>o1 \<in> set (orders d). str_of (JStr (or_order_uid o1)) = uid \<and> or_status o1 \<noteq> OrdPENDING"
proof -
  from assms(2,3) obtain r where r: "r \<in> set (outbox d)" "uid = str_of (JStr (ob_aggregate_id r))"
    unfolding erp_ok_def messages_def message_def by fast
  then obtain o1 where o1: "o1 \<in> set (orders d)" "or_order_uid o1 = ob_aggregate_id r"
    using db_okD(6) [OF assms(1)] unfolding db_notified_def by (auto simp: image_subset_iff)
  have "messages_for (or_order_uid o1) (outbox d) \<noteq> []"
    using r(1) o1(2) by (auto simp: messages_for_def filter_empty_conv)
  then have "or_status o1 \<noteq> OrdPENDING"
    using db_okD(6) [OF assms(1)] o1(1) unfolding db_notified_def by auto
  with o1 r show ?thesis by (intro bexI [of _ o1]) simp_all
qed

end
