(* ===== verification/Typing.thy ===== *)
theory Typing
  imports System
begin

text \<open>
  The types of the columns as an invariant: every row of every table fits the sizes and ranges of
  src/shared/db/models.py and migrations/versions/0001_core_schema.py. The statements check them; the
  lemmas carry the fact through the handlers, the processor, the dispatch side and the whole system.
\<close>

definition db_typed :: "db \<Rightarrow> bool" where
  "db_typed d \<longleftrightarrow>
     (\<forall>r \<in> set (clients d). client_fits r) \<and> (\<forall>r \<in> set (addresses d). address_fits r)
     \<and> (\<forall>r \<in> set (orders d). order_fits r) \<and> (\<forall>r \<in> set (order_items d). item_fits r)
     \<and> (\<forall>r \<in> set (payments d). payment_fits r) \<and> (\<forall>r \<in> set (invoices d). invoice_fits r)
     \<and> (\<forall>r \<in> set (processed_events d). processed_event_fits r)
     \<and> (\<forall>r \<in> set (outbox d). outbox_fits r)"

lemma empty_db_typed: "db_typed empty_db"
  by (simp add: db_typed_def empty_db_def)

section \<open>Statements\<close>

lemma insert_typed [keep_rules]:
  "keeps db_typed (insert_client r1)" "keeps db_typed (insert_address r2)" "keeps db_typed (insert_order r3)"
  "keeps db_typed (insert_item r4)" "keeps db_typed (insert_payment r5)" "keeps db_typed (insert_invoice r6)"
  "keeps db_typed (insert_outbox r7)"
  by (auto simp: keeps_def db_typed_def insert_client_Inr insert_address_Inr insert_order_Inr
      insert_item_Inr insert_payment_Inr insert_invoice_Inr insert_outbox_Inr)

lemma update_client_typed [keep_rules]: "keeps db_typed (update_client cid f)"
  by (auto simp: keeps_def db_typed_def update_client_def set_upd_where split: if_splits)

lemma update_address_typed [keep_rules]: "keeps db_typed (update_address aid (address_closed t))"
  by (auto simp: keeps_def db_typed_def update_address_def set_upd_where address_closed_def address_fits_def)

lemma update_payment_typed [keep_rules]: "keeps db_typed (update_payment pid (payment_refresh st t b))"
  by (auto simp: keeps_def db_typed_def update_payment_def set_upd_where payment_refresh_def payment_fits_def)

lemma update_orders_typed [keep_rules]: "keeps db_typed (update_orders p f)"
  by (auto simp: keeps_def db_typed_def update_orders_def Let_def set_upd_where split: if_splits option.splits)

section \<open>Handlers and the processor\<close>

lemma handler_typed:
  "keeps db_typed (handle_client w clk e)" "keeps db_typed (handle_order w clk e)"
  "keeps db_typed (handle_payment w clk e)" "keeps db_typed (handle_invoice w clk e)"
  unfolding handle_client_def clients_upsert_def clients_get_by_uid_def clients_insert_def
    addresses_upsert_version_def addresses_get_current_version_def addresses_open_version_def
    addresses_close_version_def handle_order_def orders_exists_def require_current_address_def
    resolve_billing_address_def orders_create_def orders_add_items_def handle_payment_def
    require_order_def orders_get_by_uid_def record_payment_def payments_upsert_def
    payments_get_by_provider_transaction_def orders_transition_def enqueue_erp_notification_def
    payments_latest_for_order_def outbox_enqueue_def handle_invoice_def invoices_exists_for_order_def
    invoices_create_def
  by (auto intro!: keep_rules split: option.splits)

lemma process_typed:
  assumes "pr_registry p = build_registry" and "db_ok d" and "db_typed d"
    and "process p clk fault e (d, r) = (res, d', r')"
  shows "db_typed d'"
proof (rule process_keeps [where I = db_typed, OF assms])
  fix d'
  assume "rows_same d d'"
  with assms(3) show "db_typed d'" by (simp add: db_typed_def rows_sameD)
next
  assume "processed_event_fits (ledger_row (pr_outside p) clk e)"
  with assms(3) show "db_typed (with_ledger_row (pr_outside p) clk e d)" by (simp add: db_typed_def)
next
  fix h d0 d'
  assume h: "build_registry (ev_event_type e) = Some h" and "db_typed d0"
    and run: "h (pr_outside p) clk e d0 = (Inr (), d')"
  have "keeps db_typed (h (pr_outside p) clk e)"
    using h handler_typed [of "pr_outside p" clk e] by (cases "ev_event_type e") (auto simp: build_registry_eq)
  with run \<open>db_typed d0\<close> show "db_typed d'" unfolding keeps_def by blast
qed

section \<open>The dispatch side and the system\<close>

lemma outbox_only_typed: "outbox_only d d' \<Longrightarrow> db_typed d \<Longrightarrow> db_typed d'"
  by (auto simp: outbox_only_def db_typed_def set_upd_where same_message_def outbox_fits_def)

lemma system_step_typed:
  assumes "system_step s p str_of y y'" and "db_ok (sy_db y)" and "db_typed (sy_db y)"
  shows "db_typed (sy_db y')"
  using assms(1)
proof cases
  case (ingest clk fault e res d r)
  have "pr_registry (worker_processor p) = build_registry" by (simp add: worker_processor_def)
  from process_typed [OF this assms(2,3) ingest(2)] show ?thesis using ingest(1) by simp
next
  case others
  from outbox_only_typed [OF dispatch_step_only [OF this] assms(3)] show ?thesis .
qed

interpretation typing: invariant_system start_system "system_step s p str_of"
  "\<lambda>y. system_inv str_of y \<and> db_typed (sy_db y)"
  for s :: settings and p :: "('d, 'r) processor" and str_of :: "json \<Rightarrow> string"
proof
  show "start_system y \<Longrightarrow> system_inv str_of y \<and> db_typed (sy_db y)" for y
    by (simp add: start_inv) (simp add: start_system_def empty_db_typed)
  show "system_inv str_of y' \<and> db_typed (sy_db y')"
    if "system_inv str_of y \<and> db_typed (sy_db y)" "system_step s p str_of y y'" for y y'
    using that step_inv [of str_of y s p y'] system_step_typed [of s p str_of y y'] by (simp add: system_inv_def)
qed

end
