(* ===== verification/Delivery_Run.thy ===== *)
theory Delivery_Run
  imports System Dispatch_Claims Erp_Claims
begin

text \<open>
  A run for the witnesses: a client, an order and its payment are processed, the message is claimed,
  the ERP receives the request and the worker settles its answer.
\<close>

definition json_str :: "json \<Rightarrow> string" where
  "json_str j = (case j of JStr u \<Rightarrow> u | _ \<Rightarrow> ''?'')"

definition first_state :: "(string set \<times> bool) system" where
  "first_state = \<lparr>sy_db = empty_db, sy_redis = ({}, True), sy_erp = empty_erp, sy_items = [], sy_answers = []\<rparr>"

definition sample_claimed :: "(exn + outbox_item list) \<times> db" where
  "sample_claimed = claim_batch default_settings ''w1'' sample_dispatch_env (\<lambda>r. True) db_3"

definition item_1 :: outbox_item where
  "item_1 = hd (projr (fst sample_claimed))"

definition answer_1 :: "((int \<times> bool) + erp_ack) \<times> erp" where
  "answer_1 = receive_order default_settings json_str (sample_draw 1 ''ab12cd34ef'') (idempotency_key item_1)
     (ox_payload item_1) empty_erp"

definition last_db :: db where
  "last_db = snd (dispatch default_settings json_str sample_dispatch_env (http_of False (fst answer_1)) item_1
     (snd sample_claimed))"

definition last_state :: "(string set \<times> bool) system" where
  "last_state = \<lparr>sy_db = last_db, sy_redis = ({}, True), sy_erp = snd answer_1, sy_items = [item_1], sy_answers = []\<rparr>"

lemma last_db_eval:
  "map (\<lambda>r. (ob_aggregate_id r, ob_status r)) (outbox last_db) = [(''O1'', ObSENT)]"
  by code_simp

lemma sample_claimed_eval: "fst sample_claimed = Inr [item_1]"
proof -
  have "case fst sample_claimed of Inl _ \<Rightarrow> False | Inr items \<Rightarrow> length items = 1" by code_simp
  then show ?thesis by (auto simp: item_1_def length_Suc_conv split: sum.splits)
qed

abbreviation sample_step :: "(string set \<times> bool) system \<Rightarrow> (string set \<times> bool) system \<Rightarrow> bool" where
  "sample_step \<equiv> system_step default_settings sample_processor json_str"

lemma ingest_run:
  assumes "sy_redis y = ({}, True)"
  shows "sample_step\<^sup>*\<^sup>* y (y\<lparr>sy_db := after_process e (sy_db y)\<rparr>)"
proof -
  have worker: "worker_processor sample_processor = sample_processor"
    by (simp add: worker_processor_def sample_processor_def)
  obtain res d r where run: "process sample_processor sample_clock CommitOk e (sy_db y, sy_redis y) = (res, d, r)"
    by (cases "process sample_processor sample_clock CommitOk e (sy_db y, sy_redis y)") auto
  then have "sample_step y (y\<lparr>sy_db := d, sy_redis := r\<rparr>)"
    by (intro system_step.ingest [where clk = sample_clock and fault = CommitOk and e = e and res = res])
      (simp add: worker)
  moreover have "sample_step (y\<lparr>sy_db := d, sy_redis := r\<rparr>) (y\<lparr>sy_db := d, sy_redis := r, sy_redis := ({}, True)\<rparr>)"
    by (rule system_step.others [OF dispatch_step.redis])
  moreover have "y\<lparr>sy_db := d, sy_redis := r, sy_redis := ({}, True)\<rparr> = y\<lparr>sy_db := after_process e (sy_db y)\<rparr>"
    using run assms by (cases y) (simp add: after_process_def)
  ultimately show ?thesis by (metis (no_types, lifting) converse_rtranclp_into_rtranclp rtranclp.rtrancl_refl)
qed

abbreviation dispatching :: "(string set \<times> bool) system \<Rightarrow> (string set \<times> bool) system \<Rightarrow> bool" where
  "dispatching \<equiv> dispatch_step default_settings json_str"

lemma dispatch_run_reaches: "dispatching\<^sup>*\<^sup>* (first_state\<lparr>sy_db := db_3\<rparr>) last_state"
proof -
  let ?y3 = "first_state\<lparr>sy_db := db_3\<rparr>"
  let ?y4 = "first_state\<lparr>sy_db := snd sample_claimed, sy_items := [item_1]\<rparr>"
  let ?y5 = "?y4\<lparr>sy_erp := snd answer_1, sy_answers := [(item_1, http_of False (fst answer_1))]\<rparr>"
  have "dispatching ?y3 ?y4"
  proof -
    have "claim_batch default_settings ''w1'' sample_dispatch_env (\<lambda>r. True) (sy_db ?y3) = (Inr [item_1], snd sample_claimed)"
      using sample_claimed_eval by (simp add: sample_claimed_def prod_eq_iff)
    from dispatch_step.claim [OF this] show ?thesis by (simp add: first_state_def)
  qed
  moreover have "dispatching ?y4 ?y5"
  proof -
    have i: "item_1 \<in> set (sy_items ?y4)" by simp
    have "receive_order default_settings json_str (sample_draw 1 ''ab12cd34ef'') (idempotency_key item_1)
        (ox_payload item_1) (sy_erp ?y4) = (fst answer_1, snd answer_1)"
      by (simp add: answer_1_def first_state_def)
    from dispatch_step.request [OF i this, where lost = False] show ?thesis by (simp add: first_state_def)
  qed
  moreover have "dispatching ?y5 last_state"
  proof -
    have a: "(item_1, http_of False (fst answer_1)) \<in> set (sy_answers ?y5)" by simp
    have "dispatch default_settings json_str sample_dispatch_env (http_of False (fst answer_1)) item_1 (sy_db ?y5)
        = (fst (dispatch default_settings json_str sample_dispatch_env (http_of False (fst answer_1)) item_1 (snd sample_claimed)), last_db)"
      by (simp add: last_db_def)
    from dispatch_step.settle [OF a this] show ?thesis by (simp add: first_state_def last_state_def)
  qed
  ultimately show ?thesis by (meson rtranclp.rtrancl_into_rtrancl rtranclp.rtrancl_refl)
qed

lemma dispatch_runs_system:
  "(dispatch_step s str_of)\<^sup>*\<^sup>* y y' \<Longrightarrow> (system_step s p str_of)\<^sup>*\<^sup>* y y'"
  by (induction rule: rtranclp_induct) (auto intro: system_step.others rtranclp.rtrancl_into_rtrancl)

lemma sample_run_reaches: "sample_step\<^sup>*\<^sup>* first_state last_state"
proof -
  have redis: "sy_redis first_state = ({}, True)" by (simp add: first_state_def)
  have "sample_step\<^sup>*\<^sup>* first_state (first_state\<lparr>sy_db := db_1\<rparr>)"
    using ingest_run [OF redis, of client_event] by (simp add: db_1_def first_state_def)
  moreover have "sample_step\<^sup>*\<^sup>* (first_state\<lparr>sy_db := db_1\<rparr>) (first_state\<lparr>sy_db := db_2\<rparr>)"
    using ingest_run [of "first_state\<lparr>sy_db := db_1\<rparr>" order_event] by (simp add: db_2_def redis)
  moreover have "sample_step\<^sup>*\<^sup>* (first_state\<lparr>sy_db := db_2\<rparr>) (first_state\<lparr>sy_db := db_3\<rparr>)"
    using ingest_run [of "first_state\<lparr>sy_db := db_2\<rparr>" payment_event] by (simp add: db_3_def redis)
  moreover have "sample_step\<^sup>*\<^sup>* (first_state\<lparr>sy_db := db_3\<rparr>) last_state"
    using dispatch_run_reaches by (rule dispatch_runs_system)
  ultimately show ?thesis by (meson rtranclp_trans)
qed

end
