(* ===== verification/Provenance.thy ===== *)
theory Provenance
  imports Dispatch_Proofs Handler_Runs
begin

text \<open>
  Where rows come from. \<open>sourced w A d\<close>: every ledger row and every order of the database stems from
  an event of the set \<open>A\<close>, and so does the approval of every order that left PENDING. The handlers and
  the processor keep it when the event they work on is in \<open>A\<close>.
\<close>

definition ordered_by :: "'d outside \<Rightarrow> 'd envelope set \<Rightarrow> order_row \<Rightarrow> bool" where
  "ordered_by w A r \<longleftrightarrow>
     (\<exists>e \<in> A. \<exists>c. ev_event_type e = ORDER_CREATED \<and> validate_order w (ev_data e) = Some c
        \<and> ev_event_id e = or_source_event_id r \<and> oc_order_uid c = or_order_uid r
        \<and> oc_currency c = or_currency r \<and> total_amount c = or_total_amount r)"

definition paid_by :: "'d outside \<Rightarrow> 'd envelope set \<Rightarrow> string \<Rightarrow> bool" where
  "paid_by w A uid \<longleftrightarrow>
     (\<exists>e \<in> A. \<exists>p. ev_event_type e = PAYMENT_UPDATED \<and> validate_payment w (ev_data e) = Some p
        \<and> pu_order_uid p = uid \<and> pu_status p = PayAPPROVED)"

definition orders_sourced :: "'d outside \<Rightarrow> 'd envelope set \<Rightarrow> db \<Rightarrow> bool" where
  "orders_sourced w A d \<longleftrightarrow>
     (\<forall>r \<in> set (orders d). ordered_by w A r \<and> (or_status r \<noteq> OrdPENDING \<longrightarrow> paid_by w A (or_order_uid r)))"

definition ledger_sourced :: "'d envelope set \<Rightarrow> db \<Rightarrow> bool" where
  "ledger_sourced A d \<longleftrightarrow>
     (\<forall>row \<in> set (processed_events d).
        \<exists>e \<in> A. ev_event_id e = pe_event_id row \<and> event_type_value (ev_event_type e) = pe_event_type row)"

definition sourced :: "'d outside \<Rightarrow> 'd envelope set \<Rightarrow> db \<Rightarrow> bool" where
  "sourced w A d \<longleftrightarrow> orders_sourced w A d \<and> ledger_sourced A d"

lemma empty_db_sourced: "sourced w A empty_db"
  by (simp add: sourced_def orders_sourced_def ledger_sourced_def empty_db_def)

lemma sourced_mono: "sourced w A d \<Longrightarrow> A \<subseteq> B \<Longrightarrow> sourced w B d"
  unfolding sourced_def orders_sourced_def ledger_sourced_def ordered_by_def paid_by_def by blast

lemma orders_sourced_same: "orders_sourced w A d \<Longrightarrow> orders d' = orders d \<Longrightarrow> orders_sourced w A d'"
  by (simp add: orders_sourced_def)

lemma sourced_same:
  "sourced w A d \<Longrightarrow> orders d' = orders d \<Longrightarrow> processed_events d' = processed_events d \<Longrightarrow> sourced w A d'"
  by (simp add: sourced_def orders_sourced_def ledger_sourced_def)

section \<open>Handlers\<close>

lemma rest_sourced [keep_rules]:
  "keeps (orders_sourced w A) (insert_client r1)" "keeps (orders_sourced w A) (insert_address r2)"
  "keeps (orders_sourced w A) (insert_item r4)" "keeps (orders_sourced w A) (update_client cid f)"
  "keeps (orders_sourced w A) (update_address aid g)"
  by (auto simp: keeps_def orders_sourced_def insert_client_Inr insert_address_Inr insert_item_Inr
      update_client_def update_address_def split: if_splits)

lemma orders_create_sourced:
  assumes "e \<in> A" and "ev_event_type e = ORDER_CREATED" and "validate_order w (ev_data e) = Some c"
  shows "keeps (orders_sourced w A) (orders_create clk (oc_order_uid c) cid sh bi (oc_currency c)
    (total_amount c) t (ev_event_id e) items)"
proof -
  let ?r = "\<lparr>or_order_id = 0, or_order_uid = oc_order_uid c, or_client_id = cid,
            or_shipping_address_id = sh, or_billing_address_id = bi,
            or_status = OrdPENDING, or_currency = oc_currency c, or_total_amount = total_amount c,
            or_placed_at = t, or_closed_at = None, or_source_event_id = ev_event_id e,
            or_created_at = db_now clk\<rparr>"
  have "keeps (orders_sourced w A) (insert_order ?r)"
    using assms by (auto simp: keeps_def orders_sourced_def insert_order_Inr ordered_by_def)
  then show ?thesis
    unfolding orders_create_def orders_add_items_def by (auto intro!: keep_rules)
qed

lemma handle_client_sourced: "keeps (orders_sourced w A) (handle_client v clk e)"
  unfolding handle_client_def clients_upsert_def clients_get_by_uid_def clients_insert_def
    addresses_upsert_version_def addresses_get_current_version_def addresses_open_version_def
    addresses_close_version_def
  by (auto intro!: keep_rules split: option.splits)

lemma handle_order_sourced:
  assumes "e \<in> A" and "ev_event_type e = ORDER_CREATED"
  shows "keeps (orders_sourced w A) (handle_order w clk e)"
  unfolding handle_order_def orders_exists_def clients_get_by_uid_def require_current_address_def
    resolve_billing_address_def addresses_get_current_version_def
  using orders_create_sourced [OF assms] by (auto intro!: keep_rules split: option.splits)

text \<open>Moving an order that the set accounts for.\<close>

lemma order_moved_sourced:
  assumes "distinct (map or_order_id (orders d))" and "o1 \<in> set (orders d)" and "orders_sourced w A d"
    and "paid_by w A (or_order_uid o1)"
  shows "orders_sourced w A (orders_after_move o1 st t d)"
proof -
  have "paid_by w A (or_order_uid r)" if "r \<in> set (orders d)" "or_order_id r = or_order_id o1" for r
    using distinct_map_eq [OF assms(1) that(1) assms(2) that(2)] assms(4) by simp
  with assms(3) show ?thesis
    by (auto simp: orders_sourced_def ordered_by_def orders_after_move_def set_upd_where)
qed

lemma db_ok_order_ids: "db_ok d \<Longrightarrow> distinct (map or_order_id (orders d))"
  using db_okD(1) [of d] by (simp add: db_keys_def keyed_def)

lemma handle_payment_sourced:
  assumes "e \<in> A" and "ev_event_type e = PAYMENT_UPDATED" and "db_ok d" and "orders_sourced w A d"
    and run: "handle_payment w clk e d = (Inr a, d')"
  shows "orders_sourced w A d'"
proof -
  from run obtain p where p: "validate_payment w (ev_data e) = Some p"
    by (auto simp: handle_payment_def split: option.splits)
  with run obtain o1 where o1: "find (\<lambda>r. or_order_uid r = pu_order_uid p) (orders d) = Some o1"
    by (auto simp: handle_payment_def bnd_Inr_iff require_order_run split: option.splits)
  show ?thesis
  proof (cases "pu_status p = PayAPPROVED \<and> or_status o1 = OrdPENDING")
    case False
    with p o1 obtain d1 where "handle_payment w clk e d = (Inr (), d1)"
      and d1: "d1 = d\<lparr>payments := payments d1, payment_seq := payment_seq d1\<rparr>"
      by (auto elim: handle_payment_quiet [where clk = clk])
    moreover have "orders d1 = orders d" using arg_cong [OF d1, of orders] by simp
    ultimately have "orders d' = orders d" using run by simp
    with assms(4) show ?thesis by (rule orders_sourced_same)
  next
    case True
    then have st: "pu_status p = PayAPPROVED" "or_status o1 = OrdPENDING" by auto
    let ?t = "naive (pu_occurred_at p)"
    from p o1 st assms(3) obtain d1 mid j where
      fin: "handle_payment w clk e d =
        (Inr (), mid\<lparr>outbox_seq := outbox_seq mid + 1,
                     outbox := outbox d @ [erp_message clk (outbox_seq mid) (order_moved OrdAPPROVED ?t o1) j]\<rparr>)"
      and mid: "mid = orders_after_move o1 OrdAPPROVED ?t d1"
      and d1: "d1 = d\<lparr>payments := payments d1, payment_seq := payment_seq d1\<rparr>" and ok1: "db_ok d1"
      by (rule handle_payment_approves [where clk = clk])
    have same: "orders d1 = orders d" using arg_cong [OF d1, of orders] by simp
    have "paid_by w A (or_order_uid o1)"
      using assms(1,2) p st o1 unfolding paid_by_def by (metis (mono_tags, lifting) find_SomeD)
    moreover have "o1 \<in> set (orders d1)" using o1 same by (auto dest: find_SomeD)
    moreover have "orders_sourced w A d1" using assms(4) same by (rule orders_sourced_same)
    ultimately have "orders_sourced w A mid"
      unfolding mid by (intro order_moved_sourced db_ok_order_ids [OF ok1])
    with fin run show ?thesis by (auto simp: orders_sourced_def)
  qed
qed

lemma handle_invoice_sourced:
  assumes "db_ok d" and "orders_sourced w A d" and run: "handle_invoice v clk e d = (Inr a, d')"
  shows "orders_sourced w A d'"
proof -
  from run obtain i where i: "validate_invoice v (ev_data e) = Some i"
    by (auto simp: handle_invoice_def split: option.splits)
  with run obtain o1 where o1: "find (\<lambda>r. or_order_uid r = ii_order_uid i) (orders d) = Some o1"
    by (auto simp: handle_invoice_def bnd_Inr_iff require_order_run split: option.splits)
  show ?thesis
  proof (cases "or_order_id o1 \<in> in_order_id ` set (invoices d)")
    case True
    with run handle_invoice_known [OF i o1 True] assms(2) show ?thesis by simp
  next
    case False
    let ?d1 = "d\<lparr>invoice_seq := invoice_seq d + 1,
                 invoices := invoices d @ [invoice_for clk (invoice_seq d) o1 i]\<rparr>"
    have mem: "o1 \<in> set (orders ?d1)" using o1 by (auto dest: find_SomeD)
    have d': "d' = (if or_status o1 = OrdAPPROVED
        then orders_after_move o1 OrdINVOICED (naive (ii_issued_at i)) ?d1 else ?d1)"
      using run handle_invoice_new [OF assms(1) i o1 False, of clk]
      by (auto simp: Let_def split: if_splits)
    have "orders_sourced w A ?d1" using assms(2) by (simp add: orders_sourced_def)
    moreover have "orders_sourced w A (orders_after_move o1 OrdINVOICED (naive (ii_issued_at i)) ?d1)"
      if "or_status o1 = OrdAPPROVED"
    proof (rule order_moved_sourced)
      show "distinct (map or_order_id (orders ?d1))" using db_ok_order_ids [OF assms(1)] by simp
      show "paid_by w A (or_order_uid o1)" using that mem assms(2) by (auto simp: orders_sourced_def)
    qed (use mem calculation in auto)
    ultimately show ?thesis using d' by (simp split: if_splits)
  qed
qed

section \<open>The processor\<close>

lemma process_sourced:
  assumes "pr_registry p = build_registry" and "db_ok d" and "sourced (pr_outside p) A d" and "e \<in> A"
    and "process p clk fault e (d, r) = (res, d', r')"
  shows "sourced (pr_outside p) A d'"
proof (rule process_keeps [where I = "sourced (pr_outside p) A", OF assms(1-3,5)])
  show "sourced (pr_outside p) A d'" if "rows_same d d'" for d'
    using that by (intro sourced_same [OF assms(3)] rows_sameD)
  show "sourced (pr_outside p) A (with_ledger_row (pr_outside p) clk e d)"
    using assms(3,4) by (auto simp: sourced_def orders_sourced_def ledger_sourced_def ledger_row_def)
  fix h d0 d'
  let ?w = "pr_outside p"
  assume h: "build_registry (ev_event_type e) = Some h" and ok: "db_ok d0" and "sourced ?w A d0"
    and run: "h ?w clk e d0 = (Inr (), d')"
  then have base: "orders_sourced ?w A d0" and ledger: "ledger_sourced A d0" by (simp_all add: sourced_def)
  have "event_handler h" using h build_registry_ok by (auto simp: registry_ok_def)
  from event_handler.handle_ledger [OF this run] ledger have "ledger_sourced A d'"
    by (simp add: ledger_sourced_def)
  moreover have "orders_sourced ?w A d'"
  proof (cases "ev_event_type e")
    case CLIENT_UPSERTED
    with h run base show ?thesis
      using keepsD [OF handle_client_sourced] by (simp add: build_registry_eq) blast
  next
    case ORDER_CREATED
    with h run base show ?thesis
      using keepsD [OF handle_order_sourced [OF assms(4)]] by (simp add: build_registry_eq)
  next
    case PAYMENT_UPDATED
    with h run show ?thesis
      using handle_payment_sourced [OF assms(4) _ ok base] by (simp add: build_registry_eq)
  next
    case INVOICE_ISSUED
    with h run show ?thesis
      using handle_invoice_sourced [OF ok base] by (simp add: build_registry_eq)
  qed
  ultimately show "sourced ?w A d'" by (simp add: sourced_def)
qed

lemma outbox_only_sourced: "outbox_only d d' \<Longrightarrow> sourced w A d \<Longrightarrow> sourced w A d'"
  by (erule sourced_same) (simp_all add: outbox_only_frame)

end
