(* ===== verification/Pipeline.thy ===== *)
theory Pipeline
  imports Webhook_Claims System Provenance
begin

text \<open>
  The platform in one transition system: the webhook API with its flusher, the stream server, any
  number of ingest workers with the batches they hold, the database, the dispatch workers and the ERP.
  Every step is one call of the code's model. What the server hands out is tied to what was appended
  by two documented laws of Redis Streams.
\<close>

section \<open>What a consumer can see\<close>

definition delivered :: "(string \<times> string) list list \<Rightarrow> fields \<Rightarrow> bool" where
  "delivered entries f \<longleftrightarrow> (\<exists>entry \<in> set entries. f = map (\<lambda>(k, v). (RBytes k, RBytes v)) entry)"

text \<open>
  An XADD that raises has stored its entry or not; the commands of a consumer leave the entries.
  XREADGROUP of new messages and XCLAIM return entries that the stream holds, as bytes.
\<close>

definition feed_law :: "'q streams \<Rightarrow> bool" where
  "feed_law X \<longleftrightarrow>
     (\<forall>s f n q x q'. st_xadd X s f n q = (Inl x, q') \<longrightarrow>
        set (st_entries X q' s) \<subseteq> insert f (set (st_entries X q s))
        \<and> (\<forall>t. t \<noteq> s \<longrightarrow> st_entries X q' t = st_entries X q t))
     \<and> (\<forall>s g i mk q r q'. st_xgroup_create X s g i mk q = (r, q') \<longrightarrow> st_entries X q' = st_entries X q)
     \<and> (\<forall>s g n idle q r q'. st_xpending X s g n idle q = (r, q') \<longrightarrow> st_entries X q' = st_entries X q)
     \<and> (\<forall>g c s p n b q r q'. st_xreadgroup X g c s p n b q = (r, q') \<longrightarrow> st_entries X q' = st_entries X q)
     \<and> (\<forall>s g c idle ids q r q'. st_xclaim X s g c idle ids q = (r, q') \<longrightarrow> st_entries X q' = st_entries X q)"

definition delivery_law :: "'q streams \<Rightarrow> bool" where
  "delivery_law X \<longleftrightarrow>
     (\<forall>g c s p n b q raw q'. st_xreadgroup X g c s p n b q = (Inr raw, q') \<longrightarrow>
        (\<forall>(k, es) \<in> set raw. \<forall>(i, f) \<in> set es. delivered (st_entries X q s) f))
     \<and> (\<forall>s g c idle ids q claimed q'. st_xclaim X s g c idle ids q = (Inr claimed, q') \<longrightarrow>
        (\<forall>(i, f) \<in> set claimed. delivered (st_entries X q s) f))"

lemma payload_of_delivered: "payload_of (map (\<lambda>(k, v). (RBytes k, RBytes v)) entry) = payload_text entry"
proof -
  have "map_of (map (\<lambda>(k, v). (RBytes k, RBytes v)) entry) (RBytes x) = map_option RBytes (map_of entry x)"
    "map_of (map (\<lambda>(k, v). (RBytes k, RBytes v)) entry) (RStr x) = None" for x
    by (induction entry) auto
  then show ?thesis by (simp add: payload_of_def payload_text_def Let_def split: option.splits)
qed

lemma payload_delivered:
  "delivered (st_entries X q (stream_name s)) f \<Longrightarrow> payload_of f \<in> set (stream_log X s q)"
  by (auto simp: delivered_def stream_log_def payload_of_delivered)

text \<open>A program after which the log of the ingest stream holds no payload it did not hold before.\<close>

definition log_within :: "'q streams \<Rightarrow> settings \<Rightarrow> 'q \<Rightarrow> 'q \<Rightarrow> bool" where
  "log_within X s q q' \<longleftrightarrow> set (stream_log X s q') \<subseteq> set (stream_log X s q)"

interpretation within: step_preorder "log_within X s" for X :: "'q streams" and s
  by unfold_locales (auto simp: log_within_def)

lemma log_within_same: "st_entries X q' = st_entries X q \<Longrightarrow> log_within X s q q'"
  by (simp add: log_within_def stream_log_def)

locale log_server = redis_server X for X :: "'q streams" +
  assumes feed: "feed_law X" and delivery: "delivery_law X"
begin

lemma xadd_entries:
  assumes "st_xadd X t f n q = (r, q')"
  shows "set (st_entries X q' t) \<subseteq> insert f (set (st_entries X q t))"
    and "u \<noteq> t \<Longrightarrow> st_entries X q' u = st_entries X q u"
proof -
  have "set (st_entries X q' t) \<subseteq> insert f (set (st_entries X q t))
    \<and> (\<forall>u. u \<noteq> t \<longrightarrow> st_entries X q' u = st_entries X q u)"
  proof (cases r)
    case (Inl x)
    with assms have "st_xadd X t f n q = (Inl x, q')" by simp
    from feed [unfolded feed_law_def, THEN conjunct1, rule_format, OF this] show ?thesis by simp
  next
    case (Inr i)
    with assms have "st_xadd X t f n q = (Inr i, q')" by simp
    from xadd [unfolded xadd_law_def, THEN conjunct1, rule_format, OF this]
    obtain k where "st_entries X q' t = drop k (st_entries X q t @ [f])"
      and "\<forall>u. u \<noteq> t \<longrightarrow> st_entries X q' u = st_entries X q u" by blast
    then show ?thesis using set_drop_subset [of k "st_entries X q t @ [f]"] by auto
  qed
  then show "set (st_entries X q' t) \<subseteq> insert f (set (st_entries X q t))"
    and "u \<noteq> t \<Longrightarrow> st_entries X q' u = st_entries X q u" by blast+
qed

lemma pipeline_log:
  assumes "pipeline (map (\<lambda>e. st_xadd X (stream_name s) [(''payload'', dump e)] n) es) q = (r, q')"
  shows "set (stream_log X s q') \<subseteq> set (stream_log X s q) \<union> dump ` set es"
  using assms
proof (induction es arbitrary: q r)
  case (Cons e es)
  obtain x q1 where add: "st_xadd X (stream_name s) [(''payload'', dump e)] n q = (x, q1)"
    by (cases "st_xadd X (stream_name s) [(''payload'', dump e)] n q")
  have "set (stream_log X s q1) \<subseteq> insert (dump e) (set (stream_log X s q))"
    using xadd_entries(1) [OF add] by (auto simp: stream_log_def payload_text_def)
  moreover obtain r1 where "pipeline (map (\<lambda>e. st_xadd X (stream_name s) [(''payload'', dump e)] n) es) q1 = (r1, q')"
    using Cons.prems add by (cases x) (auto intro: prod.collapse [symmetric])
  note Cons.IH [OF this]
  ultimately show ?case by auto
qed simp

lemma publish_log:
  assumes "publish_many X s dump es q = (r, q')"
  shows "set (stream_log X s q') \<subseteq> set (stream_log X s q) \<union> dump ` set es"
proof (cases "es = []")
  case False
  with assms obtain r1 where
    "pipeline (map (\<lambda>e. st_xadd X (stream_name s) [(''payload'', dump e)] (stream_maxlen s)) es) q = (r1, q')"
    by (auto simp: publish_many_def bnd_def split: prod.splits sum.splits)
  then show ?thesis by (rule pipeline_log)
qed (use assms in \<open>simp add: publish_many_def\<close>)

lemma entries_stay:
  "st_xgroup_create X t g i mk q = (r0, q') \<Longrightarrow> st_entries X q' = st_entries X q"
  "st_xpending X t g n idle q = (r1, q') \<Longrightarrow> st_entries X q' = st_entries X q"
  "st_xreadgroup X g c t p n b q = (r2, q') \<Longrightarrow> st_entries X q' = st_entries X q"
  "st_xclaim X t g c idle ids q = (r3, q') \<Longrightarrow> st_entries X q' = st_entries X q"
  by (erule feed [unfolded feed_law_def, THEN conjunct2, THEN conjunct1, rule_format]
      feed [unfolded feed_law_def, THEN conjunct2, THEN conjunct2, THEN conjunct1, rule_format]
      feed [unfolded feed_law_def, THEN conjunct2, THEN conjunct2, THEN conjunct2, THEN conjunct1, rule_format]
      feed [unfolded feed_law_def, THEN conjunct2, THEN conjunct2, THEN conjunct2, THEN conjunct2, rule_format])+

lemma ensure_group_log:
  assumes "co_streams c = X" and "ensure_group c q = (r, q')"
  shows "st_entries X q' = st_entries X q"
proof -
  let ?create = "st_xgroup_create X (stream_name (co_settings c)) (consumer_group (co_settings c)) ''0'' True q"
  obtain x q1 where create: "?create = (x, q1)" by (cases ?create)
  with assms have "q' = q1"
    by (auto simp: ensure_group_def split: sum.splits exn.splits if_splits)
  with entries_stay(1) [OF create] show ?thesis by simp
qed

lemma read_log:
  assumes "co_streams c = X" and "read c q = (r, q')"
  shows "st_entries X q' = st_entries X q"
    and "r = Inr ms \<Longrightarrow> m \<in> set ms \<Longrightarrow> sm_payload m \<in> set (stream_log X (co_settings c) q)"
proof -
  let ?s = "co_settings c"
  obtain x q1 where read: "st_xreadgroup X (consumer_group ?s) (co_name c) (stream_name ?s) new_stream_position
      (consumer_batch_size ?s) (consumer_block_ms ?s) q = (x, q1)"
    by (cases "st_xreadgroup X (consumer_group ?s) (co_name c) (stream_name ?s) new_stream_position
      (consumer_batch_size ?s) (consumer_block_ms ?s) q")
  with assms have q1: "q' = q1" by (cases x) (simp_all add: read_def bnd_def)
  from entries_stay(3) [OF read] have "st_entries X q1 = st_entries X q" .
  with q1 show "st_entries X q' = st_entries X q" by simp
  show "sm_payload m \<in> set (stream_log X ?s q)" if "r = Inr ms" "m \<in> set ms"
  proof -
    from that assms read obtain raw where raw: "x = Inr raw" "ms = to_messages raw"
      by (cases x) (auto simp: read_def bnd_def)
    with read delivery have "\<forall>(k, es) \<in> set raw. \<forall>(i, f) \<in> set es. delivered (st_entries X q (stream_name ?s)) f"
      unfolding delivery_law_def by blast
    with raw(2) that(2) show ?thesis
      by (force simp: to_messages_def intro: payload_delivered)
  qed
qed

lemma pending_counts_log:
  assumes "co_streams c = X" and "pending_delivery_counts c q = (r, q')"
  shows "st_entries X q' = st_entries X q"
proof -
  let ?s = "co_settings c"
  let ?pending = "st_xpending X (stream_name ?s) (consumer_group ?s) (consumer_batch_size ?s) (consumer_idle_reclaim_ms ?s) q"
  obtain x q1 where pending: "?pending = (x, q1)" by (cases ?pending)
  with assms have "q' = q1"
    by (auto simp: pending_delivery_counts_def split: sum.splits exn.splits)
  with entries_stay(2) [OF pending] show ?thesis by simp
qed

lemma reclaim_log:
  assumes "co_streams c = X" and "reclaim_abandoned c q = (r, q')"
  shows "st_entries X q' = st_entries X q"
    and "r = Inr ms \<Longrightarrow> m \<in> set ms \<Longrightarrow> sm_payload m \<in> set (stream_log X (co_settings c) q)"
proof -
  let ?s = "co_settings c"
  obtain counts q1 where pend: "pending_delivery_counts c q = (counts, q1)"
    by (cases "pending_delivery_counts c q")
  have same: "st_entries X q1 = st_entries X q" using assms(1) pend by (rule pending_counts_log)
  have "st_entries X q' = st_entries X q
    \<and> (\<forall>ms m. r = Inr ms \<longrightarrow> m \<in> set ms \<longrightarrow> sm_payload m \<in> set (stream_log X ?s q))"
  proof (cases "\<exists>cs. counts = Inr cs \<and> cs \<noteq> []")
    case False
    with assms pend same show ?thesis by (cases counts) (auto simp: reclaim_abandoned_def bnd_def)
  next
    case True
    then obtain cs where cs: "counts = Inr cs" "cs \<noteq> []" by blast
    let ?claim = "st_xclaim X (stream_name ?s) (consumer_group ?s) (co_name c) (consumer_idle_reclaim_ms ?s) (map fst cs) q1"
    obtain x q2 where claim: "?claim = (x, q2)" by (cases ?claim)
    from entries_stay(4) [OF claim] have "st_entries X q2 = st_entries X q1" .
    moreover have "q' = q2" and ms: "r = Inr ms \<Longrightarrow> \<exists>cl. x = Inr cl \<and> ms = map (reclaimed_message cs) cl" for ms
      using assms pend cs claim by (cases x; auto simp: reclaim_abandoned_def bnd_def)+
    moreover have "\<forall>(i, f) \<in> set cl. delivered (st_entries X q (stream_name ?s)) f" if "x = Inr cl" for cl
    proof -
      from claim that have "?claim = (Inr cl, q2)" by simp
      from delivery [unfolded delivery_law_def, THEN conjunct2, rule_format, OF this] same
      show ?thesis by simp
    qed
    moreover have "sm_payload m \<in> set (stream_log X ?s q)" if "r = Inr ms" "m \<in> set ms" for ms m
    proof -
      from calculation(3) [OF that(1)] obtain cl where cl: "x = Inr cl" "ms = map (reclaimed_message cs) cl" by blast
      with that(2) obtain i f where "(i, f) \<in> set cl" "sm_payload m = payload_of f"
        by (auto simp: reclaimed_message_def)
      with calculation(4) [OF cl(1)] show ?thesis by (auto intro: payload_delivered)
    qed
    ultimately show ?thesis using same by simp
  qed
  then show "st_entries X q' = st_entries X q"
    and "r = Inr ms \<Longrightarrow> m \<in> set ms \<Longrightarrow> sm_payload m \<in> set (stream_log X ?s q)" by blast+
qed

lemma next_messages_log:
  assumes "co_streams (iw_consumer w) = X" and "co_settings (iw_consumer w) = s"
    and "next_messages w cycle q = (r, q')"
  shows "st_entries X q' = st_entries X q"
    and "r = Inr ms \<Longrightarrow> m \<in> set ms \<Longrightarrow> sm_payload m \<in> set (stream_log X s q)"
proof -
  obtain x q1 where read: "read (iw_consumer w) q = (x, q1)" by (cases "read (iw_consumer w) q")
  obtain y q2 where reclaim: "reclaim_abandoned (iw_consumer w) q1 = (y, q2)"
    by (cases "reclaim_abandoned (iw_consumer w) q1")
  note one = read_log [OF assms(1) read] and two = reclaim_log [OF assms(1) reclaim]
  have log: "stream_log X s q1 = stream_log X s q" using one(1) by (simp add: stream_log_def)
  show "st_entries X q' = st_entries X q"
    using assms(3) read reclaim one(1) two(1)
    by (auto simp: next_messages_def bnd_def split: sum.splits if_splits)
  show "r = Inr ms \<Longrightarrow> m \<in> set ms \<Longrightarrow> sm_payload m \<in> set (stream_log X s q)"
    using assms(2,3) read reclaim one(2) two(2) log
    by (auto simp: next_messages_def bnd_def split: sum.splits if_splits)
qed

lemma dead_letter_other: "dead_letter_stream s \<noteq> stream_name s"
  by (simp add: dead_letter_stream_def dead_letter_suffix_def)

lemma ack_within: "co_streams c = X \<Longrightarrow> stays (log_within X s) (ack c ids)"
  using ack_pending(1) [of c ids] xack by (intro staysI log_within_same) auto

lemma xadd_within: "t \<noteq> stream_name s \<Longrightarrow> stays (log_within X s) (st_xadd X t f n)"
  by (intro staysI) (simp add: log_within_def stream_log_def xadd_entries(2))

lemma settle_within:
  assumes "co_streams (iw_consumer w) = X" and "co_settings (iw_consumer w) = s"
  shows "stays (log_within X s) (settle_batch w b)"
  unfolding settle_batch_def send_to_dead_letter_def
  using assms ack_within [OF assms(1)] xadd_within [OF dead_letter_other [of s]]
  by (auto intro!: within.stays_rules)

end

section \<open>The platform\<close>

text \<open>
  What the processes are started with: the settings, the servers and the library's work. \<open>dp_valid\<close> are
  the envelopes that the API's validation of a request body lets through, \<open>dp_dump\<close> and \<open>dp_decode\<close>
  pydantic's \<open>model_dump_json\<close> and \<open>model_validate_json\<close>.
\<close>

record ('d, 'r, 'q) deployment =
  dp_settings :: settings
  dp_streams :: "'q streams"
  dp_redis :: "'r redis"
  dp_outside :: "'d outside"
  dp_valid :: "'d envelope \<Rightarrow> bool"
  dp_dump :: "'d envelope \<Rightarrow> string"
  dp_decode :: "string \<Rightarrow> 'd envelope option"
  dp_str_of :: "json \<Rightarrow> string"

definition round_trip_law :: "('d, 'r, 'q) deployment \<Rightarrow> bool" where
  "round_trip_law D \<longleftrightarrow> (\<forall>e. dp_valid D e \<longrightarrow> dp_decode D (dp_dump D e) = Some e)"

text \<open>\<open>IngestWorker.__init__\<close>; the consumer's random name is an argument.\<close>

definition new_worker :: "('d, 'r, 'q) deployment \<Rightarrow> string \<Rightarrow> ('d, 'r, 'q) ingest_worker" where
  "new_worker D name =
     \<lparr>iw_consumer = \<lparr>co_streams = dp_streams D, co_settings = dp_settings D, co_name = name\<rparr>,
      iw_processor = \<lparr>pr_registry = build_registry, pr_redis = dp_redis D, pr_settings = dp_settings D,
        pr_outside = dp_outside D\<rparr>,
      iw_settings = dp_settings D, iw_decode = dp_decode D\<rparr>"

record ('d, 'r, 'q) platform =
  pl_api :: "('d envelope, 'q) api_run"
  pl_work :: "(stream_message list \<times> batch) list"
  pl_system :: "'r system"

definition server :: "('d, 'r, 'q) platform \<Rightarrow> 'q" where
  "server P = ap_server (run_app (pl_api P))"

definition with_server :: "'q \<Rightarrow> ('d, 'r, 'q) platform \<Rightarrow> ('d, 'r, 'q) platform" where
  "with_server q P = P\<lparr>pl_api := (pl_api P)\<lparr>run_app := (run_app (pl_api P))\<lparr>ap_server := q\<rparr>\<rparr>\<rparr>"

fun action_valid :: "('e \<Rightarrow> bool) \<Rightarrow> 'e api_action \<Rightarrow> bool" where
  "action_valid P (Receive t1 t2 es) = list_all P es"
| "action_valid P act = True"

definition api_step :: "('d, 'r, 'q) deployment \<Rightarrow> 'd envelope api_action \<Rightarrow> ('d envelope, 'q) api_run
    \<Rightarrow> ('d envelope, 'q) api_run" where
  "api_step D = run_step (dp_settings D) (publish_many (dp_streams D) (dp_settings D) (dp_dump D))
     (redis_pending_lag (dp_streams D) (dp_settings D))"

definition start_platform :: "('d, 'r, 'q) deployment \<Rightarrow> ('d, 'r, 'q) platform \<Rightarrow> bool" where
  "start_platform D P \<longleftrightarrow>
     (\<exists>q. pl_api P = start_run q \<and> stream_log (dp_streams D) (dp_settings D) q = [])
     \<and> pl_work P = [] \<and> start_system (pl_system P)"

text \<open>
  \<open>api\<close>: one action of the API's process. \<open>restart\<close>: that process dies with its queue and the batch in
  hand and starts again. \<open>group\<close>, \<open>fetch\<close> and \<open>fetch_failed\<close>: a worker's calls of the server.
  \<open>message\<close>: a worker persists the next message of a batch; \<open>settle\<close>: it settles a batch it is through
  with. A batch stays in the list of work, so both also stand for redeliveries; \<open>die\<close> takes any of
  them away. \<open>dispatch_side\<close>: a step of the dispatch workers, the ERP or Redis.
\<close>

inductive platform_step ::
  "('d, 'r, 'q) deployment \<Rightarrow> ('d, 'r, 'q) platform \<Rightarrow> ('d, 'r, 'q) platform \<Rightarrow> bool" for D where
  api: "action_valid (dp_valid D) act \<Longrightarrow> platform_step D P (P\<lparr>pl_api := api_step D act (pl_api P)\<rparr>)"
| restart: "platform_step D P (P\<lparr>pl_api := (pl_api P)\<lparr>run_app := start_app (server P), run_in_flight := []\<rparr>\<rparr>)"
| group: "ensure_group (iw_consumer (new_worker D name)) (server P) = (res, q) \<Longrightarrow>
    platform_step D P (with_server q P)"
| fetch: "next_messages (new_worker D name) cycle (server P) = (Inr ms, q) \<Longrightarrow>
    platform_step D P ((with_server q P)\<lparr>pl_work := pl_work P @ [(ms, empty_batch)]\<rparr>)"
| fetch_failed: "next_messages (new_worker D name) cycle (server P) = (Inl x, q) \<Longrightarrow>
    platform_step D P (with_server q P)"
| message: "(m # ms, b) \<in> set (pl_work P) \<Longrightarrow>
    persist_loop (new_worker D name) env k [m] b (sy_db (pl_system P), sy_redis (pl_system P)) = (res, d, r) \<Longrightarrow>
    platform_step D P (P\<lparr>pl_system := (pl_system P)\<lparr>sy_db := d, sy_redis := r\<rparr>,
      pl_work := pl_work P @ (case res of Inl x \<Rightarrow> [] | Inr b' \<Rightarrow> [(ms, b')])\<rparr>)"
| settle: "([], b) \<in> set (pl_work P) \<Longrightarrow> settle_batch (new_worker D name) b (server P) = (res, q) \<Longrightarrow>
    platform_step D P (with_server q P)"
| die: "set work \<subseteq> set (pl_work P) \<Longrightarrow> platform_step D P (P\<lparr>pl_work := work\<rparr>)"
| dispatch_side: "dispatch_step (dp_settings D) (dp_str_of D) (pl_system P) y \<Longrightarrow>
    platform_step D P (P\<lparr>pl_system := y\<rparr>)"

section \<open>The invariant\<close>

text \<open>
  Everything on the way stems from the accepted events: the queue, the batch in hand, the payloads in
  the log and in the workers' hands, and the rows of the database.
\<close>

definition api_sourced :: "('d, 'r, 'q) deployment \<Rightarrow> ('d envelope, 'q) api_run \<Rightarrow> bool" where
  "api_sourced D r \<longleftrightarrow>
     list_all (dp_valid D) (run_accepted r)
     \<and> set (run_in_flight r) \<union> set (bu_queue (ap_buffer (run_app r))) \<subseteq> set (run_accepted r)
     \<and> set (stream_log (dp_streams D) (dp_settings D) (ap_server (run_app r)))
         \<subseteq> dp_dump D ` set (run_accepted r)"

definition work_sourced :: "('d, 'r, 'q) deployment \<Rightarrow> 'd envelope list \<Rightarrow> (stream_message list \<times> batch) list \<Rightarrow> bool" where
  "work_sourced D A work \<longleftrightarrow> (\<forall>w \<in> set work. sm_payload ` set (fst w) \<subseteq> dp_dump D ` set A)"

definition platform_inv :: "('d, 'r, 'q) deployment \<Rightarrow> ('d, 'r, 'q) platform \<Rightarrow> bool" where
  "platform_inv D P \<longleftrightarrow>
     api_sourced D (pl_api P) \<and> work_sourced D (run_accepted (pl_api P)) (pl_work P)
     \<and> system_inv (dp_str_of D) (pl_system P)
     \<and> sourced (dp_outside D) (set (run_accepted (pl_api P))) (sy_db (pl_system P))"

lemma with_server_simps [simp]:
  "pl_work (with_server q P) = pl_work P" "pl_system (with_server q P) = pl_system P"
  "run_accepted (pl_api (with_server q P)) = run_accepted (pl_api P)"
  "server (with_server q P) = q"
  by (simp_all add: with_server_def server_def)

lemma api_sourced_server:
  assumes "api_sourced D (pl_api P)" and "log_within (dp_streams D) (dp_settings D) (server P) q"
  shows "api_sourced D (pl_api (with_server q P))"
  using assms by (auto simp: api_sourced_def with_server_def server_def log_within_def)

lemma inv_server:
  "platform_inv D P \<Longrightarrow> log_within (dp_streams D) (dp_settings D) (server P) q \<Longrightarrow> platform_inv D (with_server q P)"
  by (simp add: platform_inv_def api_sourced_server)

lemma start_platform_inv: "start_platform D P \<Longrightarrow> platform_inv D P"
  using start_inv [of "pl_system P" "dp_str_of D"] empty_db_sourced
  by (auto simp: start_platform_def platform_inv_def api_sourced_def work_sourced_def start_run_def
      start_app_def new_buffer_def start_def start_system_def)

text \<open>The API's process accepts, queues and publishes only what it was sent.\<close>

context log_server
begin

lemma api_step_sourced:
  assumes D: "dp_streams D = X" and src: "api_sourced D r" and valid: "action_valid (dp_valid D) act"
  shows "api_sourced D (api_step D act r) \<and> set (run_accepted r) \<subseteq> set (run_accepted (api_step D act r))"
proof (cases act)
  case (Receive t1 t2 es)
  obtain resp body a' where
    ing: "ingest_events (dp_settings D) (redis_pending_lag X (dp_settings D)) t1 t2 es (run_app r) = (Inr (resp, body), a')"
    and keep: "stream_log X (dp_settings D) (ap_server a') = stream_log X (dp_settings D) (ap_server (run_app r))"
    and buf: "ap_buffer a' = (ap_buffer (run_app r))\<lparr>bu_queue :=
      bu_queue (ap_buffer (run_app r)) @ take (ac_accepted body) es\<rparr>"
    by (rule publisher.ingest_returns [where a = "run_app r"]) blast
  have "list_all (dp_valid D) (take (ac_accepted body) es)"
    using valid Receive by (auto simp: list_all_iff dest: in_set_takeD)
  with src ing keep buf Receive D show ?thesis
    by (auto simp: api_sourced_def api_step_def)
next
  case (Health t1 t2)
  with src D publisher.health_keeps [of "dp_settings D" "dp_settings D" t1 t2 "run_app r"] show ?thesis
    by (simp add: api_sourced_def api_step_def)
next
  case Take_batch
  with src show ?thesis
    by (auto simp: api_sourced_def api_step_def take_batch_eq dest: in_set_takeD in_set_dropD)
next
  case Publish_batch
  obtain res q' where pub: "publish_many X (dp_settings D) (dp_dump D) (run_in_flight r) (ap_server (run_app r)) = (res, q')"
    by (cases "publish_many X (dp_settings D) (dp_dump D) (run_in_flight r) (ap_server (run_app r))")
  have "set (stream_log X (dp_settings D) (ap_server (run_app r))) \<subseteq> dp_dump D ` set (run_accepted r)"
    "dp_dump D ` set (run_in_flight r) \<subseteq> dp_dump D ` set (run_accepted r)"
    using src D by (auto simp: api_sourced_def)
  with publish_log [OF pub] have "set (stream_log X (dp_settings D) q') \<subseteq> dp_dump D ` set (run_accepted r)"
    by (meson Un_least order_trans)
  with src pub Publish_batch D show ?thesis
    by (cases res) (auto simp: api_sourced_def api_step_def publish_taken_def)
qed

end

lemma work_sourced_mono: "work_sourced D A work \<Longrightarrow> set A \<subseteq> set B \<Longrightarrow> work_sourced D B work"
  unfolding work_sourced_def by (meson image_mono order_trans)

lemma new_worker_simps [simp]:
  "co_streams (iw_consumer (new_worker D name)) = dp_streams D"
  "co_settings (iw_consumer (new_worker D name)) = dp_settings D"
  "iw_decode (new_worker D name) = dp_decode D"
  "pr_registry (iw_processor (new_worker D name)) = build_registry"
  "pr_outside (iw_processor (new_worker D name)) = dp_outside D"
  "worker_processor (iw_processor (new_worker D name)) = iw_processor (new_worker D name)"
  by (simp_all add: new_worker_def worker_processor_def)

text \<open>What a worker parses from a payload of the log is the accepted event itself.\<close>

lemma parsed_is_accepted:
  assumes "round_trip_law D" and "list_all (dp_valid D) A" and "sm_payload m \<in> dp_dump D ` set A"
    and "parse (new_worker D name) m = Some e"
  shows "e \<in> set A"
proof -
  from assms(3) obtain e0 where e0: "e0 \<in> set A" "sm_payload m = dp_dump D e0" by blast
  with assms(1,2) have "dp_decode D (sm_payload m) = Some e0"
    by (simp add: round_trip_law_def list_all_iff)
  with assms(4) e0(1) show ?thesis by (simp add: parse_def split: if_splits)
qed

lemma message_inv:
  assumes rt: "round_trip_law D" and inv: "platform_inv D P" and mem: "(m # ms, b) \<in> set (pl_work P)"
    and run: "persist_loop (new_worker D name) env k [m] b (sy_db (pl_system P), sy_redis (pl_system P)) = (res, d, r)"
  shows "system_inv (dp_str_of D) ((pl_system P)\<lparr>sy_db := d, sy_redis := r\<rparr>)
    \<and> sourced (dp_outside D) (set (run_accepted (pl_api P))) d"
proof (cases "parse (new_worker D name) m")
  case None
  with run have "d = sy_db (pl_system P)" "r = sy_redis (pl_system P)" by simp_all
  with inv show ?thesis by (simp add: platform_inv_def)
next
  case (Some e)
  let ?p = "iw_processor (new_worker D name)" and ?A = "set (run_accepted (pl_api P))"
  obtain x where step: "process ?p (fst (env k)) (snd (env k)) e (sy_db (pl_system P), sy_redis (pl_system P)) = (x, d, r)"
    using run Some by (auto split: prod.splits sum.splits)
  have "sm_payload m \<in> dp_dump D ` ?A" "list_all (dp_valid D) (run_accepted (pl_api P))"
    using inv mem by (force simp: platform_inv_def work_sourced_def api_sourced_def)+
  from parsed_is_accepted [OF rt this(2,1) Some] have e: "e \<in> ?A" .
  have ok: "system_inv (dp_str_of D) (pl_system P)" "sourced (dp_outside D) ?A (sy_db (pl_system P))"
    using inv by (simp_all add: platform_inv_def)
  then have "db_ok (sy_db (pl_system P))" by (simp add: system_inv_def)
  from process_sourced [of ?p, OF _ this _ e step] ok(2) have "sourced (dp_outside D) ?A d" by simp
  moreover have "system_inv (dp_str_of D) ((pl_system P)\<lparr>sy_db := d, sy_redis := r\<rparr>)"
    using ingest_inv [OF ok(1), of ?p] step by simp
  ultimately show ?thesis by blast
qed

lemma platform_step_inv:
  assumes laws: "log_server (dp_streams D)" and rt: "round_trip_law D"
    and inv: "platform_inv D P" and step: "platform_step D P P'"
  shows "platform_inv D P'"
  using step
proof cases
  case (api act)
  from log_server.api_step_sourced [OF laws refl _ api(2)] inv
  have "api_sourced D (api_step D act (pl_api P))"
    and more_accepted: "set (run_accepted (pl_api P)) \<subseteq> set (run_accepted (api_step D act (pl_api P)))"
    by (simp_all add: platform_inv_def)
  with inv api(1) show ?thesis
    using work_sourced_mono [OF _ more_accepted, of D "pl_work P"]
      sourced_mono [OF _ more_accepted, of "dp_outside D" "sy_db (pl_system P)"]
    by (simp add: platform_inv_def)
next
  case restart
  with inv show ?thesis
    by (auto simp: platform_inv_def api_sourced_def start_app_def server_def new_buffer_def start_def)
next
  case (group name res q)
  from log_server.ensure_group_log [OF laws _ group(2)] inv group(1) show ?thesis
    by (simp add: inv_server log_within_same)
next
  case (fetch name cycle ms q)
  note log = log_server.next_messages_log [OF laws _ _ fetch(2)]
  have "sm_payload ` set ms \<subseteq> dp_dump D ` set (run_accepted (pl_api P))"
    using log(2) inv by (fastforce simp: platform_inv_def api_sourced_def server_def)
  moreover have "platform_inv D (with_server q P)"
    using inv log(1) by (simp add: inv_server log_within_same)
  ultimately show ?thesis using fetch(1) by (auto simp: platform_inv_def work_sourced_def)
next
  case (fetch_failed name cycle x q)
  from log_server.next_messages_log(1) [OF laws _ _ fetch_failed(2)] inv fetch_failed(1) show ?thesis
    by (simp add: inv_server log_within_same)
next
  case (message m ms b name env k res d r)
  have "work_sourced D (run_accepted (pl_api P))
      (pl_work P @ (case res of Inl x \<Rightarrow> [] | Inr b' \<Rightarrow> [(ms, b')]))"
  proof -
    have held: "work_sourced D (run_accepted (pl_api P)) (pl_work P)" using inv by (simp add: platform_inv_def)
    from bspec [OF this [unfolded work_sourced_def] message(2)]
    have "sm_payload ` set ms \<subseteq> dp_dump D ` set (run_accepted (pl_api P))" by simp
    with held show ?thesis by (auto simp: work_sourced_def split: sum.splits)
  qed
  with message_inv [OF rt inv message(2,3)] inv message(1) show ?thesis
    by (simp add: platform_inv_def)
next
  case (settle b name res q)
  from staysD [OF log_server.settle_within [OF laws] settle(3)] inv settle(1) show ?thesis
    by (simp add: inv_server)
next
  case (die work)
  have "work_sourced D A work" if "work_sourced D A (pl_work P)" for A
    using that die(2) unfolding work_sourced_def by blast
  with inv die(1) show ?thesis by (simp add: platform_inv_def)
next
  case (dispatch_side y)
  with inv dispatch_step_inv [OF _ dispatch_side(2)] outbox_only_sourced [OF dispatch_step_only [OF dispatch_side(2)], of "dp_outside D"]
  show ?thesis by (simp add: platform_inv_def)
qed

text \<open>A deployment over a server that keeps the laws runs within the invariant.\<close>

locale deployed = log_server "dp_streams D" for D :: "('d, 'r, 'q) deployment" +
  assumes round_trip: "round_trip_law D"

sublocale deployed \<subseteq> runs: invariant_system "start_platform D" "platform_step D" "platform_inv D"
  by unfold_locales (rule start_platform_inv platform_step_inv [OF log_server_axioms round_trip]; assumption)+

context deployed
begin

lemma platform_reaches: "start_platform D P0 \<Longrightarrow> (platform_step D)\<^sup>*\<^sup>* P0 P \<Longrightarrow> platform_inv D P"
  by (rule runs.reachable_inv)

end

end
