(* ===== verification/Pipeline_Claims.thy ===== *)
theory Pipeline_Claims
  imports Pipeline Delivery_Run
begin

text \<open>
  The property of the whole platform, from the webhook to the ERP, with an in-memory stream server
  for the witness that hands out what was appended to it.
\<close>

section \<open>A server that hands out its entries\<close>

text \<open>One cursor for the group; an id is the position of its entry.\<close>

record topics =
  to_entries :: "(string \<times> (string \<times> string) list list) list"
  to_cursor :: nat
  to_pending :: "(string \<times> (string \<times> string) list) list"

definition topic :: "topics \<Rightarrow> string \<Rightarrow> (string \<times> string) list list" where
  "topic q s = (case map_of (to_entries q) s of None \<Rightarrow> [] | Some es \<Rightarrow> es)"

definition as_bytes :: "(string \<times> string) list \<Rightarrow> fields" where
  "as_bytes entry = map (\<lambda>(k, v). (RBytes k, RBytes v)) entry"

definition numbered :: "nat \<Rightarrow> 'a list \<Rightarrow> (string \<times> 'a) list" where
  "numbered n xs = zip (map nat_str [n..<n + length xs]) xs"

definition topics_streams :: "topics streams" where
  "topics_streams = \<lparr>
     st_xgroup_create = (\<lambda>s g i mk q. (Inr (), q\<lparr>to_cursor := 0\<rparr>)),
     st_xreadgroup = (\<lambda>g c s p n b q.
        let new = take (nat n) (drop (to_cursor q) (topic q s)) in
        (Inr (if new = [] then [] else [(RBytes s, map (\<lambda>(i, f). (RBytes i, as_bytes f)) (numbered (to_cursor q) new))]),
         q\<lparr>to_cursor := to_cursor q + length new, to_pending := to_pending q @ numbered (to_cursor q) new\<rparr>)),
     st_xpending = (\<lambda>s g n idle q. (Inr (map (\<lambda>(i, f). (RBytes i, 1)) (take (nat n) (to_pending q))), q)),
     st_xclaim = (\<lambda>s g c idle ids q.
        (Inr (map (\<lambda>(i, f). (RBytes i, as_bytes f))
           (filter (\<lambda>(i, f). i \<in> set ids \<and> f \<in> set (topic q s)) (to_pending q))), q)),
     st_xack = (\<lambda>s g ids q.
        (Inr (int (length (filter (\<lambda>(i, f). i \<in> set ids) (to_pending q)))),
         q\<lparr>to_pending := filter (\<lambda>(i, f). i \<notin> set ids) (to_pending q)\<rparr>)),
     st_xadd = (\<lambda>s f n q. (Inr ''1-1'', q\<lparr>to_entries := AList.update s
        (let es = topic q s @ [f] in drop (nat (int (length es) - n)) es) (to_entries q)\<rparr>)),
     st_xlen = (\<lambda>s q. (Inr (int (length (topic q s))), q)),
     st_entries = topic,
     st_pending = (\<lambda>q s. fst ` set (to_pending q))\<rparr>"

lemma topics_xadd_law: "xadd_law topics_streams"
proof -
  have "\<exists>k. drop (nat (int (length (es @ [f])) - n)) (es @ [f]) = drop k (es @ [f]) \<and> (int (length es) < n \<longrightarrow> k = 0)"
    for es :: "(string \<times> string) list list" and f n
    by (rule exI [of _ "nat (int (length (es @ [f])) - n)"]) auto
  then show ?thesis
    by (simp add: xadd_law_def topics_streams_def Let_def topic_def update_conv')
qed

lemma topics_xack_law: "xack_law topics_streams"
  by (auto simp: xack_law_def topics_streams_def topic_def)

lemma topics_xlen_law: "xlen_law topics_streams"
  by (auto simp: xlen_law_def topics_streams_def)

lemma topics_feed_law: "feed_law topics_streams"
  by (auto simp: feed_law_def topics_streams_def topic_def Let_def)

lemma set_numbered: "(i, f) \<in> set (numbered n xs) \<Longrightarrow> f \<in> set xs"
  unfolding numbered_def by (rule set_zip_rightD)

lemma topics_delivery_law: "delivery_law topics_streams"
  unfolding delivery_law_def delivered_def topics_streams_def
  by (auto simp: Let_def as_bytes_def dest!: set_numbered dest: in_set_takeD in_set_dropD split: if_splits)

interpretation topics: log_server topics_streams
  by unfold_locales (rule topics_xadd_law topics_xack_law topics_xlen_law topics_feed_law topics_delivery_law)+

section \<open>A deployment\<close>

definition sample_valid :: "sample envelope \<Rightarrow> bool" where
  "sample_valid e \<longleftrightarrow> e = client_event \<or> e = order_event \<or> e = payment_event"

definition sample_deployment :: "(sample, string set \<times> bool, topics) deployment" where
  "sample_deployment = \<lparr>dp_settings = default_settings, dp_streams = topics_streams, dp_redis = key_store,
     dp_outside = sample_outside, dp_valid = sample_valid, dp_dump = ev_event_id,
     dp_decode = (\<lambda>s. if s = ''evt-0001'' then Some client_event else if s = ''evt-0002'' then Some order_event
                      else if s = ''evt-0003'' then Some payment_event else None),
     dp_str_of = json_str\<rparr>"

lemma sample_round_trip: "round_trip_law sample_deployment"
  by (auto simp: round_trip_law_def sample_deployment_def sample_valid_def client_event_def order_event_def
      payment_event_def sample_event_def)

interpretation sample: deployed sample_deployment
  by unfold_locales
    (simp_all add: sample_deployment_def topics_xadd_law topics_xack_law topics_xlen_law topics_feed_law
      topics_delivery_law sample_round_trip [unfolded sample_deployment_def])

section \<open>A run from the webhook to the ERP\<close>

lemma api_run_reaches:
  "list_all (action_valid (dp_valid D)) acts \<Longrightarrow>
   (platform_step D)\<^sup>*\<^sup>* P (P\<lparr>pl_api := fold (api_step D) acts (pl_api P)\<rparr>)"
proof (induction acts arbitrary: P)
  case (Cons act acts)
  let ?P1 = "P\<lparr>pl_api := api_step D act (pl_api P)\<rparr>"
  have "platform_step D P ?P1" using Cons.prems by (simp add: platform_step.api)
  moreover have "(platform_step D)\<^sup>*\<^sup>* ?P1 (?P1\<lparr>pl_api := fold (api_step D) acts (pl_api ?P1)\<rparr>)"
    using Cons.IH [of ?P1] Cons.prems by simp
  ultimately show ?case by simp
qed simp

lemma dispatch_runs_platform:
  "(dispatch_step (dp_settings D) (dp_str_of D))\<^sup>*\<^sup>* y y' \<Longrightarrow> pl_system P = y \<Longrightarrow>
   (platform_step D)\<^sup>*\<^sup>* P (P\<lparr>pl_system := y'\<rparr>)"
proof (induction rule: rtranclp_induct)
  case (step y1 y2)
  then have "platform_step D (P\<lparr>pl_system := y1\<rparr>) (P\<lparr>pl_system := y1, pl_system := y2\<rparr>)"
    by (intro platform_step.dispatch_side) simp
  with step show ?case by (simp add: rtranclp.rtrancl_into_rtrancl)
next
  case base
  then have "P\<lparr>pl_system := y\<rparr> = P" by (cases P) simp
  then show ?case by simp
qed

lemma sample_worker_processor: "iw_processor (new_worker sample_deployment name) = sample_processor"
  by (simp add: new_worker_def sample_deployment_def sample_processor_def)

text \<open>One message of a worker's batch, whose event is processed, with Redis as it was before.\<close>

lemma message_reaches:
  assumes "(m # ms, b) \<in> set (pl_work P)" and "parse (new_worker sample_deployment name) m = Some e"
    and "pl_system P = first_state\<lparr>sy_db := d\<rparr>"
    and "\<not> isl (fst (process sample_processor sample_clock CommitOk e (d, ({}, True))))"
  shows "\<exists>b' work. (platform_step sample_deployment)\<^sup>*\<^sup>* P
      (P\<lparr>pl_system := first_state\<lparr>sy_db := after_process e d\<rparr>, pl_work := work\<rparr>) \<and> (ms, b') \<in> set work"
proof -
  obtain res d1 r1 where run: "process sample_processor sample_clock CommitOk e (d, ({}, True)) = (Inr res, d1, r1)"
    using assms(4) by (cases "fst (process sample_processor sample_clock CommitOk e (d, ({}, True)))")
      (auto simp: prod_eq_iff)
  then have d1: "d1 = after_process e d" by (simp add: after_process_def)
  obtain b' where loop: "persist_loop (new_worker sample_deployment name) sample_env 0 [m] b
      (sy_db (pl_system P), sy_redis (pl_system P)) = (Inr b', d1, r1)"
    using assms(2,3) run by (auto simp: sample_worker_processor sample_env_def first_state_def)
  let ?work = "pl_work P @ [(ms, b')]"
  let ?P1 = "P\<lparr>pl_system := (pl_system P)\<lparr>sy_db := d1, sy_redis := r1\<rparr>, pl_work := ?work\<rparr>"
  have "platform_step sample_deployment P ?P1"
    using platform_step.message [OF assms(1) loop] by simp
  moreover have "platform_step sample_deployment ?P1 (?P1\<lparr>pl_system := (pl_system ?P1)\<lparr>sy_redis := ({}, True)\<rparr>\<rparr>)"
    by (intro platform_step.dispatch_side dispatch_step.redis)
  moreover have "?P1\<lparr>pl_system := (pl_system ?P1)\<lparr>sy_redis := ({}, True)\<rparr>\<rparr>
      = P\<lparr>pl_system := first_state\<lparr>sy_db := after_process e d\<rparr>, pl_work := ?work\<rparr>"
    using assms(3) d1 by (simp add: first_state_def)
  ultimately show ?thesis
    by (intro exI [of _ b'] exI [of _ ?work]) (auto intro: converse_rtranclp_into_rtranclp)
qed

definition first_platform :: "(sample, string set \<times> bool, topics) platform" where
  "first_platform = \<lparr>pl_api = start_run \<lparr>to_entries = [], to_cursor = 0, to_pending = []\<rparr>, pl_work = [],
     pl_system = first_state\<rparr>"

definition sample_posted :: "(sample envelope, topics) api_run" where
  "sample_posted = fold (api_step sample_deployment)
     [Receive 1 1 [client_event, order_event, payment_event], Take_batch, Publish_batch] (pl_api first_platform)"

definition sample_fetched :: "(exn + stream_message list) \<times> topics" where
  "sample_fetched = next_messages (new_worker sample_deployment ''w1'') 1 (ap_server (run_app sample_posted))"

lemma sample_posted_eval: "map ev_event_id (run_accepted sample_posted) = [''evt-0001'', ''evt-0002'', ''evt-0003'']"
  by code_simp

lemma sample_fetched_eval:
  "case fst sample_fetched of Inl _ \<Rightarrow> False
   | Inr ms \<Rightarrow> map sm_payload ms = [''evt-0001'', ''evt-0002'', ''evt-0003'']"
  by code_simp

lemma sample_events_return:
  "\<not> isl (fst (process sample_processor sample_clock CommitOk client_event (empty_db, ({}, True))))"
  "\<not> isl (fst (process sample_processor sample_clock CommitOk order_event (db_1, ({}, True))))"
  "\<not> isl (fst (process sample_processor sample_clock CommitOk payment_event (db_2, ({}, True))))"
  by code_simp+

lemma platform_run:
  "\<exists>P. (platform_step sample_deployment)\<^sup>*\<^sup>* first_platform P \<and> pl_system P = last_state
     \<and> run_accepted (pl_api P) = run_accepted sample_posted"
proof -
  let ?D = sample_deployment
  let ?go = "(platform_step ?D)\<^sup>*\<^sup>*"
  let ?acts = "[Receive 1 1 [client_event, order_event, payment_event], Take_batch, Publish_batch]"
  let ?P1 = "first_platform\<lparr>pl_api := sample_posted\<rparr>"
  have "list_all (action_valid (dp_valid ?D)) ?acts"
    by (simp add: sample_deployment_def sample_valid_def)
  from api_run_reaches [OF this, of first_platform]
  have posted: "?go first_platform ?P1" by (simp add: sample_posted_def)
  obtain m1 m2 m3 where ms: "fst sample_fetched = Inr [m1, m2, m3]"
    and texts: "sm_payload m1 = ''evt-0001''" "sm_payload m2 = ''evt-0002''" "sm_payload m3 = ''evt-0003''"
    using sample_fetched_eval by (cases "fst sample_fetched") (auto simp: Cons_eq_map_conv map_eq_Cons_conv)
  let ?P2 = "(with_server (snd sample_fetched) ?P1)\<lparr>pl_work := [([m1, m2, m3], empty_batch)]\<rparr>"
  have "next_messages (new_worker ?D ''w1'') 1 (server ?P1) = (Inr [m1, m2, m3], snd sample_fetched)"
    using ms by (simp add: server_def sample_fetched_def prod_eq_iff)
  from platform_step.fetch [OF this] have fetched: "platform_step ?D ?P1 ?P2"
    by (simp add: first_platform_def with_server_def)
  have parse: "parse (new_worker ?D ''w1'') m1 = Some client_event" "parse (new_worker ?D ''w1'') m2 = Some order_event"
    "parse (new_worker ?D ''w1'') m3 = Some payment_event"
    using texts by (simp_all add: parse_def sample_deployment_def) (code_simp+)
  have sys: "pl_system ?P2 = first_state\<lparr>sy_db := empty_db\<rparr>"
    by (simp add: first_platform_def first_state_def)
  obtain b1 w1 where one: "?go ?P2 (?P2\<lparr>pl_system := first_state\<lparr>sy_db := db_1\<rparr>, pl_work := w1\<rparr>)"
    "([m2, m3], b1) \<in> set w1"
    using message_reaches [OF _ parse(1) sys sample_events_return(1), of "[m2, m3]" empty_batch]
    by (auto simp: db_1_def)
  let ?P3 = "?P2\<lparr>pl_system := first_state\<lparr>sy_db := db_1\<rparr>, pl_work := w1\<rparr>"
  obtain b2 w2 where two: "?go ?P3 (?P3\<lparr>pl_system := first_state\<lparr>sy_db := db_2\<rparr>, pl_work := w2\<rparr>)"
    "([m3], b2) \<in> set w2"
    using message_reaches [OF _ parse(2) _ sample_events_return(2), of "[m3]" b1 ?P3] one(2)
    by (auto simp: db_2_def)
  let ?P4 = "?P3\<lparr>pl_system := first_state\<lparr>sy_db := db_2\<rparr>, pl_work := w2\<rparr>"
  obtain w3 where three: "?go ?P4 (?P4\<lparr>pl_system := first_state\<lparr>sy_db := db_3\<rparr>, pl_work := w3\<rparr>)"
    using message_reaches [OF _ parse(3) _ sample_events_return(3), of "[]" b2 ?P4] two(2)
    by (auto simp: db_3_def)
  let ?P5 = "?P4\<lparr>pl_system := first_state\<lparr>sy_db := db_3\<rparr>, pl_work := w3\<rparr>"
  have "?go ?P5 (?P5\<lparr>pl_system := last_state\<rparr>)"
    using dispatch_run_reaches by (intro dispatch_runs_platform) (simp_all add: sample_deployment_def)
  with posted fetched one(1) two(1) three have "?go first_platform (?P5\<lparr>pl_system := last_state\<rparr>)"
    by (meson rtranclp.rtrancl_into_rtrancl rtranclp_trans)
  then show ?thesis by (intro exI conjI, assumption) (simp_all add: with_server_def)
qed

text \<open>
  C1. From the webhook to the ERP. Over a stream server that keeps the documented laws and a JSON
  library that reads back what it writes, in every state that the API, any number of ingest and
  dispatch workers and the ERP reach together, whatever fails, dies, restarts or is delivered twice:
  the database is consistent; every row of the ledger is an accepted event of the webhook, each at most
  once; every order row is the order of an accepted \<open>order.created\<close> event, with its total, each order id
  once; and every order that the ERP has registered was created by an accepted event and approved by
  an accepted payment event.
\<close>

theorem erp_orders_were_accepted:
  assumes "xadd_law (dp_streams D)" and "xack_law (dp_streams D)" and "xlen_law (dp_streams D)"
    and "feed_law (dp_streams D)" and "delivery_law (dp_streams D)" and "round_trip_law D"
    and "\<forall>u. dp_str_of D (JStr u) = u"
    and "start_platform D P0" and "(platform_step D)\<^sup>*\<^sup>* P0 P"
    and "A = set (run_accepted (pl_api P))" and "d = sy_db (pl_system P)"
  shows "db_ok d
    \<and> distinct (map pe_event_id (processed_events d))
    \<and> (\<forall>row \<in> set (processed_events d).
         \<exists>e \<in> A. ev_event_id e = pe_event_id row \<and> event_type_value (ev_event_type e) = pe_event_type row)
    \<and> distinct (map or_order_uid (orders d))
    \<and> (\<forall>o1 \<in> set (orders d). \<exists>e \<in> A. \<exists>c. ev_event_type e = ORDER_CREATED
         \<and> validate_order (dp_outside D) (ev_data e) = Some c
         \<and> ev_event_id e = or_source_event_id o1 \<and> oc_order_uid c = or_order_uid o1
         \<and> total_amount c = or_total_amount o1)
    \<and> (\<forall>(uid, eid) \<in> set (erp_id_by_order (sy_erp (pl_system P))).
         (\<exists>e \<in> A. \<exists>c. ev_event_type e = ORDER_CREATED
            \<and> validate_order (dp_outside D) (ev_data e) = Some c \<and> oc_order_uid c = uid)
         \<and> (\<exists>e \<in> A. \<exists>p. ev_event_type e = PAYMENT_UPDATED
            \<and> validate_payment (dp_outside D) (ev_data e) = Some p
            \<and> pu_order_uid p = uid \<and> pu_status p = PayAPPROVED))"
proof -
  have "deployed D" using assms(1-6) by unfold_locales
  from deployed.platform_reaches [OF this assms(8,9)]
  have sys: "system_inv (dp_str_of D) (pl_system P)" and src: "sourced (dp_outside D) A d"
    by (simp_all add: platform_inv_def assms(10,11))
  have ok: "db_ok d" and erp: "erp_ok (dp_str_of D) (sy_erp (pl_system P)) d"
    using sys by (simp_all add: system_inv_def assms(11))
  have keys: "distinct (map pe_event_id (processed_events d))" "distinct (map or_order_uid (orders d))"
    using db_okD(1) [OF ok] by (simp_all add: db_keys_def)
  have orders: "\<forall>o1 \<in> set (orders d). ordered_by (dp_outside D) A o1
      \<and> (or_status o1 \<noteq> OrdPENDING \<longrightarrow> paid_by (dp_outside D) A (or_order_uid o1))"
    and ledger: "ledger_sourced A d"
    using src by (simp_all add: sourced_def orders_sourced_def)
  have created: "\<exists>e \<in> A. \<exists>c. ev_event_type e = ORDER_CREATED
      \<and> validate_order (dp_outside D) (ev_data e) = Some c
      \<and> ev_event_id e = or_source_event_id o1 \<and> oc_order_uid c = or_order_uid o1
      \<and> total_amount c = or_total_amount o1" if "o1 \<in> set (orders d)" for o1
    using bspec [OF orders that, THEN conjunct1] unfolding ordered_by_def by blast
  have registered: "(\<exists>e \<in> A. \<exists>c. ev_event_type e = ORDER_CREATED
        \<and> validate_order (dp_outside D) (ev_data e) = Some c \<and> oc_order_uid c = uid)
      \<and> (\<exists>e \<in> A. \<exists>p. ev_event_type e = PAYMENT_UPDATED
        \<and> validate_payment (dp_outside D) (ev_data e) = Some p
        \<and> pu_order_uid p = uid \<and> pu_status p = PayAPPROVED)"
    if reg: "(uid, eid) \<in> set (erp_id_by_order (sy_erp (pl_system P)))" for uid eid
  proof -
    obtain o1 where o1: "o1 \<in> set (orders d)" "or_order_uid o1 = uid" "or_status o1 \<noteq> OrdPENDING"
      using registered_is_approved [OF ok erp reg] assms(7) by auto
    have "paid_by (dp_outside D) A uid" using bspec [OF orders o1(1)] o1(2,3) by blast
    then show ?thesis using created [OF o1(1), unfolded o1(2)] unfolding paid_by_def by blast
  qed
  show ?thesis
    by (intro conjI ballI ok keys ledger [unfolded ledger_sourced_def, rule_format] created)
      (assumption+, simp only: split_paired_all prod.case, rule registered)
qed

theorem erp_orders_were_accepted_witness:
  "\<exists>P. (platform_step sample_deployment)\<^sup>*\<^sup>* first_platform P
     \<and> length (processed_events (sy_db (pl_system P))) = 3
     \<and> (\<exists>eid. (''O1'', eid) \<in> set (erp_id_by_order (sy_erp (pl_system P))))
     \<and> (\<exists>e \<in> set (run_accepted sample_posted). \<exists>p. validate_payment sample_outside (ev_data e) = Some p
          \<and> pu_order_uid p = ''O1'' \<and> pu_status p = PayAPPROVED)"
proof -
  obtain P where run: "(platform_step sample_deployment)\<^sup>*\<^sup>* first_platform P" "pl_system P = last_state"
    "run_accepted (pl_api P) = run_accepted sample_posted"
    using platform_run by blast
  have "map fst (erp_id_by_order (snd answer_1)) = [''O1'']" "length (processed_events last_db) = 3"
    by code_simp+
  then obtain eid where eid: "(''O1'', eid) \<in> set (erp_id_by_order (sy_erp (pl_system P)))"
    and three: "length (processed_events (sy_db (pl_system P))) = 3"
    using run(2) by (auto simp: last_state_def)
  have start: "start_platform sample_deployment first_platform"
    by (auto simp: start_platform_def first_platform_def start_system_def first_state_def stream_log_def
        sample_deployment_def topics_streams_def topic_def)
  have str: "\<forall>u. dp_str_of sample_deployment (JStr u) = u" by (simp add: sample_deployment_def json_str_def)
  have X: "dp_streams sample_deployment = topics_streams" "dp_outside sample_deployment = sample_outside"
    by (simp_all add: sample_deployment_def)
  from erp_orders_were_accepted [of sample_deployment, unfolded X, OF topics_xadd_law topics_xack_law
      topics_xlen_law topics_feed_law topics_delivery_law sample_round_trip str start run(1) refl refl]
    eid run(3) three run(1)
  show ?thesis by fastforce
qed

end
