(* ===== verification/Seed.thy ===== *)
theory Seed
  imports Bulk_Claims Scenario
begin

text \<open>
  scripts/seed.py: twenty clients with an address each, written in one unit of work. A run threads the
  state of the random source and the session.
\<close>

section \<open>The script\<close>

definition seed_first :: "string list" where
  "seed_first = [''Ana'', ''Bruno'', ''Carla'', ''Daniel'', ''Eduarda'', ''Felipe'', ''Gabriela'', ''Henrique'']"

definition seed_last :: "string list" where
  "seed_last = [''Silva'', ''Santos'', ''Oliveira'', ''Souza'', ''Rodrigues'', ''Ferreira'', ''Almeida'']"

definition seed_cities :: "(string \<times> string) list" where
  "seed_cities = [(''SP'', ''Sao Paulo''), (''PR'', ''Curitiba''), (''SC'', ''Joinville''),
     (''MG'', ''Belo Horizonte''), (''RS'', ''Porto Alegre''), (''DF'', ''Brasilia'')]"

definition seed_size :: int where "seed_size = 20"

text \<open>\<open>_cpf\<close> and its inner function, the script's own copy of the generator's.\<close>

definition seed_digit :: "int list \<Rightarrow> int" where
  "seed_digit numbers =
     (let weight = int (length numbers) + 1;
          total = sum_list (map (\<lambda>(i, n). n * (weight - int i)) (zip [0..<length numbers] numbers));
          remainder = (total * 10) mod 11 in
      if remainder = 10 then 0 else remainder)"

definition seed_cpf :: "'g rng \<Rightarrow> 'g \<Rightarrow> string \<times> 'g" where
  "seed_cpf R g =
     (case draw 9 (rg_randint R 0 9) g of
        (base, g') \<Rightarrow>
          let base1 = base @ [seed_digit base]; base2 = base1 @ [seed_digit base1] in
          (concat (map int_str base2), g'))"

definition seed_client_uid :: "int \<Rightarrow> string" where
  "seed_client_uid i = ''SEED-CLI-'' @ zero_pad 5 i"

definition seed_address :: "int \<Rightarrow> string \<Rightarrow> string \<Rightarrow> int \<Rightarrow> address_payload" where
  "seed_address i state city zip_code =
     \<lparr>ap_address_uid = ''SEED-ADDR-'' @ zero_pad 5 i, ap_street = ''Avenida das Industrias'',
      ap_number = int_str (100 + i), ap_complement = None, ap_district = ''Centro'', ap_city = city,
      ap_state = state, ap_zip_code = int_str zip_code\<rparr>"

definition on_rng :: "('g \<Rightarrow> 'a \<times> 'g) \<Rightarrow> ('g \<times> db, exn, 'a) prog" where
  "on_rng f = (\<lambda>(g, d). case f g of (x, g') \<Rightarrow> (Inr x, g', d))"

definition on_db :: "'a sess \<Rightarrow> ('g \<times> db, exn, 'a) prog" where
  "on_db m = (\<lambda>(g, d). case m d of (r, d') \<Rightarrow> (r, g, d'))"

text \<open>One turn of the loop; the result says whether the client was created.\<close>

definition seed_client :: "'g rng \<Rightarrow> clock \<Rightarrow> int \<Rightarrow> ('g \<times> db, exn, bool) prog" where
  "seed_client R clk i =
     bnd (on_db (clients_get_by_uid (seed_client_uid i))) (\<lambda>known.
       if known \<noteq> None then ret False
       else
         bnd (on_rng (rg_choice R (length seed_cities))) (\<lambda>c.
         bnd (on_rng (rg_choice R (length seed_first))) (\<lambda>f.
         bnd (on_rng (rg_choice R (length seed_last))) (\<lambda>l.
         bnd (on_rng (seed_cpf R)) (\<lambda>document.
         bnd (on_db (clients_upsert clk (seed_client_uid i) (seed_first ! f @ '' '' @ seed_last ! l) document
                (''cliente'' @ zero_pad 5 i @ ''@exemplo.com.br''))) (\<lambda>client.
         bnd (on_rng (rg_randint R 10000000 99999999)) (\<lambda>zip_code.
         bnd (on_db (addresses_upsert_version clk (cl_client_id client)
                (seed_address i (fst (seed_cities ! c)) (snd (seed_cities ! c)) zip_code)))
           (\<lambda>_. ret True))))))))"

primrec seed_clients :: "'g rng \<Rightarrow> clock \<Rightarrow> int list \<Rightarrow> nat \<Rightarrow> ('g \<times> db, exn, nat) prog" where
  "seed_clients R clk [] created = ret created"
| "seed_clients R clk (i # is) created =
     bnd (seed_client R clk i) (\<lambda>new. seed_clients R clk is (if new then created + 1 else created))"

definition seed_body :: "'g rng \<Rightarrow> clock \<Rightarrow> commit_fault \<Rightarrow> (uow, exn, nat) prog" where
  "seed_body R clk fault = (\<lambda>u.
     case seed_clients R clk [1..seed_size] 0 (rg_seed R 42, session_db u) of
       (Inl x, _, d) \<Rightarrow> (Inl x, u\<lparr>session_db := d\<rparr>)
     | (Inr created, _, d) \<Rightarrow> bnd (uow_commit fault) (\<lambda>_. ret created) (u\<lparr>session_db := d\<rparr>))"

definition seed_main :: "'g rng \<Rightarrow> clock \<Rightarrow> commit_fault \<Rightarrow> db \<Rightarrow> (exn + nat) \<times> db" where
  "seed_main R clk fault = with_uow (seed_body R clk fault)"

section \<open>The documents\<close>

lemma seed_digit_same: "seed_digit ns = cpf_digit ns"
proof -
  have "sum_list (map (\<lambda>(i, n). n * (w - int i)) (zip [k..<k + length ns] ns)) = weighted_sum (w - int k) ns" for w k
  proof (induction ns arbitrary: k)
    case (Cons n ns)
    have "zip [k..<k + length (n # ns)] (n # ns) = (k, n) # zip [Suc k..<Suc k + length ns] ns"
      by (simp add: upt_conv_Cons del: upt_Suc)
    with Cons.IH [of "Suc k"] show ?case by (simp add: algebra_simps)
  qed simp
  from this [of _ 0] show ?thesis by (simp add: seed_digit_def cpf_digit_def)
qed

lemma seed_cpf_same: "seed_cpf R = generate_cpf R"
  by (rule ext) (simp add: seed_cpf_def generate_cpf_def cpf_of_def seed_digit_same Let_def split: prod.split)

section \<open>Sizes\<close>

lemma length_nat_str: "10 ^ k \<le> n \<Longrightarrow> n < 10 ^ Suc k \<Longrightarrow> length (nat_str n) = Suc k"
proof (induction k arbitrary: n)
  case 0
  then show ?case by (subst nat_str.simps) simp
next
  case (Suc k)
  have "10 ^ k \<le> n div 10" "n div 10 < 10 ^ Suc k"
    using Suc.prems by (simp_all add: less_mult_imp_div_less div_le_mono mult.commute less_eq_div_iff_mult_less_eq)
  moreover have "\<not> n < 10"
  proof -
    have "(10::nat) \<le> 10 ^ Suc k" by simp
    then show ?thesis using Suc.prems(1) by linarith
  qed
  ultimately show ?case using Suc.IH by (subst nat_str.simps) simp
qed

lemma zip_code_length: "10000000 \<le> z \<Longrightarrow> z \<le> 99999999 \<Longrightarrow> length (int_str z) = 8"
  using length_nat_str [of 7 "nat z"] by (simp add: int_str_def nat_le_iff le_nat_iff)

lemma seed_texts:
  "\<forall>i \<in> {1..seed_size}. length (zero_pad 5 i) = 5 \<and> length (int_str (100 + i)) = 3"
  "\<forall>s \<in> set seed_first. length s \<le> 10" "\<forall>s \<in> set seed_last. length s \<le> 10"
  "\<forall>(state, city) \<in> set seed_cities. length state = 2 \<and> length city \<le> 20"
proof -
  have "list_all (\<lambda>i. length (zero_pad 5 i) = 5 \<and> length (int_str (100 + i)) = 3) [1..seed_size]" by code_simp
  then show "\<forall>i \<in> {1..seed_size}. length (zero_pad 5 i) = 5 \<and> length (int_str (100 + i)) = 3"
    by (simp add: list_all_iff)
qed (simp_all add: seed_first_def seed_last_def seed_cities_def)

section \<open>One turn\<close>

text \<open>A client the table knows is skipped; any other is appended, with its address, and the turn returns.\<close>

lemma seed_client_known:
  assumes "seed_client_uid i \<in> cl_client_uid ` set (clients d)"
  shows "seed_client R clk i (g, d) = (Inr False, g, d)"
proof -
  have "find (\<lambda>r. cl_client_uid r = seed_client_uid i) (clients d) \<noteq> None"
    using assms by (auto simp: find_None_iff)
  then show ?thesis by (auto simp: seed_client_def on_db_def clients_get_by_uid_def bnd_def)
qed

lemma clients_upsert_new:
  assumes "uid \<notin> cl_client_uid ` set (clients d)" and "length uid \<le> 64" and "length name \<le> 160"
    and "length doc \<le> 14" and "length mail \<le> 160"
  obtains row d1 where "clients_upsert clk uid name doc mail d = (Inr row, d1)"
    and "clients d1 = clients d @ [row]" and "cl_client_uid row = uid" and "orders d1 = orders d"
proof -
  have "find (\<lambda>r. cl_client_uid r = uid) (clients d) = None"
    using assms(1) by (auto simp: find_None_iff)
  with assms show thesis
    by (intro that [of "\<lparr>cl_client_id = client_seq d, cl_client_uid = uid, cl_full_name = name, cl_document = doc,
        cl_email = mail, cl_created_at = db_now clk, cl_updated_at = db_now clk\<rparr>"
      "d\<lparr>client_seq := client_seq d + 1, clients := clients d @ [\<lparr>cl_client_id = client_seq d, cl_client_uid = uid,
        cl_full_name = name, cl_document = doc, cl_email = mail, cl_created_at = db_now clk,
        cl_updated_at = db_now clk\<rparr>]\<rparr>"])
      (simp_all add: clients_upsert_def clients_get_by_uid_def clients_insert_def insert_client_def Let_def
        checked_insert_def client_fits_def)
qed

lemma seed_client_new:
  assumes "rng_law R" and "db_ok d" and "i \<in> {1..seed_size}"
    and "seed_client_uid i \<notin> cl_client_uid ` set (clients d)"
  obtains g' d' row where "seed_client R clk i (g, d) = (Inr True, g', d')" and "db_ok d'"
    and "clients d' = clients d @ [row]" and "cl_client_uid row = seed_client_uid i" and "orders d' = orders d"
proof -
  obtain c g1 where c: "rg_choice R (length seed_cities) g = (c, g1)" by (cases "rg_choice R (length seed_cities) g")
  obtain f g2 where f: "rg_choice R (length seed_first) g1 = (f, g2)" by (cases "rg_choice R (length seed_first) g1")
  obtain l g3 where l: "rg_choice R (length seed_last) g2 = (l, g3)" by (cases "rg_choice R (length seed_last) g2")
  obtain doc g4 where doc: "seed_cpf R g3 = (doc, g4)" by (cases "seed_cpf R g3")
  obtain z g5 where z: "rg_randint R 10000000 99999999 g4 = (z, g5)" by (cases "rg_randint R 10000000 99999999 g4")
  have choice: "n < k" if "0 < k" "rg_choice R k h = (n, h')" for n k h h'
    using assms(1) that unfolding rng_law_def by (metis fst_conv)
  have "(10000000::int) \<le> 99999999" by simp
  then have "10000000 \<le> z \<and> z \<le> 99999999"
    using assms(1) z unfolding rng_law_def by (metis fst_conv)
  then have zip: "length (int_str z) = 8" by (simp add: zip_code_length)
  have "c < length seed_cities" "f < length seed_first" "l < length seed_last"
    using choice [OF _ c] choice [OF _ f] choice [OF _ l]
    by (simp_all add: seed_cities_def seed_first_def seed_last_def)
  from this have text_sizes: "length (fst (seed_cities ! c)) = 2" "length (snd (seed_cities ! c)) \<le> 20"
    "length (seed_first ! f) \<le> 10" "length (seed_last ! l) \<le> 10"
  proof -
    assume c: "c < length seed_cities" and f: "f < length seed_first" and l: "l < length seed_last"
    show "length (fst (seed_cities ! c)) = 2" "length (snd (seed_cities ! c)) \<le> 20"
      using bspec [OF seed_texts(4) nth_mem [OF c]] by (simp_all add: case_prod_beta)
    show "length (seed_first ! f) \<le> 10" "length (seed_last ! l) \<le> 10"
      using bspec [OF seed_texts(2) nth_mem [OF f]] bspec [OF seed_texts(3) nth_mem [OF l]] by simp_all
  qed
  have sizes: "length (zero_pad 5 i) = 5" "length (int_str (100 + i)) = 3"
    using seed_texts(1) assms(3) by simp_all
  have "length doc = 11"
    using generated_cpf_is_valid [OF assms(1), of g3] doc by (auto simp: seed_cpf_same)
  then have fits: "length (seed_client_uid i) \<le> 64" "length (seed_first ! f @ '' '' @ seed_last ! l) \<le> 160"
    "length doc \<le> 14" "length (''cliente'' @ zero_pad 5 i @ ''@exemplo.com.br'') \<le> 160"
    using text_sizes sizes by (simp_all add: seed_client_uid_def)
  obtain row d1 where
    up: "clients_upsert clk (seed_client_uid i) (seed_first ! f @ '' '' @ seed_last ! l) doc
            (''cliente'' @ zero_pad 5 i @ ''@exemplo.com.br'') d = (Inr row, d1)"
    and row: "clients d1 = clients d @ [row]" "cl_client_uid row = seed_client_uid i" "orders d1 = orders d"
    by (rule clients_upsert_new [OF assms(4) fits, where clk = clk])
  have ok1: "db_ok d1" using keepsD [OF clients_upsert_ok up assms(2)] .
  let ?p = "seed_address i (fst (seed_cities ! c)) (snd (seed_cities ! c)) z"
  have "address_payload_ok ?p"
    using zip text_sizes sizes by (simp add: address_payload_ok_def seed_address_def len_between_def)
  moreover have "cl_client_id row \<in> cl_client_id ` set (clients d1)" using row(1) by simp
  ultimately obtain a d2 where ver: "addresses_upsert_version clk (cl_client_id row) ?p d1 = (Inr a, d2)"
    and d2: "clients d2 = clients d1" "orders d2 = orders d1"
    using upsert_version_run [OF ok1, of ?p "cl_client_id row" clk] by blast
  have "db_ok d2" using keepsD [OF addresses_upsert_version_ok ver ok1] .
  moreover have "find (\<lambda>r. cl_client_uid r = seed_client_uid i) (clients d) = None"
    using assms(4) unfolding find_None_iff by (metis image_eqI)
  then have "seed_client R clk i (g, d) = (Inr True, g5, d2)"
    using c f l doc z up ver
    by (simp add: seed_client_def on_db_def on_rng_def clients_get_by_uid_def bnd_def)
  ultimately show thesis using row d2 by (intro that [of g5 d2 row]) simp_all
qed

section \<open>The loop\<close>

definition missing :: "int list \<Rightarrow> db \<Rightarrow> int list" where
  "missing is d = filter (\<lambda>i. seed_client_uid i \<notin> cl_client_uid ` set (clients d)) is"

lemma seed_client_uid_inj: "\<forall>i \<in> {1..seed_size}. \<forall>j \<in> {1..seed_size}. seed_client_uid i = seed_client_uid j \<longrightarrow> i = j"
proof -
  have "distinct (map seed_client_uid [1..seed_size])" by code_simp
  then have "inj_on seed_client_uid (set [1..seed_size])" by (simp add: distinct_map)
  then show ?thesis by (simp add: inj_on_def)
qed

lemma seed_clients_run:
  assumes "rng_law R" and "db_ok d" and "set is \<subseteq> {1..seed_size}" and "distinct is"
  obtains g' d' rows where "seed_clients R clk is n (g, d) = (Inr (n + length (missing is d)), g', d')"
    and "db_ok d'" and "clients d' = clients d @ rows" and "map cl_client_uid rows = map seed_client_uid (missing is d)"
    and "orders d' = orders d"
  using assms(2-4)
proof (induction "is" arbitrary: n g d thesis)
  case Nil
  then show ?case by (simp add: missing_def)
next
  case (Cons i "is")
  show ?case
  proof (cases "seed_client_uid i \<in> cl_client_uid ` set (clients d)")
    case True
    obtain g' d' rows where "seed_clients R clk is n (g, d) = (Inr (n + length (missing is d)), g', d')"
      and "db_ok d'" and "clients d' = clients d @ rows" and "map cl_client_uid rows = map seed_client_uid (missing is d)"
      and "orders d' = orders d"
      by (rule Cons.IH [where d = d and n = n and g = g]) (use Cons.prems in auto)
    with True seed_client_known [OF True, of R clk g] show ?thesis
      by (intro Cons.prems(1) [of g' d' rows]) (simp_all add: bnd_def missing_def)
  next
    case False
    obtain g1 d1 row where one: "seed_client R clk i (g, d) = (Inr True, g1, d1)" "db_ok d1"
      "clients d1 = clients d @ [row]" "cl_client_uid row = seed_client_uid i" "orders d1 = orders d"
      by (rule seed_client_new [OF assms(1) Cons.prems(2) _ False, where g = g and clk = clk])
        (use Cons.prems in auto)
    have "seed_client_uid j \<noteq> seed_client_uid i" if "j \<in> set is" for j
      using seed_client_uid_inj Cons.prems(3,4) that by (metis distinct.simps(2) insert_subset list.simps(15) subsetD)
    then have same: "missing is d1 = missing is d"
      using one(3,4) by (auto simp: missing_def intro!: filter_cong)
    obtain g' d' rows where "seed_clients R clk is (n + 1) (g1, d1) = (Inr (n + 1 + length (missing is d1)), g', d')"
      and "db_ok d'" and "clients d' = clients d1 @ rows" and "map cl_client_uid rows = map seed_client_uid (missing is d1)"
      and "orders d' = orders d1"
      by (rule Cons.IH [where d = d1 and n = "n + 1" and g = g1]) (use Cons.prems one(2) in auto)
    with False one same show ?thesis
      by (intro Cons.prems(1) [of g' d' "row # rows"]) (simp_all add: bnd_def missing_def)
  qed
qed

lemma missing_after:
  assumes "clients d' = clients d @ rows" and "map cl_client_uid rows = map seed_client_uid (missing is d)"
  shows "missing is d' = []"
proof -
  have "cl_client_uid ` set rows = seed_client_uid ` set (missing is d)"
    using arg_cong [OF assms(2), of set] by simp
  with assms(1) show ?thesis by (auto simp: missing_def filter_empty_conv image_Un)
qed

lemma seed_main_run:
  assumes "rng_law R" and "db_ok d"
  obtains d1 rows where "db_ok d1" and "clients d1 = clients d @ rows"
    and "map cl_client_uid rows = map seed_client_uid (missing [1..seed_size] d)" and "orders d1 = orders d"
    and "missing [1..seed_size] d = [] \<Longrightarrow> d1 = d"
    and "seed_main R clk CommitOk d = (Inr (length (missing [1..seed_size] d)), d1)"
    and "\<And>x. seed_main R clk (CommitRefused x) d = (Inl x, rollback d d1)"
proof -
  have "set [1..seed_size] \<subseteq> {1..seed_size}" "distinct [1..seed_size]" by simp_all
  from seed_clients_run [OF assms this, where clk = clk and n = 0 and g = "rg_seed R 42"] obtain g' d1 rows where
    run: "seed_clients R clk [1..seed_size] 0 (rg_seed R 42, d) = (Inr (length (missing [1..seed_size] d)), g', d1)"
    and d1: "db_ok d1" "clients d1 = clients d @ rows"
      "map cl_client_uid rows = map seed_client_uid (missing [1..seed_size] d)" "orders d1 = orders d"
    by auto
  have still: "d1 = d" if none: "missing [1..seed_size] d = []"
  proof -
    have "seed_clients R clk is n (g, d) = (Inr n, g, d)" if "set is \<subseteq> set [1..seed_size]" for "is" n g
      using that
    proof (induction "is" arbitrary: n)
      case (Cons i "is")
      with none have "seed_client_uid i \<in> cl_client_uid ` set (clients d)"
        by (auto simp: missing_def filter_empty_conv)
      with Cons show ?case by (simp add: seed_client_known bnd_def)
    qed simp
    from this [of "[1..seed_size]" 0 "rg_seed R 42"] run show ?thesis by simp
  qed
  show thesis
    by (rule that [OF d1 still])
      (simp_all add: seed_main_def with_uow_def seed_body_def uow_defs run bnd_def)
qed

section \<open>Properties\<close>

text \<open>
  Seeding completes the seed and is idempotent. On every consistent database and with every source
  of random numbers a run returns how many of the twenty clients were missing, appends exactly those
  behind the clients that were there, in order, and touches no order; all twenty are then present, and
  the next run, with any random source and clock, creates none and leaves the database as it is. If
  the commit is refused nothing was stored. The script's own copy of the document generator is the
  catalog's, so every document has valid check digits.
\<close>

lemma seeding_is_idempotent:
  fixes R :: "'g rng"
  assumes "rng_law R" and "db_ok d"
  shows "(\<exists>d1 rows. seed_main R clk CommitOk d = (Inr (length rows), d1) \<and> db_ok d1
      \<and> clients d1 = clients d @ rows \<and> orders d1 = orders d
      \<and> map cl_client_uid rows
          = map seed_client_uid (filter (\<lambda>i. seed_client_uid i \<notin> cl_client_uid ` set (clients d)) [1..seed_size])
      \<and> (\<forall>i \<in> {1..seed_size}. seed_client_uid i \<in> cl_client_uid ` set (clients d1))
      \<and> (\<forall>(R' :: 'g rng) clk'. rng_law R' \<longrightarrow> seed_main R' clk' CommitOk d1 = (Inr 0, d1)))
    \<and> (\<exists>d2. seed_main R clk (CommitRefused x) d = (Inl x, d2) \<and> rows_same d d2)
    \<and> seed_cpf R = generate_cpf R"
proof -
  obtain d1 rows where d1: "db_ok d1" "clients d1 = clients d @ rows"
    "map cl_client_uid rows = map seed_client_uid (missing [1..seed_size] d)" "orders d1 = orders d"
    and ok: "seed_main R clk CommitOk d = (Inr (length (missing [1..seed_size] d)), d1)"
    and refused: "\<And>x. seed_main R clk (CommitRefused x) d = (Inl x, rollback d d1)"
    by (rule seed_main_run [OF assms, where clk = clk]) blast
  have none: "missing [1..seed_size] d1 = []" using missing_after [OF d1(2,3)] .
  have present: "\<forall>i \<in> {1..seed_size}. seed_client_uid i \<in> cl_client_uid ` set (clients d1)"
    using none by (auto simp: missing_def filter_empty_conv)
  have again: "seed_main R' clk' CommitOk d1 = (Inr 0, d1)" if "rng_law R'" for R' :: "'g rng" and clk'
    using seed_main_run [OF that d1(1), of clk'] none by (metis list.size(3))
  have "length (missing [1..seed_size] d) = length rows"
    using arg_cong [OF d1(3), of length] by simp
  with d1 ok present again have "seed_main R clk CommitOk d = (Inr (length rows), d1) \<and> db_ok d1
      \<and> clients d1 = clients d @ rows \<and> orders d1 = orders d
      \<and> map cl_client_uid rows
          = map seed_client_uid (filter (\<lambda>i. seed_client_uid i \<notin> cl_client_uid ` set (clients d)) [1..seed_size])
      \<and> (\<forall>i \<in> {1..seed_size}. seed_client_uid i \<in> cl_client_uid ` set (clients d1))
      \<and> (\<forall>(R' :: 'g rng) clk'. rng_law R' \<longrightarrow> seed_main R' clk' CommitOk d1 = (Inr 0, d1))"
    by (simp add: missing_def)
  with refused [of x] rows_same_rollback(1) seed_cpf_same show ?thesis by blast
qed

lemma seeding_is_idempotent_example:
  "(\<exists>d1 rows. seed_main flat_rng sample_clock CommitOk db_1 = (Inr (length rows), d1) \<and> length rows = 20
      \<and> clients d1 = clients db_1 @ rows)"
proof -
  let ?absent = "filter (\<lambda>i. seed_client_uid i \<notin> cl_client_uid ` set (clients db_1)) [1..seed_size]"
  have "length ?absent = 20" by code_simp
  moreover from seeding_is_idempotent [OF flat_rng_law db_ok_samples(1), of sample_clock] obtain d1 rows where
    "seed_main flat_rng sample_clock CommitOk db_1 = (Inr (length rows), d1)" "clients d1 = clients db_1 @ rows"
    "map cl_client_uid rows = map seed_client_uid ?absent" by blast
  moreover from this(3) have "length rows = length ?absent" by (metis length_map)
  ultimately show ?thesis by (metis (no_types))
qed

end
