(* ===== verification/Verify_Report.thy ===== *)
theory Verify_Report
  imports Bulk_Dag Streams
begin

text \<open>
  scripts/verify.py: the report an operator prints of the tables, the bulk load and the queue. The rows
  of a GROUP BY come in the order of the first row of each group; SQL leaves it open.
\<close>

section \<open>Formatting\<close>

definition width :: nat where "width = 64"

definition printed :: "string \<Rightarrow> string" where
  "printed s = s @ [CHR 0x0A]"

definition title :: "string \<Rightarrow> string" where
  "title t = printed ([CHR 0x0A] @ t @ [CHR 0x0A] @ replicate width (CHR ''-''))"

text \<open>\<open>_line\<close>: the value is right-aligned in ten columns.\<close>

definition line :: "string \<Rightarrow> string \<Rightarrow> string \<Rightarrow> string" where
  "line label v note =
     (let dots = replicate (max 2 (34 - length label)) (CHR ''.'');
          suffix = (if note = [] then [] else ''   '' @ note) in
      printed (''  '' @ label @ '' '' @ dots @ '' '' @ replicate (10 - length v) (CHR '' '') @ v @ suffix))"

text \<open>\<open>str.center\<close>: of an odd rest the larger part goes left in an odd width.\<close>

definition center :: "nat \<Rightarrow> string \<Rightarrow> string" where
  "center w s =
     (let pad = w - length s; left = pad div 2 + (if odd pad \<and> odd w then 1 else 0) in
      replicate left (CHR '' '') @ s @ replicate (pad - left) (CHR '' ''))"

text \<open>\<open>f"{n:,}".replace(",", ".")\<close>.\<close>

fun with_commas :: "nat \<Rightarrow> string" where
  "with_commas n = (if n < 1000 then nat_str n else with_commas (n div 1000) @ '','' @ zero_pad 3 (int (n mod 1000)))"

declare with_commas.simps [simp del]

definition with_dots :: "nat \<Rightarrow> string" where
  "with_dots n = map (\<lambda>c. if c = CHR '','' then CHR ''.'' else c) (with_commas n)"

section \<open>The queries\<close>

definition count_where :: "('a \<Rightarrow> bool) \<Rightarrow> 'a list \<Rightarrow> nat" where
  "count_where P rs = length (filter P rs)"

text \<open>\<open>SELECT COUNT(*) FROM (SELECT k FROM t GROUP BY k HAVING COUNT(*) > 1) t\<close>.\<close>

definition repeated :: "('a \<Rightarrow> 'k) \<Rightarrow> 'a list \<Rightarrow> nat" where
  "repeated k rs = count_where (\<lambda>x. 1 < count_where (\<lambda>r. k r = x) rs) (remdups (map k rs))"

text \<open>\<open>SELECT k, COUNT(*) FROM t GROUP BY k\<close>.\<close>

definition group_count :: "('a \<Rightarrow> 'k) \<Rightarrow> 'a list \<Rightarrow> ('k \<times> nat) list" where
  "group_count k rs = map (\<lambda>x. (x, count_where (\<lambda>r. k r = x) rs)) (remdups (map k rs))"

definition group_max :: "('a \<Rightarrow> 'k) \<Rightarrow> ('a \<Rightarrow> int) \<Rightarrow> 'k \<Rightarrow> 'a list \<Rightarrow> int" where
  "group_max k f x rs = (case map f (filter (\<lambda>r. k r = x) rs) of [] \<Rightarrow> 0 | n # ns \<Rightarrow> fold max ns n)"

definition cadastro :: "db \<Rightarrow> (string \<times> nat) list" where
  "cadastro d =
     [(''clientes'', length (clients d)), (''enderecos (todas as versoes)'', length (addresses d)),
      (''enderecos vigentes'', count_where ad_is_current (addresses d)),
      (''enderecos ja versionados'', repeated ad_address_uid (addresses d))]"

definition pedidos :: "db \<Rightarrow> (string \<times> nat) list" where
  "pedidos d =
     map (\<lambda>(status, total). (''status '' @ order_status_value status, total)) (group_count or_status (orders d))
     @ [(''total de pedidos'', length (orders d)), (''itens'', length (order_items d)),
        (''pagamentos'', length (payments d)), (''faturas'', length (invoices d))]"

definition idempotencia :: "db \<Rightarrow> (string \<times> nat) list" where
  "idempotencia d =
     [(''eventos processados (ledger)'', length (processed_events d)),
      (''pedidos duplicados'', repeated or_order_uid (orders d)),
      (''faturas duplicadas'', repeated in_order_id (invoices d)),
      (''pagamentos duplicados'', repeated (\<lambda>p. (pa_provider p, pa_provider_tx_id p)) (payments d))]"

definition integracao :: "db \<Rightarrow> (outbox_status \<times> nat \<times> int) list" where
  "integracao d =
     map (\<lambda>(status, total). (status, total, group_max ob_status ob_attempts status (outbox d)))
       (group_count ob_status (outbox d))"

definition carga :: "warehouse \<Rightarrow> nat \<times> nat" where
  "carga w = (size (wa_staging w), size (wa_fact w))"

text \<open>Both lengths are asked for before anything is printed, and every exception is caught.\<close>

definition fila :: "'q streams \<Rightarrow> settings \<Rightarrow> 'q \<Rightarrow> (exn + int \<times> int) \<times> 'q" where
  "fila X s =
     bnd (st_xlen X (stream_name s)) (\<lambda>pending.
     bnd (st_xlen X (dead_letter_stream s)) (\<lambda>dlq. ret (pending, dlq)))"

section \<open>The report\<close>

definition note_of :: "string \<Rightarrow> string" where
  "note_of label =
     (if label = ''enderecos ja versionados'' then ''SCD Tipo 2 em acao''
      else if label \<in> {''pedidos duplicados'', ''faturas duplicadas'', ''pagamentos duplicados''} then ''esperado: 0''
      else [])"

definition count_lines :: "(string \<times> nat) list \<Rightarrow> string" where
  "count_lines ls = concat (map (\<lambda>(label, n). line label (nat_str n) (note_of label)) ls)"

definition integracao_lines :: "db \<Rightarrow> string" where
  "integracao_lines d =
     (if integracao d = [] then line ''outbox'' ''vazia'' [] else [])
     @ concat (map (\<lambda>(status, total, attempts). line (''status '' @ outbox_status_value status) (nat_str total)
         (''maximo de '' @ int_str attempts @ '' tentativa(s)'')) (integracao d))"

definition fila_lines :: "exn + int \<times> int \<Rightarrow> string" where
  "fila_lines r =
     (case r of
        Inl x \<Rightarrow> line ''redis'' ''indisponivel'' (take 40 (exn_text x))
      | Inr (pending, dlq) \<Rightarrow> line ''stream de ingestao'' (int_str pending) []
          @ line ''dead letter queue'' (int_str dlq) ''esperado: 0'')"

definition verify_main :: "'q streams \<Rightarrow> settings \<Rightarrow> db \<Rightarrow> warehouse \<Rightarrow> 'q \<Rightarrow> string \<times> 'q" where
  "verify_main X s d w q =
     (case fila X s q of
        (queue, q') \<Rightarrow>
          (printed (replicate width (CHR ''='')) @ printed (center width '' ESTADO DO SISTEMA'')
           @ printed (replicate width (CHR ''=''))
           @ title ''CADASTRO'' @ count_lines (cadastro d)
           @ title ''PEDIDOS'' @ count_lines (pedidos d)
           @ title ''IDEMPOTENCIA'' @ count_lines (idempotencia d)
           @ title ''INTEGRACAO COM O ERP (outbox)'' @ integracao_lines d
           @ title ''CARGA EM MASSA'' @ line ''stg_order_history'' (with_dots (fst (carga w))) []
           @ line ''fact_order_history'' (with_dots (snd (carga w))) ''columnstore''
           @ title ''FILA'' @ fila_lines queue
           @ printed ([CHR 0x0A] @ replicate width (CHR ''='') @ [CHR 0x0A]), q'))"

section \<open>Facts about the queries\<close>

lemma repeated_distinct: "distinct (map k rs) \<Longrightarrow> repeated k rs = 0"
proof -
  assume dist: "distinct (map k rs)"
  have "count_where (\<lambda>r. k r = x) rs \<le> 1" for x
    using dist unfolding count_where_def
    by (induction rs) (auto simp: filter_empty_conv, metis image_eqI)
  then show ?thesis by (simp add: repeated_def count_where_def not_less filter_empty_conv)
qed

text \<open>Counting by groups counts every row once.\<close>

lemma sum_count_where:
  assumes "finite A" and "k ` set rs \<subseteq> A"
  shows "(\<Sum>x\<in>A. count_where (\<lambda>r. k r = x) rs) = length rs"
  using assms(2)
proof (induction rs)
  case (Cons r rs)
  have "(\<Sum>x\<in>A. count_where (\<lambda>q. k q = x) (r # rs))
      = (\<Sum>x\<in>A. count_where (\<lambda>q. k q = x) rs + (if x = k r then 1 else 0))"
    by (rule sum.cong) (auto simp: count_where_def)
  with Cons assms(1) show ?case by (simp add: sum.distrib)
qed (simp add: count_where_def)

lemma group_count_total: "sum_list (map snd (group_count k rs)) = length rs"
  by (simp add: group_count_def comp_def sum_list_distinct_conv_sum_set sum_count_where)

lemma group_count_lookup:
  fixes k :: "'a \<Rightarrow> 'b"
  shows "map_of (group_count k rs) x = (if x \<in> k ` set rs then Some (count_where (\<lambda>r. k r = x) rs) else None)"
proof -
  have "map_of (map (\<lambda>y. (y, f y)) ys) z = (if z \<in> set ys then Some (f z) else None)" for f :: "'b \<Rightarrow> nat" and ys z
    by (induction ys) auto
  then show ?thesis by (simp add: group_count_def)
qed

text \<open>The separators are the only thing the grouping adds: without the dots it is the number.\<close>

lemma zero_pad_digits:
  assumes "m < 1000"
  shows "zero_pad 3 (int m) = [char_of (48 + m div 100), char_of (48 + m div 10 mod 10), char_of (48 + m mod 10)]"
proof -
  have zero: "char_of (48 :: nat) = CHR ''0''" by code_simp
  consider "m < 10" | "10 \<le> m" "m < 100" | "100 \<le> m" using assms by linarith
  then show ?thesis
  proof cases
    case 1
    then show ?thesis by (simp add: zero_pad_def int_str_def nat_str.simps [of m] zero numeral_2_eq_2)
  next
    case 2
    then have "nat_str m = [char_of (48 + m div 10), char_of (48 + m mod 10)]"
      by (simp add: nat_str.simps [of m] nat_str.simps [of "m div 10"] less_mult_imp_div_less)
    with 2 show ?thesis by (simp add: zero_pad_def int_str_def zero less_mult_imp_div_less)
  next
    case 3
    have "m div 10 div 10 = m div 100" by (simp add: div_mult2_eq [symmetric])
    moreover have "m div 100 < 10" "\<not> m div 10 < 10" "\<not> m < 10" using assms 3 by auto
    ultimately have "nat_str m = [char_of (48 + m div 100), char_of (48 + m div 10 mod 10), char_of (48 + m mod 10)]"
      by (simp add: nat_str.simps [of m] nat_str.simps [of "m div 10"] nat_str.simps [of "m div 100"])
    then show ?thesis by (simp add: zero_pad_def int_str_def)
  qed
qed

lemma nat_str_thousands:
  assumes "1000 \<le> n"
  shows "nat_str (n div 1000) @ zero_pad 3 (int (n mod 1000)) = nat_str n"
proof -
  have divs: "n div 10 div 10 = n div 100" "n div 100 div 10 = n div 1000"
    by (simp_all add: div_mult2_eq [symmetric])
  have digits: "n mod 1000 mod 10 = n mod 10" "n mod 1000 div 10 mod 10 = n div 10 mod 10"
    "n mod 1000 div 100 = n div 100 mod 10"
  proof -
    have "n mod (10 * 100) = 10 * (n div 10 mod 100) + n mod 10" "n mod (100 * 10) = 100 * (n div 100 mod 10) + n mod 100"
      by (rule mod_mult2_eq)+
    then have "n mod 1000 = 10 * (n div 10 mod 100) + n mod 10" "n mod 1000 = 100 * (n div 100 mod 10) + n mod 100"
      by simp_all
    then show "n mod 1000 div 100 = n div 100 mod 10" "n mod 1000 div 10 mod 10 = n div 10 mod 10"
      by (metis div_mult_self4 div_less mod_less_divisor add.right_neutral zero_less_numeral zero_neq_numeral, simp add: mod_mod_cancel)
    show "n mod 1000 mod 10 = n mod 10" by (simp add: mod_mod_cancel)
  qed
  have "\<not> n < 10" "\<not> n div 10 < 10" "\<not> n div 100 < 10" using assms by auto
  then have "nat_str n = nat_str (n div 1000)
      @ [char_of (48 + n div 100 mod 10), char_of (48 + n div 10 mod 10), char_of (48 + n mod 10)]"
    by (simp add: nat_str.simps [of n] nat_str.simps [of "n div 10"] nat_str.simps [of "n div 100"] divs)
  then show ?thesis by (simp add: zero_pad_digits digits)
qed

lemma with_dots_digits: "filter (\<lambda>c. c \<noteq> CHR ''.'') (with_dots n) = nat_str n"
proof (induction n rule: with_commas.induct)
  case (1 n)
  have digit: "c \<noteq> CHR '','' \<and> c \<noteq> CHR ''.''" if "c \<in> set (nat_str m)" for c m
  proof -
    from nat_str_chars [OF that] obtain d where "d < 10" "c = char_of (48 + d :: nat)" by blast
    then have "48 \<le> (of_char c :: nat)" by (simp add: of_char_of)
    then show ?thesis by auto
  qed
  have plain: "filter (\<lambda>c. c \<noteq> CHR ''.'') (map (\<lambda>c. if c = CHR '','' then CHR ''.'' else c) s) = s"
    if "\<forall>c \<in> set s. c \<noteq> CHR '','' \<and> c \<noteq> CHR ''.''" for s
    using that by (induction s) auto
  have number: "filter (\<lambda>c. c \<noteq> CHR ''.'') (map (\<lambda>c. if c = CHR '','' then CHR ''.'' else c) (nat_str m)) = nat_str m" for m
    using digit by (intro plain) blast
  show ?case
  proof (cases "n < 1000")
    case True
    then show ?thesis using number unfolding with_dots_def by (subst with_commas.simps) simp
  next
    case False
    then have "set (zero_pad 3 (int (n mod 1000))) \<subseteq> set (nat_str n)"
      using arg_cong [OF nat_str_thousands [of n], of set] by auto
    then have "filter (\<lambda>c. c \<noteq> CHR ''.'') (map (\<lambda>c. if c = CHR '','' then CHR ''.'' else c) (zero_pad 3 (int (n mod 1000))))
        = zero_pad 3 (int (n mod 1000))"
      using digit by (intro plain) blast
    with False 1 nat_str_thousands [of n] show ?thesis
      unfolding with_dots_def by (subst with_commas.simps) simp
  qed
qed

end
