(* ===== verification/Verify_Claims.thy ===== *)
theory Verify_Claims
  imports Verify_Report Delivery_Run Webhook_Claims Bulk_Claims
begin

text \<open>
  What the report of scripts/verify.py says of the databases the system reaches: the checks it marks
  \<open>esperado: 0\<close> come out zero, its groups add up, and its numbers agree with one another.
\<close>

section \<open>Every address has a current version\<close>

definition addresses_current :: "db \<Rightarrow> bool" where
  "addresses_current d \<longleftrightarrow>
     ad_address_uid ` set (addresses d) \<subseteq> ad_address_uid ` set (filter ad_is_current (addresses d))"

lemma empty_db_current: "addresses_current empty_db"
  by (simp add: addresses_current_def empty_db_def)

lemma addresses_current_same: "addresses_current d \<Longrightarrow> addresses d' = addresses d \<Longrightarrow> addresses_current d'"
  by (simp add: addresses_current_def)

lemma rest_current [keep_rules]:
  "keeps addresses_current (insert_order r3)" "keeps addresses_current (insert_item r4)"
  "keeps addresses_current (insert_payment r5)" "keeps addresses_current (insert_invoice r6)"
  "keeps addresses_current (insert_outbox r7)" "keeps addresses_current (update_payment pid f)"
  "keeps addresses_current (update_orders P g)"
  by (auto simp: keeps_def addresses_current_def insert_order_Inr insert_item_Inr insert_payment_Inr
      insert_invoice_Inr insert_outbox_Inr update_payment_def update_orders_def Let_def
      split: if_splits option.splits)

lemma other_handlers_current:
  "keeps addresses_current (handle_order w clk e)" "keeps addresses_current (handle_payment w clk e)"
  "keeps addresses_current (handle_invoice w clk e)"
  unfolding clients_get_by_uid_def addresses_get_current_version_def handle_order_def orders_exists_def
    require_current_address_def resolve_billing_address_def orders_create_def orders_add_items_def
    handle_payment_def require_order_def orders_get_by_uid_def record_payment_def payments_upsert_def
    payments_get_by_provider_transaction_def orders_transition_def enqueue_erp_notification_def
    payments_latest_for_order_def outbox_enqueue_def handle_invoice_def invoices_exists_for_order_def
    invoices_create_def
  by (auto intro!: keep_rules split: option.splits)

lemma versions_after_uids:
  assumes "db_ok d" and "addresses_current d" and "addresses d' = versions_after clk aid cid p (addresses d)"
  shows "addresses_current d'"
proof -
  let ?u = ad_address_uid
  let ?cur = "\<lambda>rs. ?u ` set (filter ad_is_current rs)"
  have new: "ad_is_current (address_opened clk aid cid p)" "?u (address_opened clk aid cid p) = ap_address_uid p"
    by (simp_all add: address_opened_def)
  show ?thesis
  proof (cases "find (\<lambda>r. ?u r = ap_address_uid p \<and> ad_is_current r) (addresses d)")
    case None
    with assms(2,3) new show ?thesis by (auto simp: addresses_current_def versions_after_def)
  next
    case (Some a)
    then have a: "a \<in> set (addresses d)" "?u a = ap_address_uid p" by (auto dest: find_SomeD)
    show ?thesis
    proof (cases "address_differs_from a p")
      case False
      with Some assms(2,3) show ?thesis by (simp add: addresses_current_def versions_after_def)
    next
      case True
      let ?new = "address_opened clk aid cid p"
      have members: "set (addresses d') = insert ?new
          ((\<lambda>r. if ad_address_id r = ad_address_id a then address_closed (app_now clk) r else r) ` set (addresses d))"
        using Some True assms(3) by (simp add: versions_after_def upd_where_def)
      have kept: "?u r \<in> ?cur (addresses d')" if r: "r \<in> set (addresses d)" for r
      proof -
        from r assms(2) have "?u r \<in> ?cur (addresses d)" unfolding addresses_current_def by blast
        then obtain c where c: "c \<in> set (addresses d)" "ad_is_current c" "?u c = ?u r" by auto
        show ?thesis
        proof (cases "ad_address_id c = ad_address_id a")
          case True
          then have "c = a"
            using distinct_map_eq [of ad_address_id "addresses d" c a] db_okD(1) [OF assms(1)] c(1) a(1)
            by (simp add: db_keys_def keyed_def)
          with c(3) a(2) new(2) have "?u r = ?u ?new" by simp
          moreover have "?new \<in> set (filter ad_is_current (addresses d'))" using new(1) members by simp
          ultimately show ?thesis by (metis imageI)
        next
          case False
          then have "c \<in> set (addresses d')" using c(1) unfolding members by (simp add: image_iff)
          with c(2) have "c \<in> set (filter ad_is_current (addresses d'))" by simp
          with c(3) show ?thesis by (metis imageI)
        qed
      qed
      have "?u r \<in> ?cur (addresses d')" if "r \<in> set (addresses d')" for r
      proof -
        from that consider "r = ?new" | q where "q \<in> set (addresses d)" "?u r = ?u q"
          unfolding members by (auto simp: address_closed_def split: if_splits)
        then show ?thesis
        proof cases
          case 1
          moreover have "?new \<in> set (filter ad_is_current (addresses d'))" using new(1) members by simp
          ultimately show ?thesis by (metis imageI)
        next
          case 2
          with kept show ?thesis by metis
        qed
      qed
      then show ?thesis unfolding addresses_current_def by blast
    qed
  qed
qed

lemma handle_client_current:
  assumes "db_ok d" and "addresses_current d" and "handle_client w clk e d = (Inr a, d')"
  shows "addresses_current d'"
proof -
  from assms(3) obtain c where "validate_client w (ev_data e) = Some c"
    by (auto simp: handle_client_def split: option.splits)
  from handle_client_run [OF assms(1) this, of clk] obtain d1 aid cid where
    "handle_client w clk e d = (Inr (), d1)" "addresses d1 = versions_after clk aid cid (cu_address c) (addresses d)"
    by metis
  with versions_after_uids [OF assms(1,2)] assms(3) show ?thesis by simp
qed

lemma process_current:
  assumes "pr_registry p = build_registry" and "db_ok d" and "addresses_current d"
    and "process p clk fault e (d, r) = (res, d', r')"
  shows "addresses_current d'"
proof (rule process_keeps [where I = addresses_current, OF assms])
  show "addresses_current d'" if "rows_same d d'" for d'
    using addresses_current_same [OF assms(3) rows_sameD(7) [OF that]] .
  show "addresses_current (with_ledger_row (pr_outside p) clk e d)"
    using assms(3) by (simp add: addresses_current_def)
  fix h d0 d'
  let ?w = "pr_outside p"
  assume h: "build_registry (ev_event_type e) = Some h" and ok: "db_ok d0" and cur: "addresses_current d0"
    and run: "h ?w clk e d0 = (Inr (), d')"
  show "addresses_current d'"
  proof (cases "ev_event_type e")
    case CLIENT_UPSERTED
    with h run handle_client_current [OF ok cur] show ?thesis by (simp add: build_registry_eq)
  qed (use h run cur other_handlers_current [of ?w clk e, THEN keepsD] in \<open>auto simp: build_registry_eq\<close>)
qed

lemma system_step_current:
  assumes "system_step s p str_of y y'" and "db_ok (sy_db y)" and "addresses_current (sy_db y)"
  shows "addresses_current (sy_db y')"
  using assms(1)
proof cases
  case (ingest clk fault e res d r)
  have "pr_registry (worker_processor p) = build_registry" by (simp add: worker_processor_def)
  from process_current [OF this assms(2,3) ingest(2)] show ?thesis using ingest(1) by simp
next
  case others
  from addresses_current_same [OF assms(3) outbox_only_frame(7) [OF dispatch_step_only [OF this]]]
  show ?thesis .
qed

interpretation current: invariant_system start_system "system_step s p str_of"
  "\<lambda>y. system_inv str_of y \<and> addresses_current (sy_db y)"
  for s :: settings and p :: "('d, 'r) processor" and str_of :: "json \<Rightarrow> string"
proof
  show "start_system y \<Longrightarrow> system_inv str_of y \<and> addresses_current (sy_db y)" for y
    by (simp add: start_inv) (simp add: start_system_def empty_db_current)
  show "system_inv str_of y' \<and> addresses_current (sy_db y')"
    if "system_inv str_of y \<and> addresses_current (sy_db y)" "system_step s p str_of y y'" for y y'
    using that step_inv [of str_of y s p y'] system_step_current [of s p str_of y y'] by (simp add: system_inv_def)
qed

section \<open>The numbers\<close>

lemma current_count:
  assumes "db_versions d" and "addresses_current d"
  shows "count_where ad_is_current (addresses d) = card (ad_address_uid ` set (addresses d))"
proof -
  let ?cur = "filter ad_is_current (addresses d)"
  have "ad_address_uid ` set (addresses d) = ad_address_uid ` set ?cur"
    using assms(2) unfolding addresses_current_def by (intro equalityI) auto
  moreover have "card (ad_address_uid ` set ?cur) = length ?cur"
    using assms(1) distinct_card [of "map ad_address_uid ?cur"] by (simp add: db_versions_def)
  ultimately show ?thesis by (simp add: count_where_def)
qed

lemma length_filter_sum: "length (filter P rs) = sum_list (map (\<lambda>r. if P r then 1 else 0) rs)"
  by (induction rs) simp_all

lemma outbox_length:
  assumes "db_ok d"
  shows "length (outbox d) = count_where (\<lambda>r. or_status r \<noteq> OrdPENDING) (orders d)"
proof -
  have notified: "db_notified d" and uids: "distinct (map or_order_uid (orders d))"
    using db_okD(1,6) [OF assms] by (simp_all add: db_keys_def)
  then have "length (outbox d) = (\<Sum>u\<in>set (map or_order_uid (orders d)). length (messages_for u (outbox d)))"
    using sum_count_where [of "set (map or_order_uid (orders d))" ob_aggregate_id "outbox d"]
    by (simp add: db_notified_def messages_for_def count_where_def)
  also have "\<dots> = sum_list (map (\<lambda>o1. length (messages_for (or_order_uid o1) (outbox d))) (orders d))"
    using uids by (subst sum_list_distinct_conv_sum_set [OF uids, symmetric]) (simp add: comp_def)
  also have "\<dots> = sum_list (map (\<lambda>o1. if or_status o1 \<noteq> OrdPENDING then 1 else 0) (orders d))"
    using notified by (intro arg_cong [where f = sum_list] map_cong) (simp_all add: db_notified_def)
  also have "\<dots> = count_where (\<lambda>r. or_status r \<noteq> OrdPENDING) (orders d)"
    by (simp add: count_where_def length_filter_sum)
  finally show ?thesis .
qed

lemma idempotencia_clean:
  assumes "db_ok d"
  shows "idempotencia d = [(''eventos processados (ledger)'', length (processed_events d)),
    (''pedidos duplicados'', 0), (''faturas duplicadas'', 0), (''pagamentos duplicados'', 0)]"
  using db_okD(1) [OF assms] by (simp add: idempotencia_def db_keys_def repeated_distinct)

lemma sublist_concat: "x \<in> set xs \<Longrightarrow> sublist x (concat xs)"
  by (auto simp: in_set_conv_decomp)

lemma sublist_skip: "sublist x b \<Longrightarrow> sublist x (a @ b)"
  by (rule sublist_order.order_trans [OF _ sublist_append_leftI])

lemma report_lines:
  "(label, n) \<in> set (idempotencia d) \<Longrightarrow> sublist (line label (nat_str n) (note_of label)) (fst (verify_main X s d w q))"
proof -
  assume "(label, n) \<in> set (idempotencia d)"
  then have "sublist (line label (nat_str n) (note_of label)) (count_lines (idempotencia d))"
    unfolding count_lines_def by (intro sublist_concat) force
  moreover have "sublist (count_lines (idempotencia d)) (fst (verify_main X s d w q))"
    unfolding verify_main_def append_assoc by (cases "fila X s q", simp only: prod.case fst_conv)
      (rule sublist_append_rightI | rule sublist_skip)+
  ultimately show ?thesis by (rule sublist_order.order_trans)
qed

text \<open>
  C16. The report of an untampered system is clean. In every state that the ingest worker, the dispatch
  workers and the ERP reach from an empty database, whatever Redis says and whatever the bulk load holds:
  the three lines marked \<open>esperado: 0\<close> of the IDEMPOTENCIA block are printed with 0, so no order, invoice
  or payment is there twice; the lines of the order states add up to the total of orders and those of
  the message states to the messages, which are as many as the orders that left PENDING; and there are
  as many current address versions as addresses.
\<close>

theorem verification_report_is_clean:
  assumes "start_system y0" and "(system_step s p str_of)\<^sup>*\<^sup>* y0 y"
  shows "(\<forall>label \<in> {''pedidos duplicados'', ''faturas duplicadas'', ''pagamentos duplicados''}.
        sublist (line label ''0'' ''esperado: 0'') (fst (verify_main X s (sy_db y) w q)))
    \<and> sum_list (map snd (group_count or_status (orders (sy_db y)))) = length (orders (sy_db y))
    \<and> map_of (pedidos (sy_db y)) ''total de pedidos'' = Some (length (orders (sy_db y)))
    \<and> sum_list (map (\<lambda>(status, total, attempts). total) (integracao (sy_db y)))
        = count_where (\<lambda>r. or_status r \<noteq> OrdPENDING) (orders (sy_db y))
    \<and> map_of (cadastro (sy_db y)) ''enderecos vigentes''
        = Some (card (ad_address_uid ` set (addresses (sy_db y))))"
proof -
  let ?d = "sy_db y"
  have "system_inv str_of y \<and> addresses_current ?d" using assms by (rule current.reachable_inv)
  then have ok: "db_ok ?d" and cur: "addresses_current ?d" by (simp_all add: system_inv_def)
  have "sublist (line label ''0'' ''esperado: 0'') (fst (verify_main X s ?d w q))"
    if "label \<in> {''pedidos duplicados'', ''faturas duplicadas'', ''pagamentos duplicados''}" for label
  proof -
    have "(label, 0) \<in> set (idempotencia ?d)" using that by (auto simp: idempotencia_clean [OF ok])
    moreover have "nat_str 0 = ''0''" by code_simp
    ultimately show ?thesis
      using report_lines [of label 0 ?d X s w q] that by (auto simp: note_of_def)
  qed
  moreover have "sum_list (map (\<lambda>(status, total, attempts). total) (integracao ?d)) = length (outbox ?d)"
    using group_count_total [of ob_status "outbox ?d"] by (simp add: integracao_def comp_def case_prod_beta)
  moreover have "map_of (cadastro ?d) ''enderecos vigentes'' = Some (card (ad_address_uid ` set (addresses ?d)))"
    using current_count [OF db_okD(3) [OF ok] cur] by (simp add: cadastro_def)
  moreover have "map_of (pedidos ?d) ''total de pedidos'' = Some (length (orders ?d))"
  proof -
    have "map_of (map (\<lambda>(st, n). (''status '' @ order_status_value st, n)) l) ''total de pedidos'' = None" for l :: "(order_status \<times> nat) list"
      by (induction l) auto
    then show ?thesis by (simp add: pedidos_def map_add_def)
  qed
  ultimately show ?thesis by (simp add: outbox_length [OF ok] group_count_total)
qed

theorem verification_report_is_clean_witness:
  "sublist (line ''pedidos duplicados'' ''0'' ''esperado: 0'')
      (fst (verify_main memory_streams default_settings last_db used_warehouse empty_memory))
    \<and> map_of (pedidos last_db) ''total de pedidos'' = Some 1
    \<and> map_of (cadastro last_db) ''enderecos vigentes'' = Some 1"
proof -
  have start: "start_system first_state" by (simp add: start_system_def first_state_def)
  have "(length (orders last_db), card (ad_address_uid ` set (addresses last_db))) = (1, 1)" by code_simp
  then have "length (orders last_db) = 1" "card (ad_address_uid ` set (addresses last_db)) = 1" by simp_all
  with verification_report_is_clean [OF start sample_run_reaches, of memory_streams used_warehouse empty_memory]
  show ?thesis by (simp add: last_state_def)
qed

end
