(* ===== verification/Connections.thy ===== *)
theory Connections
  imports Processor "HOL-Library.AList"
begin

text \<open>
  How the processes reach the database: airflow/dags/ecommerce/db.py, src/shared/db/engine.py and
  scripts/bootstrap.py. What SQLAlchemy builds of a URL and what the server answers are parameters.
\<close>

section \<open>The DAG's connection (airflow/dags/ecommerce/db.py)\<close>

type_synonym environ = "string \<Rightarrow> string option"

definition env_get :: "environ \<Rightarrow> string \<Rightarrow> string \<Rightarrow> string" where
  "env_get e k d = (case e k of None \<Rightarrow> d | Some v \<Rightarrow> v)"

definition airflow_database_url :: "environ \<Rightarrow> string option \<Rightarrow> exn + string" where
  "airflow_database_url e database =
     (let query = urlencode [(''driver'', env_get e ''ODBC_DRIVER'' ''ODBC Driver 18 for SQL Server''),
                             (''TrustServerCertificate'', ''yes''), (''Encrypt'', ''yes'')];
          user = env_get e ''MSSQL_USER'' ''sa'' in
      case e ''MSSQL_PASSWORD'' of
        None \<Rightarrow> Inl (KeyError ''MSSQL_PASSWORD'')
      | Some pw \<Rightarrow>
          let password = quote_plus pw;
              host = env_get e ''MSSQL_HOST'' ''mssql'';
              port = env_get e ''MSSQL_PORT'' ''1433'';
              from_env = env_get e ''MSSQL_DB'' ''cliente'';
              name = (case database of None \<Rightarrow> from_env | Some n \<Rightarrow> if n = [] then from_env else n) in
          Inr (''mssql+pyodbc://'' @ user @ '':'' @ password @ ''@'' @ host @ '':'' @ port @ ''/'' @ name @ ''?'' @ query))"

text \<open>The module keeps the engine it built first.\<close>

definition airflow_engine :: "(string \<Rightarrow> 'e) \<Rightarrow> environ \<Rightarrow> ('e option, exn, 'e) prog" where
  "airflow_engine create e cache =
     (case cache of
        Some en \<Rightarrow> (Inr en, cache)
      | None \<Rightarrow>
          (case airflow_database_url e None of
             Inl x \<Rightarrow> (Inl x, None)
           | Inr url \<Rightarrow> (Inr (create url), Some (create url))))"

text \<open>\<open>connection\<close>: the body runs on a connection of that engine, each statement in its own transaction.\<close>

definition airflow_connection ::
  "(string \<Rightarrow> 'e) \<Rightarrow> environ \<Rightarrow> ('e \<Rightarrow> ('v, exn, 'a) prog) \<Rightarrow> ('e option \<times> 'v, exn, 'a) prog" where
  "airflow_connection create e body = (\<lambda>(cache, v).
     case airflow_engine create e cache of
       (Inl x, cache1) \<Rightarrow> (Inl x, cache1, v)
     | (Inr en, cache1) \<Rightarrow> (case body en v of (r, v1) \<Rightarrow> (r, cache1, v1)))"

text \<open>\<open>run\<close> executes a statement: the rows of its result, and what it did to the server.\<close>

definition airflow_execute ::
  "(string \<Rightarrow> 'e) \<Rightarrow> environ \<Rightarrow> ('e \<Rightarrow> 'q \<Rightarrow> ('v, exn, 'c list list) prog) \<Rightarrow> 'q \<Rightarrow> ('e option \<times> 'v, exn, unit) prog" where
  "airflow_execute create e run sql = airflow_connection create e (\<lambda>en. bnd (run en sql) (\<lambda>_. ret ()))"

definition airflow_scalar ::
  "(string \<Rightarrow> 'e) \<Rightarrow> environ \<Rightarrow> ('e \<Rightarrow> 'q \<Rightarrow> ('v, exn, 'c list list) prog) \<Rightarrow> 'q \<Rightarrow> ('e option \<times> 'v, exn, 'c option) prog" where
  "airflow_scalar create e run sql =
     airflow_connection create e (\<lambda>en. bnd (run en sql) (\<lambda>rows. ret (case rows of [] \<Rightarrow> None | r # _ \<Rightarrow> Some (hd r))))"

section \<open>The services' engines (src/shared/db/engine.py)\<close>

record engine_options =
  eo_pool_size :: int
  eo_max_overflow :: int
  eo_pool_timeout :: int
  eo_pool_recycle :: int
  eo_pool_pre_ping :: bool
  eo_fast_executemany :: bool

definition bounded_engine :: "settings \<Rightarrow> engine_options" where
  "bounded_engine s = \<lparr>eo_pool_size = db_pool_size s, eo_max_overflow = db_max_overflow s,
     eo_pool_timeout = db_pool_timeout s, eo_pool_recycle = db_pool_recycle s,
     eo_pool_pre_ping = True, eo_fast_executemany = True\<rparr>"

type_synonym 'e engines = "(string \<times> 'e) list"

definition get_engine :: "(string \<Rightarrow> engine_options \<Rightarrow> 'e) \<Rightarrow> settings \<Rightarrow> 'e engines \<Rightarrow> 'e \<times> 'e engines" where
  "get_engine create s engines =
     (let url = database_url s;
          engines1 = (if map_of engines url = None then AList.update url (create url (bounded_engine s)) engines
                      else engines) in
      (the (map_of engines1 url), engines1))"

record 'e session_factory =
  sf_bind :: 'e
  sf_expire_on_commit :: bool

definition get_session_factory ::
  "(string \<Rightarrow> engine_options \<Rightarrow> 'e) \<Rightarrow> settings \<Rightarrow> 'e engines \<Rightarrow> 'e session_factory \<times> 'e engines" where
  "get_session_factory create s engines =
     (case get_engine create s engines of (en, engines1) \<Rightarrow> (\<lparr>sf_bind = en, sf_expire_on_commit = False\<rparr>, engines1))"

text \<open>\<open>session_scope\<close>: the commit is inside the \<open>try\<close>, so a refused one is rolled back too.\<close>

definition session_scope :: "commit_fault \<Rightarrow> (uow, exn, 'a) prog \<Rightarrow> db \<Rightarrow> (exn + 'a) \<times> db" where
  "session_scope fault body d =
     (let close = (\<lambda>u. rollback (durable u) (session_db u)) in
      case bnd body (\<lambda>a. bnd (uow_commit fault) (\<lambda>_. ret a)) (uow_enter d) of
        (Inl x, u) \<Rightarrow> (Inl x, close (snd (uow_rollback u)))
      | (Inr a, u) \<Rightarrow> (Inr a, close u))"

section \<open>The bootstrap of the server (scripts/bootstrap.py)\<close>

datatype boot_error = Raised exn | System_Exit string

primrec wait_attempts ::
  "('v, exn, unit) prog \<Rightarrow> (rat \<Rightarrow> 'v \<Rightarrow> 'v) \<Rightarrow> rat \<Rightarrow> nat \<Rightarrow> ('v, boot_error, unit) prog" where
  "wait_attempts probe sleep delay 0 v = (Inl (System_Exit ''SQL Server nao ficou disponivel a tempo''), v)"
| "wait_attempts probe sleep delay (Suc n) v =
     (case probe v of
        (Inr _, v1) \<Rightarrow> (Inr (), v1)
      | (Inl (OperationalError m), v1) \<Rightarrow> wait_attempts probe sleep delay n (sleep delay v1)
      | (Inl x, v1) \<Rightarrow> (Inl (Raised x), v1))"

definition wait_for_server ::
  "('v, exn, unit) prog \<Rightarrow> (rat \<Rightarrow> 'v \<Rightarrow> 'v) \<Rightarrow> ('v, boot_error, unit) prog" where
  "wait_for_server probe sleep = wait_attempts probe sleep 2 30"

text \<open>The databases of the server and the options the script sets; \<open>'v\<close> is the server's start-up.\<close>

record db_options =
  op_read_committed_snapshot :: bool
  op_allow_snapshot_isolation :: bool
  op_recovery_simple :: bool

type_synonym databases = "(string \<times> db_options) list"

definition new_database :: db_options where
  "new_database = \<lparr>op_read_committed_snapshot = False, op_allow_snapshot_isolation = False, op_recovery_simple = False\<rparr>"

definition alter_database :: "string \<Rightarrow> (db_options \<Rightarrow> db_options) \<Rightarrow> databases \<Rightarrow> databases" where
  "alter_database name f = map (\<lambda>(n, o1). (n, if n = name then f o1 else o1))"

definition bootstrap_main ::
  "('v, exn, unit) prog \<Rightarrow> (rat \<Rightarrow> 'v \<Rightarrow> 'v) \<Rightarrow> settings \<Rightarrow> ('v \<times> databases, boot_error, unit) prog" where
  "bootstrap_main probe sleep s = (\<lambda>(v, dbs).
     case wait_for_server probe sleep v of
       (Inl x, v1) \<Rightarrow> (Inl x, v1, dbs)
     | (Inr _, v1) \<Rightarrow>
         let database = mssql_db s;
             dbs1 = (if map_of dbs database = None then dbs @ [(database, new_database)] else dbs);
             dbs2 = alter_database database (\<lambda>o1. o1\<lparr>op_read_committed_snapshot := True\<rparr>) dbs1;
             dbs3 = alter_database database (\<lambda>o1. o1\<lparr>op_allow_snapshot_isolation := True\<rparr>) dbs2;
             dbs4 = alter_database database (\<lambda>o1. o1\<lparr>op_recovery_simple := True\<rparr>) dbs3 in
         (Inr (), v1, dbs4))"

section \<open>Facts\<close>

text \<open>The unit of work of the scripts is that of the workers with the commit at its end.\<close>

lemma session_scope_is_uow:
  "session_scope fault body = with_uow (bnd body (\<lambda>a. bnd (uow_commit fault) (\<lambda>_. ret a)))"
  by (rule ext) (simp add: session_scope_def with_uow_def uow_exit_def Let_def split: prod.split sum.split)

text \<open>One engine per URL: what was asked for once stays, and the first settings of a URL fix its pool.\<close>

lemma get_engine_stays:
  assumes "get_engine create s engines = (en, engines1)"
  shows "map_of engines1 (database_url s) = Some en"
    and "map_of engines url = Some en0 \<Longrightarrow> map_of engines1 url = Some en0"
    and "map_of engines (database_url s) = None \<Longrightarrow> en = create (database_url s) (bounded_engine s)"
    and "database_url s' = database_url s \<Longrightarrow> get_engine create' s' engines1 = (en, engines1)"
  using assms by (auto simp: get_engine_def Let_def update_conv' split: if_splits)

lemma airflow_engine_stays:
  "airflow_engine create e cache = (Inr en, cache1) \<Longrightarrow>
   cache1 = Some en \<and> airflow_engine create' e' cache1 = (Inr en, cache1)"
  by (auto simp: airflow_engine_def split: option.splits sum.splits)

lemma map_of_alter: "map_of (alter_database name f dbs) n = (if n = name then map_option f (map_of dbs n) else map_of dbs n)"
  by (induction dbs) (auto simp: alter_database_def)

lemma wait_attempts_answered:
  assumes "\<forall>j < k. probe (states j) = (Inl (OperationalError (m j)), mid j) \<and> states (Suc j) = sleep delay (mid j)"
    and "probe (states k) = (Inr (), last1)"
  shows "k < n \<Longrightarrow> wait_attempts probe sleep delay n (states 0) = (Inr (), last1)"
  using assms
proof (induction k arbitrary: n states m mid)
  case 0
  then show ?case by (cases n) simp_all
next
  case (Suc k)
  then obtain n1 where n: "n = Suc n1" "k < n1" by (cases n) auto
  have "\<forall>j < k. probe (states (Suc j)) = (Inl (OperationalError (m (Suc j))), mid (Suc j))
      \<and> states (Suc (Suc j)) = sleep delay (mid (Suc j))"
    using Suc.prems(2) Suc_mono by blast
  from Suc.IH [of n1 "\<lambda>j. states (Suc j)" "\<lambda>j. m (Suc j)" "\<lambda>j. mid (Suc j)", OF n(2) this Suc.prems(3)]
  have "wait_attempts probe sleep delay n1 (states (Suc 0)) = (Inr (), last1)" .
  moreover have "probe (states 0) = (Inl (OperationalError (m 0)), mid 0)" "states (Suc 0) = sleep delay (mid 0)"
    using Suc.prems(2) by simp_all
  ultimately show ?case by (simp add: n)
qed

lemma wait_attempts_refused:
  assumes "\<forall>j < n. probe (states j) = (Inl (OperationalError (m j)), mid j) \<and> states (Suc j) = sleep delay (mid j)"
  shows "wait_attempts probe sleep delay n (states 0)
    = (Inl (System_Exit ''SQL Server nao ficou disponivel a tempo''), states n)"
  using assms
proof (induction n arbitrary: states m mid)
  case (Suc n)
  have "\<forall>j < n. probe (states (Suc j)) = (Inl (OperationalError (m (Suc j))), mid (Suc j))
      \<and> states (Suc (Suc j)) = sleep delay (mid (Suc j))"
    using Suc.prems Suc_mono by blast
  from Suc.IH [of "\<lambda>j. states (Suc j)" "\<lambda>j. m (Suc j)" "\<lambda>j. mid (Suc j)", OF this]
  have "wait_attempts probe sleep delay n (states (Suc 0))
      = (Inl (System_Exit ''SQL Server nao ficou disponivel a tempo''), states (Suc n))" .
  moreover have "probe (states 0) = (Inl (OperationalError (m 0)), mid 0)" "states (Suc 0) = sleep delay (mid 0)"
    using Suc.prems by simp_all
  ultimately show ?case by simp
qed simp

section \<open>Properties\<close>

text \<open>
  What pydantic-settings reads for the fields of the URL: the variable of the field's name if it is set,
  the field's default if not; the port is the number its text denotes.
\<close>

definition settings_read :: "environ \<Rightarrow> settings \<Rightarrow> bool" where
  "settings_read e s \<longleftrightarrow>
     mssql_host s = env_get e ''MSSQL_HOST'' (mssql_host default_settings)
     \<and> int_str (mssql_port s) = env_get e ''MSSQL_PORT'' (int_str (mssql_port default_settings))
     \<and> mssql_user s = env_get e ''MSSQL_USER'' (mssql_user default_settings)
     \<and> mssql_password s = env_get e ''MSSQL_PASSWORD'' (mssql_password default_settings)
     \<and> mssql_db s = env_get e ''MSSQL_DB'' (mssql_db default_settings)
     \<and> odbc_driver s = env_get e ''ODBC_DRIVER'' (odbc_driver default_settings)"

text \<open>
  C40. The DAG and the services use the same database exactly when \<open>MSSQL_DB\<close> names it. Under the
  environment the settings were read from, the DAG's URL is the services' URL if the variable is set and
  another one if it is not, because the two defaults differ; without a password the DAG raises a
  KeyError; and the URL of a named database is the services' URL for that name.
\<close>

theorem dag_shares_the_database_iff:
  assumes "settings_read e s"
  shows "case airflow_database_url e None of
      Inl x \<Rightarrow> e ''MSSQL_PASSWORD'' = None \<and> x = KeyError ''MSSQL_PASSWORD''
    | Inr url \<Rightarrow> e ''MSSQL_PASSWORD'' = Some (mssql_password s)
        \<and> (url = database_url s \<longleftrightarrow> e ''MSSQL_DB'' \<noteq> None)
        \<and> airflow_database_url e (Some ''master'') = Inr (master_url s)"
proof (cases "e ''MSSQL_PASSWORD''")
  case None
  then show ?thesis by (simp add: airflow_database_url_def)
next
  case (Some pw)
  have port: "''1433'' = int_str (mssql_port default_settings)" by code_simp
  have parts: "env_get e ''MSSQL_HOST'' ''mssql'' = mssql_host s" "env_get e ''MSSQL_PORT'' ''1433'' = int_str (mssql_port s)"
    "env_get e ''MSSQL_USER'' ''sa'' = mssql_user s" "pw = mssql_password s"
    "env_get e ''ODBC_DRIVER'' ''ODBC Driver 18 for SQL Server'' = odbc_driver s"
    "env_get e ''MSSQL_DB'' ''ecommerce_ops'' = mssql_db s"
    using assms Some unfolding port by (simp_all add: settings_read_def default_settings_def env_get_def)
  have url: "airflow_database_url e name = Inr (build_url s
      (case name of None \<Rightarrow> env_get e ''MSSQL_DB'' ''cliente''
       | Some n \<Rightarrow> if n = [] then env_get e ''MSSQL_DB'' ''cliente'' else n))" for name
    using Some by (simp add: airflow_database_url_def build_url_def Let_def parts)
  have same: "build_url s a = build_url s b \<longleftrightarrow> a = b" for a b by (simp add: build_url_def Let_def)
  have "env_get e ''MSSQL_DB'' ''cliente'' = mssql_db s \<longleftrightarrow> e ''MSSQL_DB'' \<noteq> None"
    using parts(6) [symmetric] by (cases "e ''MSSQL_DB''") (auto simp: env_get_def)
  then show ?thesis using Some parts(4) by (simp add: url database_url_def master_url_def same)
qed

theorem dag_shares_the_database_iff_witness:
  "\<exists>url. airflow_database_url [''MSSQL_PASSWORD'' \<mapsto> ''Str0ng@Pass2026''] None = Inr url
    \<and> url \<noteq> database_url default_settings"
proof -
  let ?e = "[''MSSQL_PASSWORD'' \<mapsto> ''Str0ng@Pass2026'']"
  have "settings_read ?e default_settings"
    by (simp add: settings_read_def env_get_def default_settings_def)
  from dag_shares_the_database_iff [OF this] show ?thesis
    by (auto split: sum.splits)
qed

text \<open>A server that answers by a list of outcomes, with a stopwatch for the pauses.\<close>

definition scripted_probe :: "(nat \<Rightarrow> exn + unit) \<Rightarrow> (nat \<times> rat, exn, unit) prog" where
  "scripted_probe outcomes = (\<lambda>(k, t). (outcomes k, k + 1, t))"

definition stopwatch :: "rat \<Rightarrow> nat \<times> rat \<Rightarrow> nat \<times> rat" where
  "stopwatch seconds = (\<lambda>(k, t). (k, t + seconds))"

lemma wait_for_server_scripted:
  assumes "\<forall>j < n. \<exists>m. outcomes j = Inl (OperationalError m)"
  shows "n < 30 \<Longrightarrow> outcomes n = Inr () \<Longrightarrow>
      wait_for_server (scripted_probe outcomes) stopwatch (0, 0) = (Inr (), n + 1, 2 * of_nat n)"
    and "30 \<le> n \<Longrightarrow> wait_for_server (scripted_probe outcomes) stopwatch (0, 0)
      = (Inl (System_Exit ''SQL Server nao ficou disponivel a tempo''), 30, 60)"
proof -
  obtain m where m: "\<forall>j < n. outcomes j = Inl (OperationalError (m j))" using assms by metis
  let ?s = "\<lambda>j :: nat. (j, 2 * of_nat j :: rat)" and ?mid = "\<lambda>j :: nat. (j + 1, 2 * of_nat j :: rat)"
  have step: "\<forall>j < n. scripted_probe outcomes (?s j) = (Inl (OperationalError (m j)), ?mid j)
      \<and> ?s (Suc j) = stopwatch 2 (?mid j)"
    using m by (simp add: scripted_probe_def stopwatch_def)
  show "wait_for_server (scripted_probe outcomes) stopwatch (0, 0) = (Inr (), n + 1, 2 * of_nat n)"
    if "n < 30" "outcomes n = Inr ()"
  proof -
    have "scripted_probe outcomes (?s n) = (Inr (), n + 1, 2 * of_nat n)"
      using that(2) by (simp add: scripted_probe_def)
    from wait_attempts_answered [where states = ?s and mid = ?mid and m = m and delay = 2 and sleep = stopwatch
          and probe = "scripted_probe outcomes", OF step this that(1)] show ?thesis
      by (simp add: wait_for_server_def)
  qed
  show "wait_for_server (scripted_probe outcomes) stopwatch (0, 0)
      = (Inl (System_Exit ''SQL Server nao ficou disponivel a tempo''), 30, 60)" if "30 \<le> n"
  proof -
    have "\<forall>j < 30. scripted_probe outcomes (?s j) = (Inl (OperationalError (m j)), ?mid j)
        \<and> ?s (Suc j) = stopwatch 2 (?mid j)"
      using step that by simp
    from wait_attempts_refused [where states = ?s and mid = ?mid and m = m and delay = 2 and sleep = stopwatch
          and probe = "scripted_probe outcomes" and n = 30, OF this] show ?thesis by (simp add: wait_for_server_def)
  qed
qed

definition prepared :: db_options where
  "prepared = \<lparr>op_read_committed_snapshot = True, op_allow_snapshot_isolation = True, op_recovery_simple = True\<rparr>"

lemma alter_database_same: "\<forall>(n, o1) \<in> set dbs. n = name \<longrightarrow> f o1 = o1 \<Longrightarrow> alter_database name f dbs = dbs"
  by (auto simp: alter_database_def intro!: map_idI)

lemma alter_database_twice: "alter_database name f (alter_database name g dbs) = alter_database name (f \<circ> g) dbs"
  by (simp add: alter_database_def comp_def case_prod_beta)

lemma bootstrap_main_ready:
  assumes "wait_for_server probe sleep v = (Inr (), v1)"
  shows "bootstrap_main probe sleep s (v, dbs) = (Inr (), v1, alter_database (mssql_db s) (\<lambda>_. prepared)
    (if map_of dbs (mssql_db s) = None then dbs @ [(mssql_db s, new_database)] else dbs))"
proof -
  have "(\<lambda>o1 :: db_options. o1\<lparr>op_read_committed_snapshot := True, op_allow_snapshot_isolation := True,
      op_recovery_simple := True\<rparr>) = (\<lambda>_. prepared)"
    by (rule ext) (simp add: prepared_def)
  with assms show ?thesis by (simp add: bootstrap_main_def Let_def alter_database_twice comp_def)
qed

text \<open>
  The bootstrap waits at most thirty attempts and then prepares the one database. If the server
  refuses the first k < 30 attempts and answers the next, the run returns after k pauses of two seconds:
  the configured database exists with snapshot isolation and simple recovery, every other database is as
  it was, and a second run against a server that answers changes no database. If it refuses all thirty
  the script exits after sixty seconds of pauses and no database was touched.
\<close>

lemma bootstrap_prepares_the_database:
  fixes outcomes :: "nat \<Rightarrow> exn + unit"
  assumes "\<forall>j < n. \<exists>m. outcomes j = Inl (OperationalError m)"
  shows "(n < 30 \<and> outcomes n = Inr () \<longrightarrow>
      (\<exists>dbs1. bootstrap_main (scripted_probe outcomes) stopwatch s ((0, 0), dbs) = (Inr (), (n + 1, 2 * of_nat n), dbs1)
        \<and> map_of dbs1 (mssql_db s) = Some prepared
        \<and> (\<forall>name. name \<noteq> mssql_db s \<longrightarrow> map_of dbs1 name = map_of dbs name)
        \<and> (\<forall>(probe :: ('v, exn, unit) prog) sleep v v1. wait_for_server probe sleep v = (Inr (), v1) \<longrightarrow>
             bootstrap_main probe sleep s (v, dbs1) = (Inr (), v1, dbs1))))
    \<and> (30 \<le> n \<longrightarrow> bootstrap_main (scripted_probe outcomes) stopwatch s ((0, 0), dbs)
        = (Inl (System_Exit ''SQL Server nao ficou disponivel a tempo''), (30, 60), dbs))"
proof -
  let ?dbs0 = "if map_of dbs (mssql_db s) = None then dbs @ [(mssql_db s, new_database)] else dbs"
  let ?dbs1 = "alter_database (mssql_db s) (\<lambda>_. prepared) ?dbs0"
  have here: "map_of ?dbs1 (mssql_db s) = Some prepared"
    by (auto simp: map_of_alter map_add_def split: option.splits)
  moreover have "\<forall>name. name \<noteq> mssql_db s \<longrightarrow> map_of ?dbs1 name = map_of dbs name"
    by (auto simp: map_of_alter map_add_def split: option.splits)
  moreover have "bootstrap_main probe sleep s (v, ?dbs1) = (Inr (), v1, ?dbs1)"
    if "wait_for_server probe sleep v = (Inr (), v1)" for probe :: "('v, exn, unit) prog" and sleep v v1
    using here by (simp add: bootstrap_main_ready [OF that] alter_database_twice comp_def)
  moreover have "bootstrap_main (scripted_probe outcomes) stopwatch s ((0, 0), dbs) = (Inr (), (n + 1, 2 * of_nat n), ?dbs1)"
    if "n < 30" "outcomes n = Inr ()"
    using bootstrap_main_ready [OF wait_for_server_scripted(1) [OF assms that]] .
  moreover have "bootstrap_main (scripted_probe outcomes) stopwatch s ((0, 0), dbs)
        = (Inl (System_Exit ''SQL Server nao ficou disponivel a tempo''), (30, 60), dbs)" if "30 \<le> n"
    using wait_for_server_scripted(2) [OF assms that] by (simp add: bootstrap_main_def)
  ultimately show ?thesis by blast
qed

lemma bootstrap_prepares_the_database_example:
  "\<exists>dbs1. bootstrap_main (scripted_probe (\<lambda>k. if k < 2 then Inl (OperationalError ''login'') else Inr ())) stopwatch
      default_settings ((0, 0), [(''tempdb'', new_database)]) = (Inr (), (3, 4), dbs1)
    \<and> map_of dbs1 ''tempdb'' = Some new_database \<and> map_of dbs1 ''ecommerce_ops'' = Some prepared"
proof -
  let ?o = "\<lambda>k :: nat. if k < 2 then Inl (OperationalError ''login'') else Inr ()"
  have refused: "\<forall>j < 2. \<exists>m. ?o j = Inl (OperationalError m)" by simp
  have name: "mssql_db default_settings = ''ecommerce_ops''" by (simp add: default_settings_def)
  from bootstrap_prepares_the_database [where ?'v = unit, OF refused, of default_settings "[(''tempdb'', new_database)]"]
  obtain dbs1 where
    "bootstrap_main (scripted_probe ?o) stopwatch default_settings ((0, 0), [(''tempdb'', new_database)])
      = (Inr (), (2 + 1, 2 * of_nat 2), dbs1)"
    "map_of dbs1 (mssql_db default_settings) = Some prepared"
    "\<forall>name. name \<noteq> mssql_db default_settings \<longrightarrow> map_of dbs1 name = map_of [(''tempdb'', new_database)] name"
    by auto
  then show ?thesis by (intro exI [of _ dbs1]) (simp add: name)
qed

end
