(* ===== verification/Measurements.thy ===== *)
theory Measurements
  imports Bulk_Claims Webhook_Claims
begin

text \<open>
  The scripts that measure: airflow/dags/ecommerce/benchmark.py times the strategies of the history load
  on one sample, scripts/loadtest.py floods the webhook API. Times and memory are arguments; what the
  scripts print is left out.
\<close>

section \<open>benchmark.py\<close>

definition sample_fast :: int where "sample_fast = 200000"
definition sample_row :: int where "sample_row = 5000"

record measurement =
  ms_label :: string
  ms_rows :: int
  ms_seconds :: rat
  ms_peak_memory_mb :: rat

definition rows_per_second :: "measurement \<Rightarrow> rat" where
  "rows_per_second m = (if ms_seconds m \<noteq> 0 then of_int (ms_rows m) / ms_seconds m else 0)"

definition peak_memory_mb :: "int \<Rightarrow> rat" where
  "peak_memory_mb ru_maxrss = of_int ru_maxrss / 1024"

definition bench_reset :: "warehouse \<Rightarrow> warehouse" where
  "bench_reset w = w\<lparr>wa_staging := {#}\<rparr>"

text \<open>The stopwatch and the kernel's counter of one measurement.\<close>

record readings =
  re_elapsed :: rat
  re_maxrss :: int

definition bench_measure ::
  "string \<Rightarrow> int \<Rightarrow> (warehouse, string, 'a) prog \<Rightarrow> readings \<Rightarrow> (warehouse, string, measurement) prog" where
  "bench_measure label rows fn re = (\<lambda>w.
     bnd fn (\<lambda>_. ret \<lparr>ms_label = label, ms_rows = rows, ms_seconds = re_elapsed re,
       ms_peak_memory_mb = peak_memory_mb (re_maxrss re)\<rparr>) (bench_reset w))"

definition on_staging :: "(cells multiset, string, 'a) prog \<Rightarrow> (warehouse, string, 'a) prog" where
  "on_staging m = (\<lambda>w. case m (wa_staging w) of (r, t) \<Rightarrow> (r, w\<lparr>wa_staging := t\<rparr>))"

text \<open>One statement per row, the first \<open>limit\<close> rows after the header.\<close>

definition row_by_row :: "nat option \<Rightarrow> string \<Rightarrow> int \<Rightarrow> (cells multiset, string, unit) prog" where
  "row_by_row fault text limit = (\<lambda>t.
     case csv_rows text of
       None \<Rightarrow> (Inl ''new-line character seen in unquoted field'', t)
     | Some records \<Rightarrow> insert_batches fault (map (\<lambda>r. [map Some r]) (take (nat limit) (tl records))) t)"

definition benchmark_main ::
  "'g rng \<Rightarrow> (string \<Rightarrow> string list list option) \<Rightarrow> (nat \<Rightarrow> nat option) \<Rightarrow> (nat \<Rightarrow> readings)
    \<Rightarrow> (warehouse, string, measurement list) prog" where
  "benchmark_main R bulk_csv faults re = (\<lambda>w.
     let w0 = write_chunk_csv R 900 sample_fast w; text = chunk_csv R 900 sample_fast in
     bnd (bench_measure ''BULK INSERT (volume compartilhado)'' sample_fast
            (on_staging (load_csv bulk_csv Bulk_Insert (faults 0) text)) (re 0)) (\<lambda>m0.
     bnd (bench_measure ''pyodbc fast_executemany'' sample_fast
            (on_staging (load_csv bulk_csv Fast_Executemany (faults 1) text)) (re 1)) (\<lambda>m1.
     bnd (bench_measure ''INSERT linha a linha'' sample_row
            (on_staging (row_by_row (faults 2) text sample_row)) (re 2)) (\<lambda>m2 w3.
     let w4 = bench_reset w3 in
     (Inr [m0, m1, m2], w4\<lparr>wa_files := AList.delete (chunk_path 900) (wa_files w4)\<rparr>)))) w0)"

section \<open>loadtest.py\<close>

text \<open>The dictionary literals of the script have the fields of the models and are written as their records.\<close>

definition load_partner :: string where "load_partner = ''loadtest''"

definition load_event :: "pydatetime \<Rightarrow> string \<Rightarrow> string \<Rightarrow> string \<Rightarrow> client_upserted envelope" where
  "load_event now h1 h2 h3 = \<lparr>ev_event_id = ''lt-'' @ h1, ev_event_type = CLIENT_UPSERTED, ev_occurred_at = now,
     ev_partner = load_partner,
     ev_data = \<lparr>cu_client_uid = ''LT-CLI-'' @ take 12 h2, cu_full_name = ''Cliente Teste de Carga'',
       cu_document = ''39053344705'', cu_email = ''carga@exemplo.com.br'',
       cu_address = \<lparr>ap_address_uid = ''LT-ADDR-'' @ take 12 h3, ap_street = ''Avenida das Industrias'',
         ap_number = ''100'', ap_complement = None, ap_district = ''Centro'', ap_city = ''Joinville'',
         ap_state = ''SC'', ap_zip_code = ''89219000''\<rparr>\<rparr>\<rparr>"

text \<open>\<open>hex\<close> draws the text of a fresh UUID.\<close>

definition build_batch ::
  "('g \<Rightarrow> string \<times> 'g) \<Rightarrow> pydatetime \<Rightarrow> int \<Rightarrow> 'g \<Rightarrow> client_upserted envelope list \<times> 'g" where
  "build_batch hex now batch_size =
     draw (nat batch_size) (\<lambda>g. case hex g of (h1, g1) \<Rightarrow> case hex g1 of (h2, g2) \<Rightarrow> case hex g2 of (h3, g3) \<Rightarrow>
       (load_event now h1 h2 h3, g3))"

record load_stats =
  ls_aceitos :: int
  ls_http_202 :: int
  ls_http_429 :: int
  ls_erro :: int

definition no_stats :: load_stats where
  "no_stats = \<lparr>ls_aceitos = 0, ls_http_202 = 0, ls_http_429 = 0, ls_erro = 0\<rparr>"

text \<open>An error of the client, or an answer: its status and the number its JSON body has under \<open>accepted\<close>.\<close>

datatype http_reply = HttpError | Reply int "int option"

definition count_reply :: "http_reply \<Rightarrow> (load_stats, exn, unit) prog" where
  "count_reply reply st =
     (case reply of
        HttpError \<Rightarrow> (Inr (), st\<lparr>ls_erro := ls_erro st + 1\<rparr>)
      | Reply status accepted \<Rightarrow>
          if status = 202 then
            (case accepted of
               None \<Rightarrow> (Inl (KeyError ''accepted''), st)
             | Some n \<Rightarrow> (Inr (), st\<lparr>ls_aceitos := ls_aceitos st + n, ls_http_202 := ls_http_202 st + 1\<rparr>))
          else if status = 429 then (Inr (), st\<lparr>ls_http_429 := ls_http_429 st + 1\<rparr>)
          else (Inr (), st\<lparr>ls_erro := ls_erro st + 1\<rparr>))"

text \<open>\<open>post\<close> is the HTTP client with the API behind it; \<open>'v\<close> is their state and the random source's.\<close>

primrec load_worker ::
  "('v \<Rightarrow> client_upserted envelope list \<times> 'v) \<Rightarrow> (client_upserted envelope list \<Rightarrow> 'v \<Rightarrow> http_reply \<times> 'v) \<Rightarrow> nat
    \<Rightarrow> (load_stats \<times> 'v, exn, unit) prog" where
  "load_worker batch post 0 = ret ()"
| "load_worker batch post (Suc n) = (\<lambda>(st, v).
     case batch v of (events, v1) \<Rightarrow>
     case post events v1 of (reply, v2) \<Rightarrow>
     case count_reply reply st of
       (Inl x, st1) \<Rightarrow> (Inl x, st1, v2)
     | (Inr _, st1) \<Rightarrow> load_worker batch post n (st1, v2))"

text \<open>The options are positive; Python divides down, as \<open>div\<close> does.\<close>

definition requests_per_worker :: "int \<Rightarrow> int \<Rightarrow> int \<Rightarrow> int" where
  "requests_per_worker total1 batch_size concurrency = max 1 (max 1 (total1 div batch_size) div concurrency)"

text \<open>
  The gathered workers differ in nothing and share the counters, so their requests, in whatever order
  they reach the API, are one sequence.
\<close>

definition loadtest_main ::
  "('v \<Rightarrow> client_upserted envelope list \<times> 'v) \<Rightarrow> (client_upserted envelope list \<Rightarrow> 'v \<Rightarrow> http_reply \<times> 'v)
    \<Rightarrow> int \<Rightarrow> int \<Rightarrow> int \<Rightarrow> 'v \<Rightarrow> (exn + unit) \<times> load_stats \<times> 'v" where
  "loadtest_main batch post total1 batch_size concurrency v =
     load_worker batch post (nat (concurrency * requests_per_worker total1 batch_size concurrency)) (no_stats, v)"

section \<open>Facts about the load test\<close>

lemma load_event_ok: "client_upserted_ok (ev_data (load_event now h1 h2 h3))"
  by (simp add: load_event_def client_upserted_ok_def address_payload_ok_def len_between_def min.coboundedI2)

lemma load_event_envelope: "length h1 = 32 \<Longrightarrow> envelope_ok (load_event now h1 h2 h3)"
  by (simp add: load_event_def envelope_ok_def len_between_def load_partner_def)

lemma build_batch_length: "length (fst (build_batch hex now k g)) = nat k"
  by (simp add: build_batch_def draw_length)

text \<open>
  Whatever the client and the API answer, every request that was counted is counted once; and when every
  202 carries the size of its batch, as the API's does, the accepted events are whole batches.
\<close>

lemma load_worker_counts:
  assumes "load_worker batch post n (st, v) = (res, st1, v1)"
    and "\<forall>v. length (fst (batch v)) = b"
    and "\<forall>events v k. length events = b \<longrightarrow> fst (post events v) = Reply 202 (Some k) \<longrightarrow> k = int b"
  shows "(res = Inr () \<longrightarrow> ls_http_202 st1 + ls_http_429 st1 + ls_erro st1
        = ls_http_202 st + ls_http_429 st + ls_erro st + int n)
    \<and> ls_aceitos st1 - ls_aceitos st = int b * (ls_http_202 st1 - ls_http_202 st)"
  using assms(1)
proof (induction n arbitrary: st v)
  case 0
  then show ?case by simp
next
  case (Suc n)
  obtain events v2 where batch: "batch v = (events, v2)" by (cases "batch v")
  obtain reply v3 where post: "post events v2 = (reply, v3)" by (cases "post events v2")
  obtain r st2 where count: "count_reply reply st = (r, st2)" by (cases "count_reply reply st")
  have "length events = b" using batch assms(2) by (metis fst_conv)
  then have whole: "k = int b" if "reply = Reply 202 (Some k)" for k
    using assms(3) post that by (metis fst_conv)
  have one: "ls_aceitos st2 - ls_aceitos st = int b * (ls_http_202 st2 - ls_http_202 st)"
    "r = Inr () \<Longrightarrow> ls_http_202 st2 + ls_http_429 st2 + ls_erro st2 = ls_http_202 st + ls_http_429 st + ls_erro st + 1"
    using count whole by (auto simp: count_reply_def split: http_reply.splits if_splits option.splits)
  show ?case
  proof (cases r)
    case (Inl x)
    with Suc.prems batch post count have "res = Inl x" "st1 = st2" by simp_all
    with one(1) show ?thesis by simp
  next
    case (Inr u)
    with Suc.prems batch post count have "load_worker batch post n (st2, v3) = (res, st1, v1)" by simp
    from Suc.IH [OF this] one show ?thesis using Inr by (simp add: algebra_simps)
  qed
qed

section \<open>Facts about the benchmark\<close>

abbreviation sample_chunk :: chunk where
  "sample_chunk \<equiv> \<lparr>ch_chunk_index = 900, ch_row_count = sample_fast\<rparr>"

lemma on_staging_run: "m (wa_staging w) = (r, t) \<Longrightarrow> on_staging m w = (r, w\<lparr>wa_staging := t\<rparr>)"
  by (simp add: on_staging_def)

lemma bench_load:
  assumes "rng_law R" and "bulk_csv_law bulk_csv"
  obtains n where "load_csv bulk_csv strategy None (chunk_csv R 900 sample_fast) t
    = (Inr n, t + mset (chunk_cells R sample_chunk))"
proof -
  obtain res t' where run: "load_csv bulk_csv strategy None (chunk_csv R 900 sample_fast) t = (res, t')"
    by (cases "load_csv bulk_csv strategy None (chunk_csv R 900 sample_fast) t")
  then have "load_csv bulk_csv strategy None (chunk_csv R (ch_chunk_index sample_chunk) (ch_row_count sample_chunk)) t = (res, t')"
    by simp
  from load_csv_adds [OF assms this] run that show thesis by (auto simp: strategy_batches_concat)
qed

lemma bench_row_by_row:
  assumes "rng_law R"
  shows "row_by_row None (chunk_csv R 900 sample_fast) limit t
    = (Inr (), t + mset (take (nat limit) (chunk_cells R sample_chunk)))"
proof -
  define records where "records = columns # map row_cells (chunk_rows R sample_chunk)"
  have csv: "csv_rows (chunk_csv R 900 sample_fast) = Some records"
    using csv_round_trip [OF chunk_csv_records [OF assms, of sample_chunk]] unfolding records_def
    by (simp add: chunk_csv_def chunk_rows_def)
  have rows: "map (\<lambda>r. [map Some r]) (take (nat limit) (tl records))
      = map (\<lambda>r. [r]) (take (nat limit) (chunk_cells R sample_chunk))"
    by (simp add: records_def chunk_cells_def take_map comp_def)
  have "concat (map (\<lambda>r. [r]) xs) = xs" for xs :: "cells list" by (induction xs) simp_all
  moreover have "\<forall>b \<in> set (map (\<lambda>r. [r]) (take (nat limit) (chunk_cells R sample_chunk))). \<forall>r \<in> set b. row_fits r"
    using chunk_cells_fit [OF assms] by (auto dest: in_set_takeD)
  ultimately show ?thesis
    using insert_batches_None by (simp add: row_by_row_def csv rows)
qed

text \<open>
  The benchmark compares what it says it compares. Without faults it returns its three measurements
  with the times it read; each strategy was run on an emptied table and loaded as many rows as its
  measurement claims, rows of the same sample, the slow one the first 5000; and it ends with an empty
  staging table, the fact table as it was and its sample file gone.
\<close>

lemma benchmark_is_fair:
  assumes "rng_law R" and "bulk_csv_law bulk_csv"
  shows "\<exists>m0 m1 m2. benchmark_main R bulk_csv (\<lambda>_. None) re w
      = (Inr [m0, m1, m2], w\<lparr>wa_staging := {#}, wa_files := AList.delete (chunk_path 900) (wa_files w)\<rparr>)
    \<and> map ms_seconds [m0, m1, m2] = map (re_elapsed \<circ> re) [0, 1, 2]
    \<and> (\<forall>w1 strategy. let w2 = snd (bench_measure (ms_label m0) (ms_rows m0)
            (on_staging (load_csv bulk_csv strategy None (chunk_csv R 900 sample_fast))) (re 0) w1) in
          wa_staging w2 = mset (chunk_cells R sample_chunk)
          \<and> int (size (wa_staging w2)) = ms_rows m0 \<and> ms_rows m1 = ms_rows m0)
    \<and> (\<forall>w1. let w2 = snd (bench_measure (ms_label m2) (ms_rows m2)
            (on_staging (row_by_row None (chunk_csv R 900 sample_fast) sample_row)) (re 2) w1) in
          wa_staging w2 = mset (take (nat sample_row) (chunk_cells R sample_chunk))
          \<and> int (size (wa_staging w2)) = ms_rows m2)"
proof -
  let ?cells = "chunk_cells R sample_chunk"
  let ?load = "\<lambda>strategy. on_staging (load_csv bulk_csv strategy None (chunk_csv R 900 sample_fast))"
  let ?slow = "on_staging (row_by_row None (chunk_csv R 900 sample_fast) sample_row)"
  let ?m = "\<lambda>label n k. \<lparr>ms_label = label, ms_rows = n, ms_seconds = re_elapsed (re k),
      ms_peak_memory_mb = peak_memory_mb (re_maxrss (re k))\<rparr>"
  have load: "bench_measure label n (?load strategy) (re k) w1 = (Inr (?m label n k), w1\<lparr>wa_staging := mset ?cells\<rparr>)"
    for label n strategy k w1
  proof -
    obtain i where "load_csv bulk_csv strategy None (chunk_csv R 900 sample_fast) {#} = (Inr i, {#} + mset ?cells)"
      by (rule bench_load [OF assms])
    then show ?thesis by (simp add: bench_measure_def bench_reset_def bnd_def on_staging_def)
  qed
  have slow: "bench_measure label n ?slow (re k) w1
      = (Inr (?m label n k), w1\<lparr>wa_staging := mset (take (nat sample_row) ?cells)\<rparr>)" for label n k w1
    by (simp add: bench_measure_def bench_reset_def bnd_def on_staging_def bench_row_by_row [OF assms(1)])
  have sizes: "int (length ?cells) = sample_fast" "int (length (take (nat sample_row) ?cells)) = sample_row"
    by (simp_all add: chunk_cells_length sample_fast_def sample_row_def)
  have files: "AList.delete p (AList.update p x fs) = AList.delete p fs" for p x and fs :: "(string \<times> string) list"
    by (induction fs) (auto simp: AList.delete_eq)
  have "benchmark_main R bulk_csv (\<lambda>_. None) re w
      = (Inr [?m ''BULK INSERT (volume compartilhado)'' sample_fast 0, ?m ''pyodbc fast_executemany'' sample_fast 1,
              ?m ''INSERT linha a linha'' sample_row 2],
         w\<lparr>wa_staging := {#}, wa_files := AList.delete (chunk_path 900) (wa_files w)\<rparr>)"
    by (simp add: benchmark_main_def Let_def bnd_def load slow bench_reset_def write_chunk_csv_def files)
  moreover have "int (size (mset ?cells)) = sample_fast" "int (size (mset (take (nat sample_row) ?cells))) = sample_row"
    using sizes by (simp_all only: size_mset)
  ultimately show ?thesis
    by (intro exI [of _ "?m ''BULK INSERT (volume compartilhado)'' sample_fast 0"]
        exI [of _ "?m ''pyodbc fast_executemany'' sample_fast 1"] exI [of _ "?m ''INSERT linha a linha'' sample_row 2"])
      (simp add: load slow Let_def del: size_mset)
qed

lemma benchmark_is_fair_example:
  "\<exists>ms. benchmark_main flat_rng csv_rows (\<lambda>_. None) (\<lambda>k. \<lparr>re_elapsed = of_nat (Suc k), re_maxrss = 2048\<rparr>) used_warehouse
      = (Inr ms, used_warehouse\<lparr>wa_staging := {#}\<rparr>) \<and> map ms_seconds ms = [1, 2, 3]"
proof -
  have gone: "AList.delete (chunk_path 900) (wa_files used_warehouse) = wa_files used_warehouse" by code_simp
  from benchmark_is_fair [OF flat_rng_law csv_rows_law, of "\<lambda>k. \<lparr>re_elapsed = of_nat (Suc k), re_maxrss = 2048\<rparr>" used_warehouse]
  obtain m0 m1 m2 where
    "benchmark_main flat_rng csv_rows (\<lambda>_. None) (\<lambda>k. \<lparr>re_elapsed = of_nat (Suc k), re_maxrss = 2048\<rparr>) used_warehouse
      = (Inr [m0, m1, m2], used_warehouse\<lparr>wa_staging := {#}, wa_files := wa_files used_warehouse\<rparr>)"
    "map ms_seconds [m0, m1, m2] = [1, 2, 3]"
    unfolding gone by auto
  then show ?thesis by (intro exI [of _ "[m0, m1, m2]"]) (simp add: used_warehouse_def)
qed

end
