(* ===== verification/Demo.thy ===== *)
theory Demo
  imports System
begin

text \<open>
  scripts/demo.py: five checks of a running deployment, from the outside. The deployment is a parameter,
  the record \<open>stage\<close>: posting events, reading the tables, a transaction, the ERP's list, the clock and
  fresh UUIDs, each of which gives the platform time to work. A program that may not return is a
  function to an option, None for a loop that does not end. What is printed is left out.
\<close>

section \<open>The deployment as the script sees it\<close>

text \<open>The dictionary literals have the fields of the models and are written as their records.\<close>

datatype demo_data = DemoClient client_upserted | DemoOrder order_created | DemoPayment payment_updated

record 'w stage =
  sg_post :: "demo_data envelope list \<Rightarrow> ('w, exn, unit) prog"
  sg_sql :: "('w, exn, db) prog"
  sg_begin :: "nat sess \<Rightarrow> ('w, exn, nat) prog"
  sg_erp_orders :: "('w, exn, unit) prog"
  sg_time :: "'w \<Rightarrow> rat"
  sg_sleep :: "rat \<Rightarrow> 'w \<Rightarrow> 'w"
  sg_now :: "'w \<Rightarrow> pydatetime"
  sg_uuid :: "'w \<Rightarrow> string \<times> 'w"

type_synonym ('w, 'a) script = "'w \<Rightarrow> ((exn + 'a) \<times> 'w) option"

definition finish :: "'a \<Rightarrow> ('w, 'a) script" where
  "finish a = (\<lambda>w. Some (Inr a, w))"

definition andthen :: "('w, 'a) script \<Rightarrow> ('a \<Rightarrow> ('w, 'b) script) \<Rightarrow> ('w, 'b) script" where
  "andthen m f = (\<lambda>w.
     case m w of
       None \<Rightarrow> None
     | Some (Inl x, w1) \<Rightarrow> Some (Inl x, w1)
     | Some (Inr a, w1) \<Rightarrow> f a w1)"

definition partner :: string where "partner = ''partner-checkout''"

definition demo_client_uid :: "string \<Rightarrow> string" where "demo_client_uid run = ''DEMO-CLI-'' @ run"
definition demo_address_uid :: "string \<Rightarrow> string" where "demo_address_uid run = ''DEMO-ADDR-'' @ run"
definition demo_order_uid :: "string \<Rightarrow> string" where "demo_order_uid run = ''DEMO-ORD-'' @ run"

definition now_text :: "'w stage \<Rightarrow> ('w, pydatetime) script" where
  "now_text S = (\<lambda>w. Some (Inr (sg_now S w), w))"

definition fresh_uuid :: "'w stage \<Rightarrow> ('w, string) script" where
  "fresh_uuid S = (\<lambda>w. case sg_uuid S w of (h, w1) \<Rightarrow> Some (Inr h, w1))"

definition demo_event :: "'w stage \<Rightarrow> event_type \<Rightarrow> demo_data \<Rightarrow> string option \<Rightarrow> ('w, demo_data envelope) script" where
  "demo_event S t x event_id =
     andthen (if event_id = None \<or> event_id = Some [] then andthen (fresh_uuid S) (\<lambda>h. finish (''evt-'' @ h))
              else finish (the event_id)) (\<lambda>i.
     andthen (now_text S) (\<lambda>now.
     finish \<lparr>ev_event_id = i, ev_event_type = t, ev_occurred_at = now, ev_partner = partner, ev_data = x\<rparr>))"

definition post_events :: "'w stage \<Rightarrow> demo_data envelope list \<Rightarrow> ('w, unit) script" where
  "post_events S events = (\<lambda>w. Some (sg_post S events w))"

text \<open>\<open>_sql\<close>: one query on a connection of its own.\<close>

definition ask :: "'w stage \<Rightarrow> (db \<Rightarrow> 'a) \<Rightarrow> ('w, 'a) script" where
  "ask S query = (\<lambda>w.
     case sg_sql S w of (Inl x, w1) \<Rightarrow> Some (Inl x, w1) | (Inr d, w1) \<Rightarrow> Some (Inr (query d), w1))"

definition pause :: "'w stage \<Rightarrow> rat \<Rightarrow> ('w, unit) script" where
  "pause S t = (\<lambda>w. Some (Inr (), sg_sleep S t w))"

partial_function (option) wait_until :: "'w stage \<Rightarrow> (db \<Rightarrow> nat) \<Rightarrow> nat \<Rightarrow> rat \<Rightarrow> 'w \<Rightarrow> ((exn + bool) \<times> 'w) option" where
  "wait_until S query expected deadline w =
     (if sg_time S w < deadline then
        (case sg_sql S w of
           (Inl x, w1) \<Rightarrow> Some (Inl x, w1)
         | (Inr d, w1) \<Rightarrow>
             if expected \<le> query d then Some (Inr True, w1)
             else wait_until S query expected deadline (sg_sleep S (1 / 2) w1))
      else Some (Inr False, w))"

definition wait :: "'w stage \<Rightarrow> (db \<Rightarrow> nat) \<Rightarrow> nat \<Rightarrow> rat \<Rightarrow> ('w, bool) script" where
  "wait S query expected timeout = (\<lambda>w. wait_until S query expected (sg_time S w + timeout) w)"

section \<open>The queries\<close>

definition count_clients :: "string \<Rightarrow> db \<Rightarrow> nat" where
  "count_clients uid d = length (filter (\<lambda>r. cl_client_uid r = uid) (clients d))"

definition count_orders :: "string \<Rightarrow> db \<Rightarrow> nat" where
  "count_orders uid d = length (filter (\<lambda>r. or_order_uid r = uid) (orders d))"

definition count_items :: "string \<Rightarrow> db \<Rightarrow> nat" where
  "count_items uid d = length (concat (map
     (\<lambda>o1. filter (\<lambda>i. it_order_id i = or_order_id o1) (order_items d)) (filter (\<lambda>r. or_order_uid r = uid) (orders d))))"

definition count_approved :: "string \<Rightarrow> db \<Rightarrow> nat" where
  "count_approved uid d = length (filter (\<lambda>r. or_order_uid r = uid \<and> or_status r = OrdAPPROVED) (orders d))"

definition count_messages :: "string \<Rightarrow> db \<Rightarrow> nat" where
  "count_messages uid d = length (filter (\<lambda>r. ob_aggregate_id r = uid) (outbox d))"

definition count_sent :: "string \<Rightarrow> db \<Rightarrow> nat" where
  "count_sent uid d = length (filter (\<lambda>r. ob_aggregate_id r = uid \<and> ob_status r = ObSENT) (outbox d))"

definition max_attempts :: "string \<Rightarrow> db \<Rightarrow> int" where
  "max_attempts uid d = fold max (map ob_attempts (filter (\<lambda>r. ob_aggregate_id r = uid) (outbox d))) 0"

definition first_row :: "'a list \<Rightarrow> 'a option" where
  "first_row rs = (case rs of [] \<Rightarrow> None | r # _ \<Rightarrow> Some r)"

definition order_city :: "string \<Rightarrow> db \<Rightarrow> string option" where
  "order_city uid d = first_row (concat (map
     (\<lambda>o1. map ad_city (filter (\<lambda>a. ad_address_id a = or_shipping_address_id o1) (addresses d)))
     (filter (\<lambda>r. or_order_uid r = uid) (orders d))))"

definition count_versions :: "string \<Rightarrow> db \<Rightarrow> nat" where
  "count_versions uid d = length (filter (\<lambda>a. ad_address_uid a = uid) (addresses d))"

definition current_city :: "string \<Rightarrow> db \<Rightarrow> string option" where
  "current_city uid d = first_row (map ad_city (filter (\<lambda>a. ad_address_uid a = uid \<and> ad_is_current a) (addresses d)))"

section \<open>The five steps\<close>

definition first_home :: "string \<Rightarrow> address_payload" where
  "first_home run = \<lparr>ap_address_uid = demo_address_uid run, ap_street = ''Avenida das Industrias'', ap_number = ''1500'',
     ap_complement = Some ''Galpao 3'', ap_district = ''Distrito Industrial'', ap_city = ''Joinville'',
     ap_state = ''SC'', ap_zip_code = ''89219000''\<rparr>"

definition second_home :: "string \<Rightarrow> address_payload" where
  "second_home run = \<lparr>ap_address_uid = demo_address_uid run, ap_street = ''Rua Nova do Comercio'', ap_number = ''42'',
     ap_complement = None, ap_district = ''Centro'', ap_city = ''Curitiba'',
     ap_state = ''PR'', ap_zip_code = ''80010000''\<rparr>"

definition demo_client :: "string \<Rightarrow> address_payload \<Rightarrow> client_upserted" where
  "demo_client run home = \<lparr>cu_client_uid = demo_client_uid run, cu_full_name = ''Mariana Ferreira Souza'',
     cu_document = ''39053344705'', cu_email = ''mariana.'' @ run @ ''@exemplo.com.br'', cu_address = home\<rparr>"

definition demo_order :: "string \<Rightarrow> pydatetime \<Rightarrow> order_created" where
  "demo_order run now = \<lparr>oc_order_uid = demo_order_uid run, oc_client_uid = demo_client_uid run,
     oc_shipping_address_uid = demo_address_uid run, oc_billing_address_uid = None, oc_currency = ''BRL'',
     oc_placed_at = now,
     oc_items = [\<lparr>oi_sku = ''SKU-AF-8000'', oi_description = ''Air Fryer Familia 8L'', oi_quantity = 1, oi_unit_price = 6499000\<rparr>,
       \<lparr>oi_sku = ''SKU-LQ-1200'', oi_description = ''Liquidificador 1200W 12 Velocidades'', oi_quantity = 2, oi_unit_price = 2199000\<rparr>]\<rparr>"

definition demo_payment :: "string \<Rightarrow> pydatetime \<Rightarrow> payment_updated" where
  "demo_payment run now = \<lparr>pu_order_uid = demo_order_uid run, pu_provider = ''pagarme'', pu_provider_tx_id = ''tx-'' @ run,
     pu_method = PIX, pu_status = PayAPPROVED, pu_amount = 10897000, pu_occurred_at = now\<rparr>"

text \<open>The order event goes into a global of the module; here the step returns it.\<close>

definition step_ingest :: "'w stage \<Rightarrow> string \<Rightarrow> ('w, bool \<times> demo_data envelope) script" where
  "step_ingest S run =
     andthen (demo_event S CLIENT_UPSERTED (DemoClient (demo_client run (first_home run))) None) (\<lambda>client_ev.
     andthen (post_events S [client_ev]) (\<lambda>_.
     andthen (wait S (count_clients (demo_client_uid run)) 1 45) (\<lambda>_.
     andthen (now_text S) (\<lambda>now.
     andthen (demo_event S ORDER_CREATED (DemoOrder (demo_order run now)) None) (\<lambda>order_ev.
     andthen (post_events S [order_ev]) (\<lambda>_.
     andthen (wait S (count_orders (demo_order_uid run)) 1 45) (\<lambda>persisted.
     finish (persisted, order_ev))))))))"

definition step_idempotency :: "'w stage \<Rightarrow> string \<Rightarrow> demo_data envelope \<Rightarrow> ('w, bool) script" where
  "step_idempotency S run order_ev =
     andthen (post_events S [order_ev, order_ev, order_ev]) (\<lambda>_.
     andthen (fresh_uuid S) (\<lambda>h.
     andthen (post_events S [order_ev\<lparr>ev_event_id := ''evt-'' @ h\<rparr>]) (\<lambda>_.
     andthen (pause S 4) (\<lambda>_.
     andthen (ask S (count_orders (demo_order_uid run))) (\<lambda>n.
     andthen (ask S (count_items (demo_order_uid run))) (\<lambda>items.
     finish (n = 1 \<and> items = 2)))))))"

definition step_payment_and_erp :: "'w stage \<Rightarrow> string \<Rightarrow> ('w, bool) script" where
  "step_payment_and_erp S run =
     andthen (now_text S) (\<lambda>now.
     andthen (demo_event S PAYMENT_UPDATED (DemoPayment (demo_payment run now)) None) (\<lambda>payment.
     andthen (post_events S [payment, payment]) (\<lambda>_.
     andthen (wait S (count_approved (demo_order_uid run)) 1 45) (\<lambda>_.
     andthen (ask S (count_messages (demo_order_uid run))) (\<lambda>_.
     andthen (wait S (count_sent (demo_order_uid run)) 1 90) (\<lambda>sent.
     andthen (ask S (max_attempts (demo_order_uid run))) (\<lambda>_.
     andthen (if sent then (\<lambda>w. Some (sg_erp_orders S w)) else finish ()) (\<lambda>_.
     finish sent))))))))"

text \<open>Any exception of the transaction counts as the refusal.\<close>

definition step_immutability :: "'w stage \<Rightarrow> string \<Rightarrow> ('w, bool) script" where
  "step_immutability S run = (\<lambda>w.
     case sg_begin S (update_orders (\<lambda>r. or_order_uid r = demo_order_uid run) (\<lambda>r. r\<lparr>or_total_amount := 10000\<rparr>)) w of
       (Inr _, w1) \<Rightarrow> Some (Inr False, w1)
     | (Inl _, w1) \<Rightarrow> Some (Inr True, w1))"

definition step_scd2 :: "'w stage \<Rightarrow> string \<Rightarrow> ('w, bool) script" where
  "step_scd2 S run =
     andthen (ask S (order_city (demo_order_uid run))) (\<lambda>before.
     andthen (demo_event S CLIENT_UPSERTED (DemoClient (demo_client run (second_home run))) None) (\<lambda>moved.
     andthen (post_events S [moved]) (\<lambda>_.
     andthen (pause S 4) (\<lambda>_.
     andthen (ask S (count_versions (demo_address_uid run))) (\<lambda>versions.
     andthen (ask S (current_city (demo_address_uid run))) (\<lambda>current.
     andthen (ask S (order_city (demo_order_uid run))) (\<lambda>city.
     finish (city = before \<and> versions = 2))))))))"

definition demo_main :: "'w stage \<Rightarrow> string \<Rightarrow> ('w, bool list) script" where
  "demo_main S run =
     andthen (step_ingest S run) (\<lambda>(persisted, order_ev).
     andthen (step_idempotency S run order_ev) (\<lambda>once.
     andthen (step_payment_and_erp S run) (\<lambda>sent.
     andthen (step_immutability S run) (\<lambda>refused.
     andthen (step_scd2 S run) (\<lambda>kept.
     finish [persisted, once, sent, refused, kept])))))"

text \<open>\<open>_scoreboard\<close>: how many of the checks passed.\<close>

definition scoreboard :: "bool list \<Rightarrow> nat \<times> nat" where
  "scoreboard results = (length (filter id results), length results)"

end
