(* ===== verification/Demo_Claims.thy ===== *)
theory Demo_Claims
  imports Demo Delivery_Run
begin

text \<open>
  What scripts/demo.py can find out: over every deployment that moves as the system of System does, the
  script returns, and the checks that test safety come out as they must.
\<close>

section \<open>Deployments\<close>

text \<open>
  What the script relies on: whatever it asks of the deployment, the platform goes on by its own steps;
  a query shows the tables as they are then; a transaction that raises changed nothing, and one that does
  not applied its statement; the clock never goes back and a pause lasts at least as long as asked.
\<close>

definition ran_on :: "('w \<Rightarrow> db) \<Rightarrow> nat sess \<Rightarrow> (exn + nat) \<times> 'w \<Rightarrow> 'w \<Rightarrow> bool" where
  "ran_on db_of m result w1 \<longleftrightarrow>
     (\<exists>x. result = (Inl x, w1))
     \<or> (\<exists>n d w2. m (db_of w1) = (Inr n, d) \<and> result = (Inr n, w2) \<and> db_of w2 = d)"

definition stage_law ::
  "('w \<Rightarrow> 'w \<Rightarrow> bool) \<Rightarrow> ('w \<Rightarrow> db) \<Rightarrow> 'w stage \<Rightarrow> bool" where
  "stage_law moves db_of S \<longleftrightarrow>
     (\<forall>es w. moves w (snd (sg_post S es w))) \<and> (\<forall>w. moves w (snd (sg_erp_orders S w)))
     \<and> (\<forall>w. moves w (snd (sg_uuid S w)))
     \<and> (\<forall>w. moves w (snd (sg_sql S w)) \<and> (\<forall>d. fst (sg_sql S w) = Inr d \<longrightarrow> d = db_of (snd (sg_sql S w))))
     \<and> (\<forall>t w. 0 \<le> t \<longrightarrow> moves w (sg_sleep S t w) \<and> sg_time S w + t \<le> sg_time S (sg_sleep S t w))
     \<and> (\<forall>w w'. moves w w' \<longrightarrow> sg_time S w \<le> sg_time S w')
     \<and> (\<forall>m w. \<exists>w1. moves w w1 \<and> ran_on db_of m (sg_begin S m w) w1)"

definition platform_moves ::
  "settings \<Rightarrow> ('d, 'r) processor \<Rightarrow> (json \<Rightarrow> string) \<Rightarrow> ('w \<Rightarrow> 'r system) \<Rightarrow> 'w stage \<Rightarrow> 'w \<Rightarrow> 'w \<Rightarrow> bool" where
  "platform_moves s p str_of sys S w w' \<longleftrightarrow> (system_step s p str_of)\<^sup>*\<^sup>* (sys w) (sys w') \<and> sg_time S w \<le> sg_time S w'"

section \<open>Scripts that keep a fact\<close>

text \<open>\<open>runs P m Q\<close>: from a state with P the script returns, and with Q unless it raises.\<close>

definition runs :: "('w \<Rightarrow> bool) \<Rightarrow> ('w, 'a) script \<Rightarrow> ('a \<Rightarrow> 'w \<Rightarrow> bool) \<Rightarrow> bool" where
  "runs P m Q \<longleftrightarrow> (\<forall>w. P w \<longrightarrow> (\<exists>r w1. m w = Some (r, w1) \<and> (\<forall>a. r = Inr a \<longrightarrow> Q a w1)))"

lemma runs_finish: "(\<And>w. P w \<Longrightarrow> Q a w) \<Longrightarrow> runs P (finish a) Q"
  by (simp add: runs_def finish_def)

lemma runs_andthen:
  assumes "runs P m R" and "\<And>a. runs (R a) (f a) Q"
  shows "runs P (andthen m f) Q"
  unfolding runs_def
proof (intro allI impI)
  fix w
  assume "P w"
  with assms(1) obtain r w1 where m: "m w = Some (r, w1)" and R: "\<forall>a. r = Inr a \<longrightarrow> R a w1"
    unfolding runs_def by blast
  show "\<exists>r w1. andthen m f w = Some (r, w1) \<and> (\<forall>a. r = Inr a \<longrightarrow> Q a w1)"
  proof (cases r)
    case (Inl x)
    with m show ?thesis by (simp add: andthen_def)
  next
    case (Inr a)
    with R assms(2) [of a] m show ?thesis by (simp add: andthen_def runs_def)
  qed
qed

lemma runs_weaken:
  "runs P m Q \<Longrightarrow> (\<And>w. P' w \<Longrightarrow> P w) \<Longrightarrow> (\<And>a w. Q a w \<Longrightarrow> Q' a w) \<Longrightarrow> runs P' m Q'"
  unfolding runs_def by meson

locale deployment =
  fixes S :: "'w stage" and moves :: "'w \<Rightarrow> 'w \<Rightarrow> bool" and db_of :: "'w \<Rightarrow> db"
  assumes law: "stage_law moves db_of S"
begin

definition stable :: "('w \<Rightarrow> bool) \<Rightarrow> bool" where
  "stable P \<longleftrightarrow> (\<forall>w w'. P w \<longrightarrow> moves w w' \<longrightarrow> P w')"

lemma stableD: "stable P \<Longrightarrow> P w \<Longrightarrow> moves w w' \<Longrightarrow> P w'"
  unfolding stable_def by blast

lemma stable_conj: "stable P \<Longrightarrow> stable Q \<Longrightarrow> stable (\<lambda>w. P w \<and> Q w)"
  unfolding stable_def by blast

lemma stable_imp: "stable P \<Longrightarrow> stable (\<lambda>w. b \<longrightarrow> P w)"
  unfolding stable_def by blast

lemma law_moves:
  "moves w (snd (sg_post S es w))" "moves w (snd (sg_erp_orders S w))" "moves w (snd (sg_uuid S w))"
  "moves w (snd (sg_sql S w))" "0 \<le> t \<Longrightarrow> moves w (sg_sleep S t w)"
  using law unfolding stage_law_def by blast+

lemma law_sql: "fst (sg_sql S w) = Inr d \<Longrightarrow> d = db_of (snd (sg_sql S w))"
  using law unfolding stage_law_def by blast

lemma law_time: "moves w w' \<Longrightarrow> sg_time S w \<le> sg_time S w'" "0 \<le> t \<Longrightarrow> sg_time S w + t \<le> sg_time S (sg_sleep S t w)"
  using law unfolding stage_law_def by blast+

lemma runs_mover:
  assumes "stable P" and "\<And>w. moves w (snd (f w))"
  shows "runs P (\<lambda>w. Some (f w)) (\<lambda>_. P)"
  unfolding runs_def
proof (intro allI impI)
  fix w
  assume "P w"
  from stableD [OF assms(1) this assms(2)] show "\<exists>r w1. Some (f w) = Some (r, w1) \<and> (\<forall>a. r = Inr a \<longrightarrow> P w1)"
    by (intro exI [of _ "fst (f w)"] exI [of _ "snd (f w)"]) simp
qed

lemma runs_post: "stable P \<Longrightarrow> runs P (post_events S es) (\<lambda>_. P)"
  unfolding post_events_def by (rule runs_mover [OF _ law_moves(1)])

lemma runs_erp: "stable P \<Longrightarrow> runs P (\<lambda>w. Some (sg_erp_orders S w)) (\<lambda>_. P)"
  by (rule runs_mover [OF _ law_moves(2)])

lemma runs_uuid:
  assumes "stable P"
  shows "runs P (fresh_uuid S) (\<lambda>_. P)"
proof -
  have "runs P (\<lambda>w. Some (Inr (fst (sg_uuid S w)), snd (sg_uuid S w))) (\<lambda>_. P)"
    by (rule runs_mover [OF assms]) (simp add: law_moves)
  then show ?thesis by (simp add: fresh_uuid_def case_prod_beta)
qed

lemma runs_now: "runs P (now_text S) (\<lambda>_. P)"
  by (simp add: runs_def now_text_def)

lemma runs_pause: "stable P \<Longrightarrow> 0 \<le> t \<Longrightarrow> runs P (pause S t) (\<lambda>_. P)"
  using law_moves(5) [of t] unfolding pause_def runs_def by (auto dest: stableD)

lemma runs_event: "stable P \<Longrightarrow> runs P (demo_event S t x i) (\<lambda>_. P)"
  unfolding demo_event_def
  by (intro runs_andthen [where R = "\<lambda>_. P"] runs_now runs_finish) (auto intro!: runs_andthen [where R = "\<lambda>_. P"] runs_uuid runs_finish)

text \<open>A query shows the tables of the moment.\<close>

lemma runs_ask:
  assumes "stable P"
  shows "runs P (ask S q) (\<lambda>a w. P w \<and> a = q (db_of w))"
  unfolding runs_def
proof (intro allI impI)
  fix w
  assume "P w"
  then have "P (snd (sg_sql S w))" using law_moves(4) by (rule stableD [OF assms])
  with law_sql [of w] show "\<exists>r w1. ask S q w = Some (r, w1) \<and> (\<forall>a. r = Inr a \<longrightarrow> P w1 \<and> a = q (db_of w1))"
    by (cases "sg_sql S w") (auto simp: ask_def split: sum.split)
qed

text \<open>Waiting ends, because every turn that does not end it pauses for half a second.\<close>

lemma wait_until_returns:
  assumes "stable P" and "P w" and "deadline - sg_time S w \<le> of_nat n / 2"
  shows "\<exists>r w1. wait_until S q k deadline w = Some (r, w1)
    \<and> (\<forall>b. r = Inr b \<longrightarrow> P w1 \<and> (b \<longrightarrow> k \<le> q (db_of w1)))"
  using assms(2,3)
proof (induction n arbitrary: w)
  case 0
  then have "\<not> sg_time S w < deadline" by simp
  with 0 show ?case by (simp add: wait_until.simps [of S q k deadline w])
next
  case (Suc n)
  obtain r w1 where sql: "sg_sql S w = (r, w1)" by (cases "sg_sql S w")
  have w1: "P w1" "sg_time S w \<le> sg_time S w1" "\<And>d. r = Inr d \<Longrightarrow> d = db_of w1"
    using stableD [OF assms(1) Suc.prems(1) law_moves(4)] law_time(1) [OF law_moves(4)] law_sql [of w] sql
    by (metis snd_conv, metis snd_conv, metis fst_conv snd_conv)
  let ?w2 = "sg_sleep S (1 / 2) w1"
  have "P ?w2" using stableD [OF assms(1) w1(1) law_moves(5)] by simp
  moreover have "sg_time S w1 + 1 / 2 \<le> sg_time S ?w2" using law_time(2) [of "1 / 2" w1] by simp
  then have "deadline - sg_time S ?w2 \<le> of_nat n / 2"
    using Suc.prems(2) w1(2) by (simp add: field_simps)
  ultimately have again: "\<exists>r w3. wait_until S q k deadline ?w2 = Some (r, w3)
      \<and> (\<forall>b. r = Inr b \<longrightarrow> P w3 \<and> (b \<longrightarrow> k \<le> q (db_of w3)))"
    by (rule Suc.IH)
  show ?case
  proof (cases "sg_time S w < deadline")
    case False
    with Suc.prems show ?thesis by (simp add: wait_until.simps [of S q k deadline w])
  next
    case True
    show ?thesis
    proof (cases r)
      case (Inl x)
      with True sql show ?thesis by (simp add: wait_until.simps [of S q k deadline w])
    next
      case (Inr d)
      with True sql w1 again show ?thesis by (simp add: wait_until.simps [of S q k deadline w])
    qed
  qed
qed

lemma runs_wait:
  assumes "stable P"
  shows "runs P (wait S q k timeout) (\<lambda>b w. P w \<and> (b \<longrightarrow> k \<le> q (db_of w)))"
  unfolding runs_def wait_def
proof (intro allI impI)
  fix w
  assume "P w"
  obtain n where "timeout * 2 \<le> of_nat n" using real_arch_simple [of "timeout * 2"] by blast
  then have "sg_time S w + timeout - sg_time S w \<le> of_nat n / 2" by simp
  from wait_until_returns [OF assms \<open>P w\<close> this]
  show "\<exists>r w1. wait_until S q k (sg_time S w + timeout) w = Some (r, w1)
      \<and> (\<forall>b. r = Inr b \<longrightarrow> P w1 \<and> (b \<longrightarrow> k \<le> q (db_of w1)))" .
qed

text \<open>The steps of the script, for a fact P that every move keeps.\<close>

lemma runs_ingest:
  assumes "stable P"
  shows "runs P (step_ingest S run) (\<lambda>(p, ev) w. P w \<and> (p \<longrightarrow> 1 \<le> count_orders (demo_order_uid run) (db_of w)))"
proof -
  note keep = runs_event [OF assms] runs_post [OF assms] runs_now [of P]
  have first: "runs P (wait S q k t) (\<lambda>_. P)" for q k t
    by (rule runs_weaken [OF runs_wait [OF assms]]) auto
  show ?thesis
    unfolding step_ingest_def
    by (rule runs_andthen, rule keep, rule runs_andthen, rule keep, rule runs_andthen, rule first,
        rule runs_andthen, rule keep, rule runs_andthen, rule keep, rule runs_andthen, rule keep,
        rule runs_andthen, rule runs_wait [OF assms], rule runs_finish) simp
qed

lemma runs_idempotency:
  assumes "stable P" and one: "\<And>w. P w \<Longrightarrow> p \<Longrightarrow> count_orders (demo_order_uid run) (db_of w) = 1"
  shows "runs P (step_idempotency S run ev) (\<lambda>b w. P w \<and> (p \<longrightarrow> (b \<longleftrightarrow> count_items (demo_order_uid run) (db_of w) = 2)))"
proof -
  note keep = runs_post [OF assms(1)] runs_uuid [OF assms(1)] runs_pause [OF assms(1)]
  let ?R = "\<lambda>n w. P w \<and> (p \<longrightarrow> n = 1)"
  have count: "runs P (ask S (count_orders (demo_order_uid run))) ?R"
    by (rule runs_weaken [OF runs_ask [OF assms(1)]]) (auto simp: one)
  have items: "runs (?R n) (ask S (count_items (demo_order_uid run)))
      (\<lambda>i w. ?R n w \<and> i = count_items (demo_order_uid run) (db_of w))" for n
    by (rule runs_ask) (use assms(1) in \<open>unfold stable_def, blast\<close>)
  show ?thesis
    unfolding step_idempotency_def
    by (rule runs_andthen, rule keep, rule runs_andthen, rule keep, rule runs_andthen, rule keep,
        rule runs_andthen, rule keep, simp, rule runs_andthen, rule count, rule runs_andthen, rule items,
        rule runs_finish) auto
qed

lemma runs_payment:
  assumes "stable P" and "stable M" and msg: "\<And>w. P w \<Longrightarrow> 1 \<le> count_sent (demo_order_uid run) (db_of w) \<Longrightarrow> M w"
  shows "runs P (step_payment_and_erp S run) (\<lambda>b w. P w \<and> (b \<longrightarrow> M w))"
proof -
  note keep = runs_post [OF assms(1)] runs_now [of P] runs_event [OF assms(1)]
  let ?R = "\<lambda>b w. P w \<and> (b \<longrightarrow> M w)"
  have stable: "stable (?R b)" for b by (intro stable_conj stable_imp assms)
  have wait: "runs P (wait S q k t) (\<lambda>_. P)" and ask: "runs P (ask S q) (\<lambda>_. P)" for q :: "db \<Rightarrow> nat" and k t
    by (rule runs_weaken [OF runs_wait [OF assms(1)]], auto) (rule runs_weaken [OF runs_ask [OF assms(1)]], auto)
  have sent: "runs P (wait S (count_sent (demo_order_uid run)) 1 90) ?R"
    by (rule runs_weaken [OF runs_wait [OF assms(1)]]) (auto simp: msg)
  have attempts: "runs (?R b) (ask S (max_attempts (demo_order_uid run))) (\<lambda>_. ?R b)" for b
    by (rule runs_weaken [OF runs_ask [OF stable]]) auto
  have erp: "runs (?R b) (if b then (\<lambda>w. Some (sg_erp_orders S w)) else finish ()) (\<lambda>_. ?R b)" for b
    using runs_erp [OF stable [of b]] runs_finish [of "?R b" "\<lambda>_. ?R b" "()"] by (cases b) simp_all
  show ?thesis
    unfolding step_payment_and_erp_def
    by (rule runs_andthen, rule keep, rule runs_andthen, rule keep, rule runs_andthen, rule keep,
        rule runs_andthen, rule wait, rule runs_andthen, rule ask, rule runs_andthen, rule sent,
        rule runs_andthen, rule attempts, rule runs_andthen, rule erp, rule runs_finish)
qed

lemma runs_immutability:
  assumes "stable P" and passed: "\<And>w n d. P w \<Longrightarrow>
      update_orders (\<lambda>r. or_order_uid r = demo_order_uid run) (\<lambda>r. r\<lparr>or_total_amount := 10000\<rparr>) (db_of w) = (Inr n, d) \<Longrightarrow> X"
  shows "runs P (step_immutability S run) (\<lambda>b w. (b \<longrightarrow> P w) \<and> (\<not> b \<longrightarrow> X))"
  unfolding runs_def
proof (intro allI impI)
  fix w
  assume "P w"
  define m where "m = update_orders (\<lambda>r. or_order_uid r = demo_order_uid run) (\<lambda>r. r\<lparr>or_total_amount := 10000\<rparr>)"
  from law obtain w1 where w1: "moves w w1" and ran: "ran_on db_of m (sg_begin S m w) w1"
    unfolding stage_law_def by blast
  have P1: "P w1" using stableD [OF assms(1) \<open>P w\<close> w1] .
  from ran consider x where "sg_begin S m w = (Inl x, w1)"
    | n d w2 where "m (db_of w1) = (Inr n, d)" "sg_begin S m w = (Inr n, w2)"
    unfolding ran_on_def by blast
  then show "\<exists>r w1. step_immutability S run w = Some (r, w1) \<and> (\<forall>b. r = Inr b \<longrightarrow> (b \<longrightarrow> P w1) \<and> (\<not> b \<longrightarrow> X))"
  proof cases
    case 1
    then show ?thesis using P1 unfolding step_immutability_def m_def [symmetric] by simp
  next
    case 2
    from passed [OF P1, folded m_def, OF this(1)] this(2) show ?thesis
      unfolding step_immutability_def m_def [symmetric] by simp
  qed
qed

lemma runs_scd2:
  assumes "stable P" and city: "\<And>w w'. P w \<Longrightarrow> p \<Longrightarrow> moves w w' \<Longrightarrow>
      order_city (demo_order_uid run) (db_of w') = order_city (demo_order_uid run) (db_of w)"
  shows "runs P (step_scd2 S run) (\<lambda>b w. P w \<and> (p \<longrightarrow> (\<exists>w0. P w0 \<and> (b \<longleftrightarrow> count_versions (demo_address_uid run) (db_of w0) = 2))))"
proof -
  let ?city = "\<lambda>w. order_city (demo_order_uid run) (db_of w)"
  let ?n = "\<lambda>w. count_versions (demo_address_uid run) (db_of w)"
  let ?B = "\<lambda>c w. P w \<and> (p \<longrightarrow> c = ?city w)"
  let ?V = "\<lambda>c n w. ?B c w \<and> (\<exists>w0. P w0 \<and> n = ?n w0)"
  have B: "stable (?B c)" for c
    using assms(1) city unfolding stable_def by metis
  have V: "stable (?V c n)" for c n
    using B [of c] unfolding stable_def by blast
  have before: "runs P (ask S (order_city (demo_order_uid run))) ?B"
    by (rule runs_weaken [OF runs_ask [OF assms(1)]]) auto
  have versions: "runs (?B c) (ask S (count_versions (demo_address_uid run))) (?V c)" for c
    by (rule runs_weaken [OF runs_ask [OF B]]) auto
  have current: "runs (?V c n) (ask S (current_city (demo_address_uid run))) (\<lambda>_. ?V c n)" for c n
    by (rule runs_weaken [OF runs_ask [OF V]]) auto
  have after: "runs (?V c n) (ask S (order_city (demo_order_uid run))) (\<lambda>c' w. ?V c n w \<and> c' = ?city w)" for c n
    by (rule runs_ask [OF V])
  show ?thesis
    unfolding step_scd2_def
    by (rule runs_andthen, rule before, rule runs_andthen, rule runs_event [OF B], rule runs_andthen, rule runs_post [OF B],
        rule runs_andthen, rule runs_pause [OF B], simp, rule runs_andthen, rule versions, rule runs_andthen, rule current,
        rule runs_andthen, rule after, rule runs_finish) auto
qed

end

section \<open>What the platform never undoes\<close>

definition history_kept :: "db \<Rightarrow> db \<Rightarrow> bool" where
  "history_kept d d' \<longleftrightarrow>
     prefix (map order_terms (orders d)) (map order_terms (orders d'))
     \<and> prefix (map address_content (addresses d)) (map address_content (addresses d'))
     \<and> ob_aggregate_id ` set (outbox d) \<subseteq> ob_aggregate_id ` set (outbox d')"

lemma history_kept_refl: "history_kept d d"
  by (simp add: history_kept_def)

lemma history_kept_trans: "history_kept a b \<Longrightarrow> history_kept b c \<Longrightarrow> history_kept a c"
  unfolding history_kept_def by (blast intro: prefix_order.trans)

lemma outbox_only_history:
  assumes "outbox_only d d'"
  shows "history_kept d d'"
proof -
  have "map fst (map snd (map (\<lambda>r. (ob_outbox_id r, ob_aggregate_id r, ob_payload r)) (outbox d')))
      = map fst (map snd (map (\<lambda>r. (ob_outbox_id r, ob_aggregate_id r, ob_payload r)) (outbox d)))"
    by (simp only: outbox_only_frame(8) [OF assms])
  then have "map ob_aggregate_id (outbox d') = map ob_aggregate_id (outbox d)" by (simp add: comp_def)
  then have "ob_aggregate_id ` set (outbox d') = ob_aggregate_id ` set (outbox d)" by (metis set_map)
  then show ?thesis by (simp add: history_kept_def outbox_only_frame [OF assms])
qed

lemma system_step_history:
  assumes "system_inv str_of y" and "system_step s p str_of y y'"
  shows "history_kept (sy_db y) (sy_db y')"
  using assms(2)
proof cases
  case (ingest clk fault e res d r)
  have "registry_ok (pr_registry (worker_processor p))" by (simp add: worker_processor_def build_registry_ok)
  moreover have "db_ok (sy_db y)" using assms(1) by (simp add: system_inv_def)
  ultimately have "rows_grow (sy_db y) d" using process_grows [OF _ _ ingest(2)] by blast
  then show ?thesis using ingest(1) by (simp add: history_kept_def rows_grow_def image_mono set_mono_prefix)
next
  case others
  from outbox_only_history [OF dispatch_step_only [OF this]] show ?thesis .
qed

lemma system_steps_history:
  assumes "system_inv str_of y" and "(system_step s p str_of)\<^sup>*\<^sup>* y y'"
  shows "history_kept (sy_db y) (sy_db y') \<and> system_inv str_of y'"
  using assms(2)
proof (induction rule: rtranclp_induct)
  case base
  with assms(1) show ?case by (simp add: history_kept_refl)
next
  case (step y' y'')
  then show ?case using system_step_history [of str_of y' s p y''] step_inv [of str_of y' s p y'']
    by (blast intro: history_kept_trans)
qed

lemma prefix_member: "prefix (map f xs) (map f ys) \<Longrightarrow> x \<in> set xs \<Longrightarrow> \<exists>y \<in> set ys. f y = f x"
  using set_mono_prefix [of "map f xs" "map f ys"] by (auto simp: image_subset_iff) (metis imageE)

lemma count_orders_ok:
  assumes "db_ok d"
  shows "1 \<le> count_orders uid d \<longleftrightarrow> uid \<in> or_order_uid ` set (orders d)"
    and "count_orders uid d \<le> 1"
proof -
  have dist: "distinct (map or_order_uid (orders d))" using db_okD(1) [OF assms] by (simp add: db_keys_def)
  show "1 \<le> count_orders uid d \<longleftrightarrow> uid \<in> or_order_uid ` set (orders d)"
    by (auto simp: count_orders_def Suc_le_eq filter_empty_conv)
  show "count_orders uid d \<le> 1"
  proof (cases "uid \<in> or_order_uid ` set (orders d)")
    case True
    then obtain r where "r \<in> set (orders d)" "or_order_uid r = uid" by blast
    with filter_key_unique [OF dist this(1)] show ?thesis by (simp add: count_orders_def)
  next
    case False
    then have "filter (\<lambda>r. or_order_uid r = uid) (orders d) = []" by (auto simp: filter_empty_conv)
    then show ?thesis by (simp add: count_orders_def)
  qed
qed

text \<open>The city of an order is that of the version it was placed with.\<close>

lemma order_city_ok:
  assumes "db_ok d" and "o1 \<in> set (orders d)" and "a \<in> set (addresses d)" and "ad_address_id a = or_shipping_address_id o1"
  shows "order_city (or_order_uid o1) d = Some (ad_city a)"
proof -
  have "distinct (map or_order_uid (orders d))" "distinct (map ad_address_id (addresses d))"
    using db_okD(1) [OF assms(1)] by (simp_all add: db_keys_def keyed_def)
  then have "filter (\<lambda>r. or_order_uid r = or_order_uid o1) (orders d) = [o1]"
    "filter (\<lambda>r. ad_address_id r = ad_address_id a) (addresses d) = [a]"
    using filter_key_unique assms(2,3) by metis+
  then show ?thesis by (simp add: order_city_def first_row_def assms(4) [symmetric])
qed

lemma order_city_kept:
  assumes "db_ok d" and "db_ok d'" and "history_kept d d'" and "uid \<in> or_order_uid ` set (orders d)"
  shows "order_city uid d' = order_city uid d" and "uid \<in> or_order_uid ` set (orders d')"
proof -
  obtain o1 where o1: "o1 \<in> set (orders d)" "or_order_uid o1 = uid" using assms(4) by blast
  moreover have "or_shipping_address_id o1 \<in> ad_address_id ` set (addresses d)"
    using db_okD(2) [OF assms(1)] o1(1) by (auto simp: db_refs_def)
  then obtain a where a: "a \<in> set (addresses d)" "ad_address_id a = or_shipping_address_id o1" by auto
  have pre: "prefix (map order_terms (orders d)) (map order_terms (orders d'))"
    "prefix (map address_content (addresses d)) (map address_content (addresses d'))"
    using assms(3) by (simp_all add: history_kept_def)
  obtain o2 where o2: "o2 \<in> set (orders d')" "order_terms o2 = order_terms o1"
    using prefix_member [OF pre(1) o1(1)] by blast
  obtain b where b: "b \<in> set (addresses d')" "address_content b = address_content a"
    using prefix_member [OF pre(2) a(1)] by blast
  have "order_city uid d = Some (ad_city a)" using order_city_ok [OF assms(1) o1(1) a] o1(2) by simp
  moreover have "ad_address_id b = or_shipping_address_id o2" "or_order_uid o2 = uid" "ad_city b = ad_city a"
    using o2(2) b(2) a(2) o1(2) by (auto simp: order_terms_def address_content_def)
  moreover from this have "order_city uid d' = Some (ad_city b)" using order_city_ok [OF assms(2) o2(1) b(1)] by simp
  ultimately show "order_city uid d' = order_city uid d" "uid \<in> or_order_uid ` set (orders d')"
    using o2(1) by (simp, metis imageI)
qed

lemma count_sent_message: "1 \<le> count_sent uid d \<Longrightarrow> uid \<in> ob_aggregate_id ` set (outbox d)"
  by (force simp: count_sent_def Suc_le_eq filter_empty_conv)

text \<open>An order with a message is closed, and the demo's UPDATE is refused unless it changes nothing.\<close>

lemma update_refused:
  assumes "db_ok d" and "uid \<in> ob_aggregate_id ` set (outbox d)"
    and "update_orders (\<lambda>r. or_order_uid r = uid) (\<lambda>r. r\<lparr>or_total_amount := 10000\<rparr>) d = (Inr n, d')"
  shows "\<exists>o1 \<in> set (orders d). or_order_uid o1 = uid \<and> or_total_amount o1 = 10000"
proof -
  obtain m where m: "m \<in> set (outbox d)" "ob_aggregate_id m = uid" using assms(2) by blast
  then obtain o1 where o1: "o1 \<in> set (orders d)" "or_order_uid o1 = uid"
    using db_okD(6) [OF assms(1)] unfolding db_notified_def by (auto simp: image_subset_iff)
  have "messages_for (or_order_uid o1) (outbox d) \<noteq> []"
    using m o1(2) by (auto simp: messages_for_def filter_empty_conv)
  then have "or_status o1 \<noteq> OrdPENDING" using db_okD(6) [OF assms(1)] o1(1) unfolding db_notified_def by auto
  then have closed: "closed_row o1" by (cases "or_status o1") (auto simp: closed_row_def)
  let ?f = "\<lambda>r :: order_row. r\<lparr>or_total_amount := 10000\<rparr>"
  let ?del = "filter (\<lambda>r. or_order_uid r = uid) (orders d)"
  have "\<not> orders_trigger_fires ?del (map ?f ?del)"
    using assms(3) by (auto simp: update_orders_def Let_def split: if_splits option.splits)
  moreover have "o1 \<in> set ?del" "?f o1 \<in> set (map ?f ?del)" using o1 by auto
  ultimately have "\<not> protected_columns_differ (?f o1) o1"
    using closed unfolding orders_trigger_fires_def by fastforce
  then show ?thesis using o1 by (intro bexI [of _ o1]) (auto simp: protected_columns_differ_def)
qed

section \<open>A platform behind the deployment\<close>

text \<open>
  A deployment that moves by the system's steps from a start: the facts that its moves keep, and the steps
  of the script over them.
\<close>

locale platform =
  fixes S :: "'w stage" and sys :: "'w \<Rightarrow> 'r system" and s :: settings and p :: "('d, 'r) processor"
    and str_of :: "json \<Rightarrow> string" and y0 :: "'r system"
  assumes platform_law: "stage_law (platform_moves s p str_of sys S) (\<lambda>w. sy_db (sys w)) S"
    and platform_start: "start_system y0"
begin

abbreviation moves :: "'w \<Rightarrow> 'w \<Rightarrow> bool" where
  "moves \<equiv> platform_moves s p str_of sys S"

abbreviation tables :: "'w \<Rightarrow> db" where
  "tables w \<equiv> sy_db (sys w)"

definition reached :: "'r system \<Rightarrow> bool" where
  "reached y \<longleftrightarrow> (system_step s p str_of)\<^sup>*\<^sup>* y0 y"

definition ordered :: "string \<Rightarrow> bool \<Rightarrow> 'w \<Rightarrow> bool" where
  "ordered run b w \<longleftrightarrow> reached (sys w) \<and> (b \<longrightarrow> demo_order_uid run \<in> or_order_uid ` set (orders (tables w)))"

definition notified :: "string \<Rightarrow> 'w \<Rightarrow> bool" where
  "notified run w \<longleftrightarrow> reached (sys w) \<and> demo_order_uid run \<in> ob_aggregate_id ` set (outbox (tables w))"

definition items_counted :: "string \<Rightarrow> bool \<Rightarrow> bool" where
  "items_counted run b \<longleftrightarrow> (\<exists>y. reached y \<and> (b \<longleftrightarrow> count_items (demo_order_uid run) (sy_db y) = 2))"

definition versions_counted :: "string \<Rightarrow> bool \<Rightarrow> bool" where
  "versions_counted run b \<longleftrightarrow> (\<exists>y. reached y \<and> (b \<longleftrightarrow> count_versions (demo_address_uid run) (sy_db y) = 2))"

definition same_amount :: "string \<Rightarrow> bool" where
  "same_amount run \<longleftrightarrow> (\<exists>y. reached y \<and>
     (\<exists>o1 \<in> set (orders (sy_db y)). or_order_uid o1 = demo_order_uid run \<and> or_total_amount o1 = 10000))"

lemma reached_inv: "reached y \<Longrightarrow> system_inv str_of y"
  unfolding reached_def using platform_start by (rule delivery.reachable_inv)

lemma reached_ok: "reached y \<Longrightarrow> db_ok (sy_db y)"
  using reached_inv by (simp add: system_inv_def)

lemma moves_on:
  assumes "reached (sys w1)" and "moves w1 w2"
  shows "reached (sys w2)" and "history_kept (tables w1) (tables w2)"
  using assms system_steps_history [OF reached_inv [OF assms(1)]] by (auto simp: platform_moves_def reached_def)

lemma deployed: "deployment S moves tables"
  using platform_law by (rule deployment.intro)

lemmas stable_def = deployment.stable_def [OF deployed]
lemmas stable_rules = deployment.stable_conj [OF deployed] deployment.stable_imp [OF deployed]

lemma stable_ordered: "deployment.stable moves (ordered run b)"
  unfolding stable_def ordered_def using moves_on order_city_kept(2) [OF reached_ok reached_ok] by blast

lemma stable_notified: "deployment.stable moves (notified run)"
  unfolding stable_def notified_def using moves_on unfolding history_kept_def by blast

lemma stable_const: "deployment.stable moves (\<lambda>_. K)"
  by (simp add: stable_def)

lemma ingest_step: "runs (\<lambda>w. reached (sys w)) (step_ingest S run) (\<lambda>(b, ev). ordered run b)"
proof (rule runs_weaken [OF deployment.runs_ingest [OF deployed stable_ordered [of run False]]])
  show "ordered run False w" if "reached (sys w)" for w using that by (simp add: ordered_def)
qed (auto simp: ordered_def count_orders_ok(1) [OF reached_ok, unfolded One_nat_def])

lemma idempotency_step:
  "runs (ordered run b) (step_idempotency S run ev) (\<lambda>once w. ordered run b w \<and> (b \<longrightarrow> items_counted run once))"
proof (rule runs_weaken [OF deployment.runs_idempotency [OF deployed stable_ordered, where p = b]])
  show "count_orders (demo_order_uid run) (tables w) = 1" if "ordered run b w" b for w
    using that count_orders_ok [OF reached_ok, of "sys w" "demo_order_uid run"] unfolding ordered_def
    by (simp add: le_antisym)
qed (auto simp: ordered_def items_counted_def)

definition checked :: "string \<Rightarrow> bool \<Rightarrow> bool \<Rightarrow> 'w \<Rightarrow> bool" where
  "checked run b once w \<longleftrightarrow> ordered run b w \<and> (b \<longrightarrow> items_counted run once)"

definition delivered :: "string \<Rightarrow> bool \<Rightarrow> bool \<Rightarrow> bool \<Rightarrow> 'w \<Rightarrow> bool" where
  "delivered run b once sent w \<longleftrightarrow> checked run b once w \<and> (sent \<longrightarrow> notified run w)"

definition refused_or :: "string \<Rightarrow> bool \<Rightarrow> bool \<Rightarrow> bool \<Rightarrow> bool \<Rightarrow> 'w \<Rightarrow> bool" where
  "refused_or run b once sent refused w \<longleftrightarrow> (refused \<longrightarrow> delivered run b once sent w)
     \<and> (\<not> refused \<longrightarrow> (b \<longrightarrow> items_counted run once) \<and> (sent \<longrightarrow> same_amount run))"

lemma stable_steps:
  "deployment.stable moves (checked run b once)" "deployment.stable moves (delivered run b once sent)"
  "deployment.stable moves (refused_or run b once sent refused)"
  unfolding checked_def delivered_def refused_or_def
  by (intro stable_rules stable_ordered stable_notified stable_const)+

lemma payment_step: "runs (checked run b once) (step_payment_and_erp S run) (\<lambda>sent. delivered run b once sent)"
  unfolding delivered_def
proof (rule deployment.runs_payment [OF deployed stable_steps(1) stable_notified])
  show "notified run w" if "checked run b once w" "1 \<le> count_sent (demo_order_uid run) (tables w)" for w
    using that count_sent_message [of "demo_order_uid run" "tables w"]
    by (simp add: notified_def checked_def ordered_def)
qed

lemma immutability_step:
  "runs (delivered run b once sent) (step_immutability S run) (\<lambda>refused. refused_or run b once sent refused)"
  unfolding refused_or_def
proof (rule deployment.runs_immutability [OF deployed stable_steps(2)])
  fix w n d
  assume P: "delivered run b once sent w"
    and run: "update_orders (\<lambda>r. or_order_uid r = demo_order_uid run) (\<lambda>r. r\<lparr>or_total_amount := 10000\<rparr>) (tables w) = (Inr n, d)"
  have "same_amount run" if sent
  proof -
    from P that have reach: "reached (sys w)" and msg: "demo_order_uid run \<in> ob_aggregate_id ` set (outbox (tables w))"
      by (simp_all add: delivered_def notified_def)
    from update_refused [OF reached_ok [OF reach] msg run] reach show ?thesis unfolding same_amount_def by blast
  qed
  with P show "(b \<longrightarrow> items_counted run once) \<and> (sent \<longrightarrow> same_amount run)"
    unfolding delivered_def checked_def by blast
qed

lemma scd2_step:
  "runs (refused_or run b once sent refused) (step_scd2 S run)
     (\<lambda>kept w. refused_or run b once sent refused w \<and> (b \<and> refused \<longrightarrow> versions_counted run kept))"
proof (rule runs_weaken [OF deployment.runs_scd2 [OF deployed stable_steps(3), where p = "b \<and> refused"]])
  show "order_city (demo_order_uid run) (tables w2) = order_city (demo_order_uid run) (tables w1)"
    if "refused_or run b once sent refused w1" "b \<and> refused" "moves w1 w2" for w1 w2
  proof -
    from that(1,2) have "reached (sys w1)" "demo_order_uid run \<in> or_order_uid ` set (orders (tables w1))"
      by (simp_all add: refused_or_def delivered_def checked_def ordered_def)
    with moves_on [OF this(1) that(3)] show ?thesis by (intro order_city_kept(1) reached_ok)
  qed
qed (auto simp: versions_counted_def refused_or_def delivered_def checked_def ordered_def)

lemma demo_runs:
  "runs (\<lambda>w. reached (sys w)) (demo_main S run) (\<lambda>rs _. length rs = 5 \<and> (rs ! 0 \<longrightarrow> items_counted run (rs ! 1))
      \<and> (rs ! 2 \<and> \<not> rs ! 3 \<longrightarrow> same_amount run) \<and> (rs ! 0 \<and> rs ! 3 \<longrightarrow> versions_counted run (rs ! 4)))"
  unfolding demo_main_def
  by (rule runs_andthen, rule ingest_step, clarify, rule runs_andthen, rule idempotency_step [folded checked_def],
      rule runs_andthen, rule payment_step, rule runs_andthen, rule immutability_step, rule runs_andthen, rule scd2_step,
      rule runs_finish) (auto simp: refused_or_def delivered_def checked_def)

end

section \<open>The property\<close>


section \<open>A deployment that answers at once\<close>

text \<open>
  Posting processes the events one after the other; a pause lasts as long as asked, and a dispatch worker
  takes the first message that waits, sends it to the ERP and settles the answer.
\<close>

record answering =
  an_system :: "(string set \<times> bool) system"
  an_time :: rat
  an_uuids :: nat

definition demo_outside :: "demo_data outside" where
  "demo_outside = \<lparr>
     dec_client = (\<lambda>x. case x of DemoClient c \<Rightarrow> Some c | _ \<Rightarrow> None),
     dec_order = (\<lambda>x. case x of DemoOrder c \<Rightarrow> Some c | _ \<Rightarrow> None),
     dec_payment = (\<lambda>x. case x of DemoPayment c \<Rightarrow> Some c | _ \<Rightarrow> None),
     dec_invoice = (\<lambda>x. None), fingerprint = (\<lambda>e. ''f00d'')\<rparr>"

definition demo_processor :: "(demo_data, string set \<times> bool) processor" where
  "demo_processor = \<lparr>pr_registry = build_registry, pr_redis = key_store,
     pr_settings = default_settings, pr_outside = demo_outside\<rparr>"

definition ingest_one :: "demo_data envelope \<Rightarrow> (string set \<times> bool) system \<Rightarrow> (string set \<times> bool) system" where
  "ingest_one e y =
     (case process (worker_processor demo_processor) sample_clock CommitOk e (sy_db y, sy_redis y) of
        (res, d, r) \<Rightarrow> y\<lparr>sy_db := d, sy_redis := r\<rparr>)"

definition dispatch_one :: "(string set \<times> bool) system \<Rightarrow> (string set \<times> bool) system" where
  "dispatch_one y =
     (case claim_batch default_settings ''w1'' sample_dispatch_env (\<lambda>r. True) (sy_db y) of
        (Inl x, d) \<Rightarrow> y\<lparr>sy_db := d\<rparr>
      | (Inr items, d) \<Rightarrow>
          let y1 = y\<lparr>sy_db := d, sy_items := sy_items y @ items\<rparr> in
          (case items of
             [] \<Rightarrow> y1
           | i # _ \<Rightarrow>
               (case receive_order default_settings json_str (sample_draw 1 ''ab12cd34ef'') (idempotency_key i) (ox_payload i) (sy_erp y1) of
                  (a, e) \<Rightarrow>
                    let y2 = y1\<lparr>sy_erp := e, sy_answers := sy_answers y1 @ [(i, http_of False a)]\<rparr> in
                    (case dispatch default_settings json_str sample_dispatch_env (http_of False a) i (sy_db y2) of
                       (res, d2) \<Rightarrow> y2\<lparr>sy_db := d2, sy_answers := remove1 (i, http_of False a) (sy_answers y2)\<rparr>))))"

definition demo_hex :: "nat \<Rightarrow> string" where
  "demo_hex n = replicate 31 (CHR ''0'') @ int_str (int n)"

definition answering_stage :: "answering stage" where
  "answering_stage = \<lparr>
     sg_post = (\<lambda>es w. (Inr (), w\<lparr>an_system := fold ingest_one es (an_system w)\<rparr>)),
     sg_sql = (\<lambda>w. (Inr (sy_db (an_system w)), w)),
     sg_begin = (\<lambda>m w. case m (sy_db (an_system w)) of
        (Inl x, d) \<Rightarrow> (Inl x, w)
      | (Inr n, d) \<Rightarrow> (Inr n, w\<lparr>an_system := (an_system w)\<lparr>sy_db := d\<rparr>\<rparr>)),
     sg_erp_orders = (\<lambda>w. (Inr (), w)),
     sg_time = an_time,
     sg_sleep = (\<lambda>t w. w\<lparr>an_time := an_time w + t, an_system := dispatch_one (an_system w)\<rparr>),
     sg_now = (\<lambda>w. at_utc 900),
     sg_uuid = (\<lambda>w. (demo_hex (an_uuids w), w\<lparr>an_uuids := an_uuids w + 1\<rparr>))\<rparr>"

abbreviation demo_step :: "(string set \<times> bool) system \<Rightarrow> (string set \<times> bool) system \<Rightarrow> bool" where
  "demo_step \<equiv> system_step default_settings demo_processor json_str"

lemma ingest_one_step: "demo_step y (ingest_one e y)"
  by (cases "process (worker_processor demo_processor) sample_clock CommitOk e (sy_db y, sy_redis y)")
    (auto simp: ingest_one_def intro: system_step.ingest)

lemma fold_ingest_steps: "demo_step\<^sup>*\<^sup>* y (fold ingest_one es y)"
proof (induction es arbitrary: y)
  case (Cons e es)
  from ingest_one_step [of y e] Cons [of "ingest_one e y"] show ?case
    by (simp add: converse_rtranclp_into_rtranclp)
qed simp

lemma dispatch_one_steps: "demo_step\<^sup>*\<^sup>* y (dispatch_one y)"
proof -
  let ?step = "dispatch_step default_settings json_str"
  obtain r d where claim: "claim_batch default_settings ''w1'' sample_dispatch_env (\<lambda>r. True) (sy_db y) = (r, d)"
    by (cases "claim_batch default_settings ''w1'' sample_dispatch_env (\<lambda>r. True) (sy_db y)")
  have "?step\<^sup>*\<^sup>* y (dispatch_one y)"
  proof (cases r)
    case (Inl x)
    have "?step y (y\<lparr>sy_db := d\<rparr>)" by (rule dispatch_step.claim_failed [OF claim [unfolded Inl]])
    moreover have "dispatch_one y = y\<lparr>sy_db := d\<rparr>" using claim Inl by (simp add: dispatch_one_def)
    ultimately show ?thesis by (simp add: r_into_rtranclp)
  next
    case (Inr items)
    let ?y1 = "y\<lparr>sy_db := d, sy_items := sy_items y @ items\<rparr>"
    have one: "?step y ?y1" by (rule dispatch_step.claim [OF claim [unfolded Inr]])
    show ?thesis
    proof (cases items)
      case Nil
      with claim Inr have "dispatch_one y = ?y1" by (simp add: dispatch_one_def)
      with one show ?thesis by (simp add: r_into_rtranclp)
    next
      case (Cons i rest)
      obtain a e where ans: "receive_order default_settings json_str (sample_draw 1 ''ab12cd34ef'') (idempotency_key i)
          (ox_payload i) (sy_erp ?y1) = (a, e)"
        by (cases "receive_order default_settings json_str (sample_draw 1 ''ab12cd34ef'') (idempotency_key i)
          (ox_payload i) (sy_erp ?y1)")
      let ?y2 = "?y1\<lparr>sy_erp := e, sy_answers := sy_answers ?y1 @ [(i, http_of False a)]\<rparr>"
      have two: "?step ?y1 ?y2" by (rule dispatch_step.request [OF _ ans]) (simp add: Cons)
      obtain res d2 where settled: "dispatch default_settings json_str sample_dispatch_env (http_of False a) i (sy_db ?y2) = (res, d2)"
        by (cases "dispatch default_settings json_str sample_dispatch_env (http_of False a) i (sy_db ?y2)")
      let ?y3 = "?y2\<lparr>sy_db := d2, sy_answers := remove1 (i, http_of False a) (sy_answers ?y2)\<rparr>"
      have three: "?step ?y2 ?y3" by (rule dispatch_step.settle [OF _ settled]) simp
      have "dispatch_one y = ?y3" using claim Inr Cons ans settled by (simp add: dispatch_one_def Let_def)
      with one two three show ?thesis by (metis (no_types, lifting) converse_rtranclp_into_rtranclp rtranclp.rtrancl_refl)
    qed
  qed
  then show ?thesis by (rule dispatch_runs_system)
qed

abbreviation answering_moves :: "answering \<Rightarrow> answering \<Rightarrow> bool" where
  "answering_moves \<equiv> platform_moves default_settings demo_processor json_str an_system answering_stage"

lemma answering_law: "stage_law answering_moves (\<lambda>w. sy_db (an_system w)) answering_stage"
proof -
  have post: "answering_moves w (snd (sg_post answering_stage es w))" for es w
    using fold_ingest_steps [of "an_system w" es] by (simp add: platform_moves_def answering_stage_def)
  have still: "answering_moves w (snd (sg_erp_orders answering_stage w))" "answering_moves w (snd (sg_uuid answering_stage w))"
    "answering_moves w (snd (sg_sql answering_stage w))" for w
    by (simp_all add: platform_moves_def answering_stage_def)
  have shown: "d = sy_db (an_system (snd (sg_sql answering_stage w)))" if "fst (sg_sql answering_stage w) = Inr d" for w d
    using that by (simp add: answering_stage_def)
  have sleep: "answering_moves w (sg_sleep answering_stage t w)" if "0 \<le> t" for t w
    using that dispatch_one_steps [of "an_system w"] by (simp add: platform_moves_def answering_stage_def)
  have time: "sg_time answering_stage w + t \<le> sg_time answering_stage (sg_sleep answering_stage t w)" for w t
    by (simp add: answering_stage_def)
  have clock: "sg_time answering_stage w \<le> sg_time answering_stage w'" if "answering_moves w w'" for w w'
    using that by (simp add: platform_moves_def)
  have "ran_on (\<lambda>w. sy_db (an_system w)) m (sg_begin answering_stage m w) w" for m w
    by (cases "m (sy_db (an_system w))") (auto simp: ran_on_def answering_stage_def split: sum.split)
  then have transaction: "\<exists>w1. answering_moves w w1 \<and> ran_on (\<lambda>w. sy_db (an_system w)) m (sg_begin answering_stage m w) w1" for m w
    by (intro exI [of _ w]) (simp add: platform_moves_def)
  show ?thesis
    unfolding stage_law_def by (intro conjI allI impI post still shown sleep time transaction) (simp_all add: clock)
qed

interpretation answering: deployment answering_stage answering_moves "\<lambda>w. sy_db (an_system w)"
  by unfold_locales (rule answering_law)

interpretation answering_platform: platform answering_stage an_system default_settings demo_processor json_str first_state
  by unfold_locales (rule answering_law, simp add: start_system_def first_state_def)

text \<open>Over this deployment every check passes: the events of a run, and the platform after each step.\<close>

definition demo_envelope :: "nat \<Rightarrow> event_type \<Rightarrow> demo_data \<Rightarrow> demo_data envelope" where
  "demo_envelope n t x = \<lparr>ev_event_id = ''evt-'' @ demo_hex n, ev_event_type = t, ev_occurred_at = at_utc 900,
     ev_partner = partner, ev_data = x\<rparr>"

definition demo_run :: string where "demo_run = ''1a2b3c4d''"

definition after_client :: "(string set \<times> bool) system" where
  "after_client = ingest_one (demo_envelope 0 CLIENT_UPSERTED (DemoClient (demo_client demo_run (first_home demo_run)))) first_state"

definition demo_order_event :: "nat \<Rightarrow> demo_data envelope" where
  "demo_order_event n = demo_envelope n ORDER_CREATED (DemoOrder (demo_order demo_run (at_utc 900)))"

definition after_order :: "(string set \<times> bool) system" where
  "after_order = ingest_one (demo_order_event 1) after_client"

definition after_repeats :: "(string set \<times> bool) system" where
  "after_repeats = dispatch_one (ingest_one (demo_order_event 2) (fold ingest_one (replicate 3 (demo_order_event 1)) after_order))"

definition after_payment :: "(string set \<times> bool) system" where
  "after_payment = fold ingest_one
     (replicate 2 (demo_envelope 3 PAYMENT_UPDATED (DemoPayment (demo_payment demo_run (at_utc 900))))) after_repeats"

definition after_delivery :: "(string set \<times> bool) system" where
  "after_delivery = dispatch_one after_payment"

definition after_move :: "(string set \<times> bool) system" where
  "after_move = dispatch_one (ingest_one
     (demo_envelope 4 CLIENT_UPSERTED (DemoClient (demo_client demo_run (second_home demo_run)))) after_delivery)"

definition snapshot :: "(string set \<times> bool) system \<Rightarrow> nat list \<times> string option" where
  "snapshot y = ([count_clients (demo_client_uid demo_run) (sy_db y), count_orders (demo_order_uid demo_run) (sy_db y),
     count_items (demo_order_uid demo_run) (sy_db y), count_approved (demo_order_uid demo_run) (sy_db y),
     count_sent (demo_order_uid demo_run) (sy_db y), count_versions (demo_address_uid demo_run) (sy_db y)],
     order_city (demo_order_uid demo_run) (sy_db y))"

lemma snapshots:
  "snapshot after_client = ([1, 0, 0, 0, 0, 1], None)"
  "snapshot after_order = ([1, 1, 2, 0, 0, 1], Some ''Joinville'')"
  "snapshot after_repeats = ([1, 1, 2, 0, 0, 1], Some ''Joinville'')"
  "snapshot after_payment = ([1, 1, 2, 1, 0, 1], Some ''Joinville'')"
  by code_simp+

lemma snapshots_2:
  "(snapshot after_delivery, map or_total_amount (orders (sy_db after_delivery)))
    = (([1, 1, 2, 1, 1, 1], Some ''Joinville''), [10897000])"
  by code_simp

lemma snapshots_3:
  "snapshot after_move = ([1, 1, 2, 1, 1, 2], Some ''Joinville'')"
  by code_simp

lemma update_after_delivery:
  "\<exists>x d. update_orders (\<lambda>r. or_order_uid r = demo_order_uid demo_run) (\<lambda>r. r\<lparr>or_total_amount := 10000\<rparr>)
     (sy_db after_delivery) = (Inl x, d)"
proof -
  let ?m = "update_orders (\<lambda>r. or_order_uid r = demo_order_uid demo_run) (\<lambda>r. r\<lparr>or_total_amount := 10000\<rparr>) (sy_db after_delivery)"
  have steps: "demo_step\<^sup>*\<^sup>* y (ingest_one e y)" for y e using ingest_one_step by (rule r_into_rtranclp)
  have "demo_step\<^sup>*\<^sup>* first_state after_delivery"
    unfolding after_delivery_def after_payment_def after_repeats_def after_order_def after_client_def
    by (rule rtranclp_trans [OF _ dispatch_one_steps], rule rtranclp_trans [OF _ fold_ingest_steps],
        rule rtranclp_trans [OF _ dispatch_one_steps], rule rtranclp_trans [OF _ steps],
        rule rtranclp_trans [OF _ fold_ingest_steps], rule rtranclp_trans [OF _ steps], rule steps)
  then have ok: "db_ok (sy_db after_delivery)"
    by (intro answering_platform.reached_ok) (simp add: answering_platform.reached_def)
  have sent: "demo_order_uid demo_run \<in> ob_aggregate_id ` set (outbox (sy_db after_delivery))"
    using snapshots_2 by (intro count_sent_message) (simp add: snapshot_def)
  have total: "\<forall>o1 \<in> set (orders (sy_db after_delivery)). or_total_amount o1 = 10897000"
  proof -
    have "set (map or_total_amount (orders (sy_db after_delivery))) = {10897000}" using snapshots_2 by simp
    then show ?thesis by auto
  qed
  obtain r d where run: "?m = (r, d)" by (cases ?m)
  show ?thesis
  proof (cases r)
    case (Inr n)
    with update_refused [OF ok sent, of n d] run total show ?thesis by fastforce
  qed (use run in blast)
qed

abbreviation at_stage :: "(string set \<times> bool) system \<Rightarrow> rat \<Rightarrow> nat \<Rightarrow> answering" where
  "at_stage y t n \<equiv> \<lparr>an_system = y, an_time = t, an_uuids = n\<rparr>"

lemma stage_runs:
  "post_events answering_stage es (at_stage y t n) = Some (Inr (), at_stage (fold ingest_one es y) t n)"
  "ask answering_stage q (at_stage y t n) = Some (Inr (q (sy_db y)), at_stage y t n)"
  "pause answering_stage u (at_stage y t n) = Some (Inr (), at_stage (dispatch_one y) (t + u) n)"
  "now_text answering_stage (at_stage y t n) = Some (Inr (at_utc 900), at_stage y t n)"
  "fresh_uuid answering_stage (at_stage y t n) = Some (Inr (demo_hex n), at_stage y t (n + 1))"
  "demo_event answering_stage ty x None (at_stage y t n) = Some (Inr (demo_envelope n ty x), at_stage y t (n + 1))"
  by (simp_all add: post_events_def ask_def pause_def now_text_def fresh_uuid_def demo_event_def answering_stage_def
      andthen_def finish_def demo_envelope_def)

lemma stage_waits:
  assumes "0 < u"
  shows "1 \<le> q (sy_db y) \<Longrightarrow> wait answering_stage q 1 u (at_stage y t n) = Some (Inr True, at_stage y t n)"
    and "1 / 2 < u \<Longrightarrow> q (sy_db y) = 0 \<Longrightarrow> 1 \<le> q (sy_db (dispatch_one y)) \<Longrightarrow>
      wait answering_stage q 1 u (at_stage y t n) = Some (Inr True, at_stage (dispatch_one y) (t + 1 / 2) n)"
proof -
  have poll: "wait_until answering_stage q 1 d (at_stage y t n) =
      (if t < d then if 1 \<le> q (sy_db y) then Some (Inr True, at_stage y t n)
        else wait_until answering_stage q 1 d (at_stage (dispatch_one y) (t + 1 / 2) n)
       else Some (Inr False, at_stage y t n))" for y t d
    by (subst wait_until.simps) (simp add: answering_stage_def)
  have time: "sg_time answering_stage (at_stage y t n) = t" by (simp add: answering_stage_def)
  show "wait answering_stage q 1 u (at_stage y t n) = Some (Inr True, at_stage y t n)" if "1 \<le> q (sy_db y)"
    using that assms poll [of "t + u" y t] by (simp add: wait_def time)
  show "wait answering_stage q 1 u (at_stage y t n) = Some (Inr True, at_stage (dispatch_one y) (t + 1 / 2) n)"
    if "1 / 2 < u" "q (sy_db y) = 0" "1 \<le> q (sy_db (dispatch_one y))"
    using that assms poll [of "t + u" y t] poll [of "t + u" "dispatch_one y" "t + 1 / 2"] by (simp add: wait_def time)
qed

lemmas snapshot_values = snapshots [unfolded snapshot_def] snapshots_2 [unfolded snapshot_def prod.inject]
  snapshots_3 [unfolded snapshot_def]

lemma demo_steps:
  "step_ingest answering_stage demo_run (at_stage first_state 0 0) = Some (Inr (True, demo_order_event 1), at_stage after_order 0 2)"
  "step_idempotency answering_stage demo_run (demo_order_event 1) (at_stage after_order 0 2)
    = Some (Inr True, at_stage after_repeats 4 3)"
  "step_payment_and_erp answering_stage demo_run (at_stage after_repeats 4 3) = Some (Inr True, at_stage after_delivery (9 / 2) 4)"
  "step_immutability answering_stage demo_run (at_stage after_delivery (9 / 2) 4) = Some (Inr True, at_stage after_delivery (9 / 2) 4)"
  "step_scd2 answering_stage demo_run (at_stage after_delivery (9 / 2) 4) = Some (Inr True, at_stage after_move (17 / 2) 5)"
proof -
  show "step_ingest answering_stage demo_run (at_stage first_state 0 0) = Some (Inr (True, demo_order_event 1), at_stage after_order 0 2)"
    using snapshot_values(1,2)
    by (simp add: step_ingest_def andthen_def finish_def stage_runs stage_waits [unfolded One_nat_def] after_client_def [symmetric]
        demo_order_event_def [symmetric] after_order_def [unfolded One_nat_def, symmetric] numeral_2_eq_2)
  show "step_idempotency answering_stage demo_run (demo_order_event 1) (at_stage after_order 0 2)
    = Some (Inr True, at_stage after_repeats 4 3)"
  proof -
    have "(demo_order_event 1)\<lparr>ev_event_id := ''evt-'' @ demo_hex 2\<rparr> = demo_order_event 2"
      by (simp add: demo_order_event_def demo_envelope_def)
    moreover have "dispatch_one (ingest_one (demo_order_event 2) (ingest_one (demo_order_event 1)
        (ingest_one (demo_order_event 1) (ingest_one (demo_order_event 1) after_order)))) = after_repeats"
      by (simp add: after_repeats_def numeral_3_eq_3)
    ultimately show ?thesis
      using snapshot_values(3) by (simp add: step_idempotency_def andthen_def finish_def stage_runs)
  qed
  show "step_payment_and_erp answering_stage demo_run (at_stage after_repeats 4 3) = Some (Inr True, at_stage after_delivery (9 / 2) 4)"
  proof -
    have "ingest_one (demo_envelope 3 PAYMENT_UPDATED (DemoPayment (demo_payment demo_run (at_utc 900))))
        (ingest_one (demo_envelope 3 PAYMENT_UPDATED (DemoPayment (demo_payment demo_run (at_utc 900)))) after_repeats)
        = after_payment"
      by (simp add: after_payment_def numeral_2_eq_2)
    moreover have "sg_erp_orders answering_stage w = (Inr (), w)" for w by (simp add: answering_stage_def)
    ultimately show ?thesis
      using snapshot_values(4,5)
      by (simp add: step_payment_and_erp_def andthen_def finish_def stage_runs stage_waits [unfolded One_nat_def] after_delivery_def [symmetric])
  qed
  show "step_immutability answering_stage demo_run (at_stage after_delivery (9 / 2) 4) = Some (Inr True, at_stage after_delivery (9 / 2) 4)"
    using update_after_delivery by (auto simp: step_immutability_def answering_stage_def)
  show "step_scd2 answering_stage demo_run (at_stage after_delivery (9 / 2) 4) = Some (Inr True, at_stage after_move (17 / 2) 5)"
    using snapshot_values(5,6)
    by (simp add: step_scd2_def andthen_def finish_def stage_runs after_move_def [symmetric])
qed

lemma demo_passes:
  "demo_main answering_stage demo_run (at_stage first_state 0 0)
    = Some (Inr [True, True, True, True, True], at_stage after_move (17 / 2) 5)"
  by (simp add: demo_main_def andthen_def finish_def demo_steps [unfolded One_nat_def])


end
