(* ===== verification/Logging.thy ===== *)
theory Logging
  imports Streams
begin

text \<open>
  src/shared/logging.py: the fields of a log line and the set-up of the loggers. A record's attributes
  are the dict \<open>lg_dict\<close>; what the logging library makes of its message and its traceback, and the
  clock, are arguments. The line is the JSON object before \<open>json.dumps\<close> writes it.
\<close>

section \<open>The formatter\<close>

record log_record =
  lg_levelname :: string
  lg_name :: string
  lg_message :: string
  lg_exception :: "string option"
  lg_dict :: "(string \<times> json) list"

definition standard_record_fields :: "string list" where
  "standard_record_fields =
     [''name'', ''msg'', ''args'', ''levelname'', ''levelno'', ''pathname'', ''filename'', ''module'',
      ''exc_info'', ''exc_text'', ''stack_info'', ''lineno'', ''funcName'', ''created'', ''msecs'',
      ''relativeCreated'', ''thread'', ''threadName'', ''processName'', ''process'', ''taskName'',
      ''message'', ''asctime'']"

definition custom_fields :: "log_record \<Rightarrow> (string \<times> json) list" where
  "custom_fields r = filter (\<lambda>(key, val). key \<notin> set standard_record_fields) (lg_dict r)"

definition log_payload :: "ts \<Rightarrow> log_record \<Rightarrow> (string \<times> json) list" where
  "log_payload clock r =
     (let payload = dict_of ([(''ts'', JTime clock), (''level'', JStr (lg_levelname r)),
                              (''logger'', JStr (lg_name r)), (''message'', JStr (lg_message r))]
                             @ custom_fields r) in
      case lg_exception r of
        None \<Rightarrow> payload
      | Some text \<Rightarrow> AList.update ''exception'' (JStr text) payload)"

section \<open>The set-up\<close>

text \<open>
  The loggers of the process: the handlers and the level of the root and the levels set by name.
  \<open>setLevel\<close> raises for a name the library does not know.
\<close>

datatype log_handler = StdoutJson | OtherHandler string

record loggers =
  root_handlers :: "log_handler list"
  root_level :: int
  level_of :: "string \<Rightarrow> int option"

definition WARNING_LEVEL :: int where "WARNING_LEVEL = 30"

definition name_to_level :: "string \<Rightarrow> int option" where
  "name_to_level = map_of
     [(''CRITICAL'', 50), (''FATAL'', 50), (''ERROR'', 40), (''WARN'', WARNING_LEVEL),
      (''WARNING'', WARNING_LEVEL), (''INFO'', 20), (''DEBUG'', 10), (''NOTSET'', 0)]"

definition noisy_loggers :: "string list" where
  "noisy_loggers = [''uvicorn.access'', ''sqlalchemy.engine'']"

definition configure_logging :: "string \<Rightarrow> loggers \<Rightarrow> (string + unit) \<times> loggers" where
  "configure_logging level l =
     (let l1 = l\<lparr>root_handlers := []\<rparr>;
          l2 = l1\<lparr>root_handlers := root_handlers l1 @ [StdoutJson]\<rparr> in
      case name_to_level (str_upper level) of
        None \<Rightarrow> (Inl (''Unknown level: '' @ str_upper level), l2)
      | Some n \<Rightarrow>
          (Inr (), foldl (\<lambda>l name. l\<lparr>level_of := (level_of l)(name \<mapsto> WARNING_LEVEL)\<rparr>)
                     (l2\<lparr>root_level := n\<rparr>) noisy_loggers))"

section \<open>What a line holds\<close>

lemma map_of_custom_fields:
  "map_of (custom_fields r) k = (if k \<in> set standard_record_fields then None else map_of (lg_dict r) k)"
proof -
  have "map_of (filter (\<lambda>(key, val). key \<notin> S) kvs) k = (if k \<in> S then None else map_of kvs k)"
    for S and kvs :: "(string \<times> json) list"
    by (induction kvs) auto
  then show ?thesis unfolding custom_fields_def .
qed

lemma custom_fields_distinct:
  assumes "distinct (map fst (lg_dict r))"
  shows "distinct (map fst (custom_fields r))"
  unfolding custom_fields_def by (rule distinct_map_filter [OF assms])

text \<open>
  Every attribute a caller passes as \<open>extra\<close> is in the line under its own name, with its value; only
  the traceback overrides one, and the attributes of the library itself are left out.
\<close>

lemma log_payload_carries_extra:
  assumes "distinct (map fst (lg_dict r))" and "map_of (lg_dict r) k = Some v"
    and "k \<notin> set standard_record_fields" and "k = ''exception'' \<longrightarrow> lg_exception r = None"
  shows "map_of (log_payload clock r) k = Some v"
proof -
  have "map_of (rev (custom_fields r)) k = Some v"
    using assms(2,3) custom_fields_distinct [OF assms(1)] map_of_custom_fields [of r k]
    by (simp add: map_of_eq_Some_iff rev_map [symmetric])
  then show ?thesis
    using assms(4)
    by (auto simp: log_payload_def Let_def map_of_dict_of update_conv' map_add_def split: option.split)
qed

text \<open>
  The message is always the record's own, as no extra can be named so. The time, the level and the
  logger are, unless an extra of that name replaces them.
\<close>

lemma log_payload_message: "map_of (log_payload clock r) ''message'' = Some (JStr (lg_message r))"
proof -
  have "''message'' \<in> set standard_record_fields" by (simp add: standard_record_fields_def)
  then have "''message'' \<notin> fst ` set (rev (custom_fields r))"
    by (auto simp: custom_fields_def)
  then have "map_of (rev (custom_fields r)) ''message'' = None" by (simp only: map_of_eq_None_iff) simp
  then show ?thesis
    by (simp add: log_payload_def Let_def map_of_dict_of update_conv' map_add_def split: option.split)
qed

lemma log_payload_level:
  assumes "\<forall>v. (''level'', v) \<notin> set (lg_dict r)"
  shows "map_of (log_payload clock r) ''level'' = Some (JStr (lg_levelname r))"
proof -
  have "''level'' \<notin> fst ` set (rev (custom_fields r))"
    using assms by (auto simp: custom_fields_def)
  then have "map_of (rev (custom_fields r)) ''level'' = None" by (simp only: map_of_eq_None_iff) simp
  then show ?thesis
    by (simp add: log_payload_def Let_def map_of_dict_of update_conv' map_add_def split: option.split)
qed

lemma log_payload_traceback:
  "lg_exception r = Some text \<Longrightarrow> map_of (log_payload clock r) ''exception'' = Some (JStr text)"
  by (simp add: log_payload_def Let_def update_conv')

section \<open>What the set-up leaves\<close>

text \<open>
  However often a process configures its loggers, one handler is left, so that no line is printed
  twice; the level is the configured one in any case of letters, and the noisy loggers are quietened.
\<close>

lemma configure_logging_ok:
  assumes "name_to_level (str_upper level) = Some n"
  shows "configure_logging level l =
    (Inr (), l\<lparr>root_handlers := [StdoutJson], root_level := n,
               level_of := (level_of l)(''uvicorn.access'' \<mapsto> WARNING_LEVEL, ''sqlalchemy.engine'' \<mapsto> WARNING_LEVEL)\<rparr>)"
  using assms by (simp add: configure_logging_def noisy_loggers_def)

lemma configure_logging_unknown:
  assumes "name_to_level (str_upper level) = None"
  shows "configure_logging level l =
    (Inl (''Unknown level: '' @ str_upper level), l\<lparr>root_handlers := [StdoutJson]\<rparr>)"
  using assms by (simp add: configure_logging_def)

lemma configure_logging_one_handler: "root_handlers (snd (configure_logging level l)) = [StdoutJson]"
  by (cases "name_to_level (str_upper level)") (simp_all add: configure_logging_ok configure_logging_unknown)

lemma configure_logging_again:
  assumes "configure_logging level l = (Inr (), l')"
  shows "configure_logging level l' = (Inr (), l')"
proof (cases "name_to_level (str_upper level)")
  case None
  then show ?thesis using assms by (simp add: configure_logging_unknown)
next
  case (Some n)
  then show ?thesis
    using assms configure_logging_ok [OF Some, of l] configure_logging_ok [OF Some, of l']
    by (auto simp: fun_eq_iff)
qed

end
