(* ===== verification/Catalog.thy ===== *)
theory Catalog
  imports Schema
begin

text \<open>
  The database as a catalogue of tables, indexes and triggers: what the statements of
  migrations/versions do to it, and what src/shared/db/models.py declares. The meaning of a DDL
  statement is SQL Server's: names of tables, triggers and constraints are one namespace, a foreign
  key needs the key it refers to, a table that others refer to cannot be dropped, and the indexes and
  triggers of a dropped table go with it.
\<close>

section \<open>Tables, indexes and triggers\<close>

datatype col_type =
    Col_BigInteger | Col_Integer | Col_Boolean | Col_DateTime | Col_Date
  | Col_String nat | Col_Char nat | Col_Unicode "nat option" | Col_Numeric nat nat | Col_DateTime2 nat

datatype col_default = Default_Now | Default_Text string

record col_def =
  cd_name :: string
  cd_type :: col_type
  cd_nullable :: bool
  cd_identity :: bool
  cd_default :: "col_default option"

datatype check = Check_In string "string list" | Check_Not_Negative string

datatype constr =
    Primary_Key string
  | Unique_Key "string list" string
  | Foreign_Key string string string string
  | Check_Constraint check string
  | Named_Default string string

record table_def =
  td_name :: string
  td_columns :: "col_def list"
  td_constraints :: "constr list"

datatype index_kind = Plain_Index | Unique_Index | Columnstore

datatype filter_def = Filter_True string | Filter_In string "string list"

record index_def =
  ix_name :: string
  ix_table :: string
  ix_columns :: "string list"
  ix_kind :: index_kind
  ix_where :: "filter_def option"

record catalog =
  ca_tables :: "table_def list"
  ca_indexes :: "index_def list"
  ca_triggers :: "(string \<times> string) list"

definition empty_catalog :: catalog where
  "empty_catalog = \<lparr>ca_tables = [], ca_indexes = [], ca_triggers = []\<rparr>"

fun constr_name :: "constr \<Rightarrow> string list" where
  "constr_name (Primary_Key cols) = []"
| "constr_name (Unique_Key cols n) = [n]"
| "constr_name (Foreign_Key col t ref n) = [n]"
| "constr_name (Check_Constraint c n) = [n]"
| "constr_name (Named_Default col n) = [n]"

definition table_objects :: "table_def \<Rightarrow> string list" where
  "table_objects t = td_name t # concat (map constr_name (td_constraints t))"

definition objects :: "catalog \<Rightarrow> string list" where
  "objects c = concat (map table_objects (ca_tables c)) @ map fst (ca_triggers c)"

fun single_key :: "constr \<Rightarrow> string list" where
  "single_key (Primary_Key col) = [col]"
| "single_key (Unique_Key [col] n) = [col]"
| "single_key (Unique_Key cols n) = []"
| "single_key (Foreign_Key col t ref n) = []"
| "single_key (Check_Constraint c n) = []"
| "single_key (Named_Default col n) = []"

definition has_key :: "table_def list \<Rightarrow> string \<Rightarrow> string \<Rightarrow> bool" where
  "has_key ts t col \<longleftrightarrow>
     (\<exists>td \<in> set ts. td_name td = t \<and> col \<in> set (concat (map single_key (td_constraints td))))"

definition references :: "table_def \<Rightarrow> (string \<times> string) list" where
  "references t = concat (map (\<lambda>k. case k of Foreign_Key col u ref n \<Rightarrow> [(u, ref)] | _ \<Rightarrow> []) (td_constraints t))"

section \<open>Statements\<close>

datatype ddl =
    Create_Table table_def
  | Create_Index index_def
  | Create_Trigger string string
  | Drop_Table string
  | Drop_Table_If_Exists string
  | Drop_Trigger_If_Exists string

datatype ddl_error =
    Already_There string
  | No_Such_Key string string
  | No_Such_Table string
  | Still_Referenced string

definition has_table :: "catalog \<Rightarrow> string \<Rightarrow> bool" where
  "has_table c n \<longleftrightarrow> n \<in> td_name ` set (ca_tables c)"

definition table_referenced :: "catalog \<Rightarrow> string \<Rightarrow> bool" where
  "table_referenced c n \<longleftrightarrow>
     (\<exists>t \<in> set (ca_tables c). td_name t \<noteq> n \<and> n \<in> fst ` set (references t))"

definition without_table :: "string \<Rightarrow> catalog \<Rightarrow> catalog" where
  "without_table n c = \<lparr>ca_tables = filter (\<lambda>t. td_name t \<noteq> n) (ca_tables c),
     ca_indexes = filter (\<lambda>i. ix_table i \<noteq> n) (ca_indexes c),
     ca_triggers = filter (\<lambda>g. snd g \<noteq> n) (ca_triggers c)\<rparr>"

definition drop_table :: "string \<Rightarrow> catalog \<Rightarrow> ddl_error + catalog" where
  "drop_table n c = (if table_referenced c n then Inl (Still_Referenced n) else Inr (without_table n c))"

fun apply_ddl :: "ddl \<Rightarrow> catalog \<Rightarrow> ddl_error + catalog" where
  "apply_ddl (Create_Table t) c =
     (if \<not> distinct (table_objects t) \<or> set (table_objects t) \<inter> set (objects c) \<noteq> {}
      then Inl (Already_There (td_name t))
      else case find (\<lambda>(u, ref). \<not> has_key (ca_tables c @ [t]) u ref) (references t) of
             Some (u, ref) \<Rightarrow> Inl (No_Such_Key u ref)
           | None \<Rightarrow> Inr (c\<lparr>ca_tables := ca_tables c @ [t]\<rparr>))"
| "apply_ddl (Create_Index i) c =
     (if \<not> has_table c (ix_table i) then Inl (No_Such_Table (ix_table i))
      else if (ix_table i, ix_name i) \<in> (\<lambda>j. (ix_table j, ix_name j)) ` set (ca_indexes c)
      then Inl (Already_There (ix_name i))
      else Inr (c\<lparr>ca_indexes := ca_indexes c @ [i]\<rparr>))"
| "apply_ddl (Create_Trigger n t) c =
     (if \<not> has_table c t then Inl (No_Such_Table t)
      else if n \<in> set (objects c) then Inl (Already_There n)
      else Inr (c\<lparr>ca_triggers := ca_triggers c @ [(n, t)]\<rparr>))"
| "apply_ddl (Drop_Table n) c = (if has_table c n then drop_table n c else Inl (No_Such_Table n))"
| "apply_ddl (Drop_Table_If_Exists n) c = (if has_table c n then drop_table n c else Inr c)"
| "apply_ddl (Drop_Trigger_If_Exists n) c = Inr (c\<lparr>ca_triggers := filter (\<lambda>g. fst g \<noteq> n) (ca_triggers c)\<rparr>)"

primrec run_ddl :: "ddl list \<Rightarrow> catalog \<Rightarrow> ddl_error + catalog" where
  "run_ddl [] c = Inr c"
| "run_ddl (op # ops) c = (case apply_ddl op c of Inl e \<Rightarrow> Inl e | Inr d \<Rightarrow> run_ddl ops d)"

lemma run_ddl_append:
  "run_ddl (xs @ ys) c = (case run_ddl xs c of Inl e \<Rightarrow> Inl e | Inr d \<Rightarrow> run_ddl ys d)"
  by (induction xs arbitrary: c) (auto split: sum.splits)

section \<open>A frame rule\<close>

text \<open>
  What a statement does to a catalogue it does beside any other one: statements that name none of
  the objects of a well-formed catalogue leave it where it is.
\<close>

definition beside :: "catalog \<Rightarrow> catalog \<Rightarrow> catalog" where
  "beside c k = \<lparr>ca_tables = ca_tables c @ ca_tables k, ca_indexes = ca_indexes c @ ca_indexes k,
     ca_triggers = ca_triggers c @ ca_triggers k\<rparr>"

definition closed_catalog :: "catalog \<Rightarrow> bool" where
  "closed_catalog c \<longleftrightarrow>
     (\<forall>t \<in> set (ca_tables c). \<forall>(u, ref) \<in> set (references t). has_table c u)
     \<and> (\<forall>i \<in> set (ca_indexes c). has_table c (ix_table i))
     \<and> (\<forall>(n, t) \<in> set (ca_triggers c). has_table c t)"

fun names_of_ddl :: "ddl \<Rightarrow> string set" where
  "names_of_ddl (Create_Table t) = set (table_objects t)"
| "names_of_ddl (Create_Index i) = {ix_table i}"
| "names_of_ddl (Create_Trigger n t) = {n, t}"
| "names_of_ddl (Drop_Table n) = {n}"
| "names_of_ddl (Drop_Table_If_Exists n) = {n}"
| "names_of_ddl (Drop_Trigger_If_Exists n) = {n}"

lemma beside_empty [simp]: "beside c empty_catalog = c"
  by (simp add: beside_def empty_catalog_def)

lemma beside_simps [simp]:
  "ca_tables (beside c k) = ca_tables c @ ca_tables k"
  "ca_indexes (beside c k) = ca_indexes c @ ca_indexes k"
  "ca_triggers (beside c k) = ca_triggers c @ ca_triggers k"
  by (simp_all add: beside_def)

lemma objects_beside: "set (objects (beside c k)) = set (objects c) \<union> set (objects k)"
  by (auto simp: objects_def)

lemma has_table_beside [simp]: "has_table (beside c k) n \<longleftrightarrow> has_table c n \<or> has_table k n"
  by (auto simp: has_table_def)

lemma has_table_object: "has_table c n \<Longrightarrow> n \<in> set (objects c)"
  by (auto simp: has_table_def objects_def table_objects_def)

lemma trigger_object: "(n, t) \<in> set (ca_triggers c) \<Longrightarrow> n \<in> set (objects c)"
  by (force simp: objects_def)

lemma has_key_append: "has_key ts u ref \<Longrightarrow> has_key (us @ ts) u ref"
  by (auto simp: has_key_def)

lemma closed_references:
  "closed_catalog c \<Longrightarrow> t \<in> set (ca_tables c) \<Longrightarrow> (u, ref) \<in> set (references t) \<Longrightarrow> has_table c u"
  unfolding closed_catalog_def by blast

lemma drop_table_beside:
  assumes "closed_catalog c" and "n \<notin> set (objects c)" and "drop_table n k = Inr k'"
  shows "drop_table n (beside c k) = Inr (beside c k')"
proof -
  have none: "\<not> has_table c n" using assms(2) has_table_object by blast
  have "\<not> table_referenced k n" using assms(3) by (simp add: drop_table_def split: if_splits)
  moreover have "\<not> table_referenced c n"
    using none closed_references [OF assms(1)] by (auto simp: table_referenced_def)
  ultimately have "\<not> table_referenced (beside c k) n" by (auto simp: table_referenced_def)
  moreover have "without_table n (beside c k) = beside c (without_table n k)"
  proof -
    have "filter (\<lambda>t. td_name t \<noteq> n) (ca_tables c) = ca_tables c"
      using none by (auto simp: has_table_def intro: filter_True)
    moreover have "filter (\<lambda>i. ix_table i \<noteq> n) (ca_indexes c) = ca_indexes c"
      using none assms(1) by (auto simp: closed_catalog_def intro: filter_True)
    moreover have "filter (\<lambda>g. snd g \<noteq> n) (ca_triggers c) = ca_triggers c"
      using none assms(1) by (fastforce simp: closed_catalog_def intro: filter_True)
    ultimately show ?thesis by (simp add: without_table_def beside_def)
  qed
  ultimately show ?thesis using assms(3) by (auto simp: drop_table_def split: if_splits)
qed

lemma apply_ddl_beside:
  assumes "closed_catalog c" and "names_of_ddl op \<inter> set (objects c) = {}" and "apply_ddl op k = Inr k'"
  shows "apply_ddl op (beside c k) = Inr (beside c k')"
proof (cases op)
  case (Create_Table t)
  have new: "distinct (table_objects t)" "set (table_objects t) \<inter> set (objects k) = {}"
    and refs: "find (\<lambda>(u, ref). \<not> has_key (ca_tables k @ [t]) u ref) (references t) = None"
    and k': "k' = k\<lparr>ca_tables := ca_tables k @ [t]\<rparr>"
    using assms(3) by (auto simp: Create_Table split: if_splits option.splits prod.splits)
  have "find (\<lambda>(u, ref). \<not> has_key (ca_tables (beside c k) @ [t]) u ref) (references t) = None"
    using refs by (fastforce simp: find_None_iff dest: has_key_append)
  moreover have "set (table_objects t) \<inter> set (objects (beside c k)) = {}"
    using new(2) assms(2) by (auto simp: Create_Table objects_beside)
  moreover have "(beside c k)\<lparr>ca_tables := (ca_tables c @ ca_tables k) @ [t]\<rparr> = beside c k'"
    by (simp add: beside_def k')
  ultimately show ?thesis using new(1) by (simp add: Create_Table)
next
  case (Create_Index i)
  have here: "has_table k (ix_table i)"
    and new: "(ix_table i, ix_name i) \<notin> (\<lambda>j. (ix_table j, ix_name j)) ` set (ca_indexes k)"
    and k': "k' = k\<lparr>ca_indexes := ca_indexes k @ [i]\<rparr>"
    using assms(3) by (auto simp: Create_Index split: if_splits)
  have "\<not> has_table c (ix_table i)" using assms(2) has_table_object by (force simp: Create_Index)
  then have "(ix_table i, ix_name i) \<notin> (\<lambda>j. (ix_table j, ix_name j)) ` set (ca_indexes c)"
    using assms(1) by (auto simp: closed_catalog_def)
  moreover have "(beside c k)\<lparr>ca_indexes := (ca_indexes c @ ca_indexes k) @ [i]\<rparr> = beside c k'"
    by (simp add: beside_def k')
  ultimately show ?thesis using here new by (simp add: Create_Index image_Un)
next
  case (Create_Trigger n t)
  have "has_table k t" "n \<notin> set (objects k)" and k': "k' = k\<lparr>ca_triggers := ca_triggers k @ [(n, t)]\<rparr>"
    using assms(3) by (auto simp: Create_Trigger split: if_splits)
  moreover have "(beside c k)\<lparr>ca_triggers := (ca_triggers c @ ca_triggers k) @ [(n, t)]\<rparr> = beside c k'"
    by (simp add: beside_def k')
  ultimately show ?thesis using assms(2) by (simp add: Create_Trigger objects_beside)
next
  case (Drop_Table n)
  then show ?thesis
    using assms(2,3) drop_table_beside [OF assms(1)] by (auto split: if_splits)
next
  case (Drop_Table_If_Exists n)
  then show ?thesis
    using assms(2,3) drop_table_beside [OF assms(1)] has_table_object by (fastforce split: if_splits)
next
  case (Drop_Trigger_If_Exists n)
  have "filter (\<lambda>g. fst g \<noteq> n) (ca_triggers c) = ca_triggers c"
    using assms(2) trigger_object by (fastforce simp: Drop_Trigger_If_Exists intro: filter_True)
  then show ?thesis using assms(3) by (auto simp: Drop_Trigger_If_Exists beside_def)
qed

lemma run_ddl_beside:
  assumes "closed_catalog c" and "\<Union> (names_of_ddl ` set ops) \<inter> set (objects c) = {}" and "run_ddl ops k = Inr k'"
  shows "run_ddl ops (beside c k) = Inr (beside c k')"
  using assms(2,3)
proof (induction ops arbitrary: k)
  case (Cons op ops)
  obtain k1 where k1: "apply_ddl op k = Inr k1" "run_ddl ops k1 = Inr k'"
    using Cons.prems(2) by (auto split: sum.splits)
  have "apply_ddl op (beside c k) = Inr (beside c k1)"
    using Cons.prems(1) by (intro apply_ddl_beside [OF assms(1) _ k1(1)]) auto
  then show ?case using Cons.IH [OF _ k1(2)] Cons.prems(1) by auto
qed simp

end
