(* ===== verification/Migrations.thy ===== *)
theory Migrations
  imports Catalog
begin

text \<open>
  src/migrations: the statements of the three revisions, the chain they form, and what they make of a
  database. The names of the objects and the columns are the code's.
\<close>

section \<open>Columns as sa.Column declares them\<close>

definition required :: "string \<Rightarrow> col_type \<Rightarrow> col_def" where
  "required n t = \<lparr>cd_name = n, cd_type = t, cd_nullable = False, cd_identity = False, cd_default = None\<rparr>"

definition optional :: "string \<Rightarrow> col_type \<Rightarrow> col_def" where
  "optional n t = (required n t)\<lparr>cd_nullable := True\<rparr>"

definition identity_column :: "string \<Rightarrow> col_def" where
  "identity_column n = (required n Col_BigInteger)\<lparr>cd_identity := True\<rparr>"

definition with_default :: "col_default \<Rightarrow> col_def \<Rightarrow> col_def" where
  "with_default v c = c\<lparr>cd_default := Some v\<rparr>"

section \<open>0001: the tables of the platform\<close>

definition clients_table :: table_def where
  "clients_table = \<lparr>td_name = ''clients'',
     td_columns =
      [identity_column ''client_id'',
       required ''client_uid'' (Col_String 64),
       required ''full_name'' (Col_Unicode (Some 160)),
       required ''document'' (Col_String 14),
       required ''email'' (Col_String 160),
       with_default Default_Now (required ''created_at'' Col_DateTime),
       with_default Default_Now (required ''updated_at'' Col_DateTime)],
     td_constraints =
      [Primary_Key ''client_id'',
       Unique_Key [''client_uid''] ''uq_clients_client_uid'']\<rparr>"

definition address_table :: table_def where
  "address_table = \<lparr>td_name = ''address'',
     td_columns =
      [identity_column ''address_id'',
       required ''address_uid'' (Col_String 64),
       required ''client_id'' Col_BigInteger,
       required ''street'' (Col_Unicode (Some 160)),
       required ''number'' (Col_String 20),
       optional ''complement'' (Col_Unicode (Some 80)),
       required ''district'' (Col_Unicode (Some 80)),
       required ''city'' (Col_Unicode (Some 80)),
       required ''state'' (Col_String 2),
       required ''zip_code'' (Col_String 8),
       with_default Default_Now (required ''valid_from'' Col_DateTime),
       optional ''valid_to'' Col_DateTime,
       with_default (Default_Text ''1'') (required ''is_current'' Col_Boolean)],
     td_constraints =
      [Primary_Key ''address_id'',
       Foreign_Key ''client_id'' ''clients'' ''client_id'' ''fk_address_client'']\<rparr>"

definition orders_table :: table_def where
  "orders_table = \<lparr>td_name = ''orders'',
     td_columns =
      [identity_column ''order_id'',
       required ''order_uid'' (Col_String 64),
       required ''client_id'' Col_BigInteger,
       required ''shipping_address_id'' Col_BigInteger,
       required ''billing_address_id'' Col_BigInteger,
       with_default (Default_Text ''PENDING'') (required ''status'' (Col_String 16)),
       with_default (Default_Text ''BRL'') (required ''currency'' (Col_String 3)),
       required ''total_amount'' (Col_Numeric 19 4),
       required ''placed_at'' Col_DateTime,
       optional ''closed_at'' Col_DateTime,
       required ''source_event_id'' (Col_String 64),
       with_default Default_Now (required ''created_at'' Col_DateTime)],
     td_constraints =
      [Primary_Key ''order_id'',
       Unique_Key [''order_uid''] ''uq_orders_order_uid'',
       Foreign_Key ''client_id'' ''clients'' ''client_id'' ''fk_orders_client'',
       Foreign_Key ''shipping_address_id'' ''address'' ''address_id'' ''fk_orders_shipping_address'',
       Foreign_Key ''billing_address_id'' ''address'' ''address_id'' ''fk_orders_billing_address'',
       Check_Constraint (Check_In ''status'' [''PENDING'', ''APPROVED'', ''INVOICED'', ''CANCELLED'']) ''ck_orders_status'',
       Check_Constraint (Check_Not_Negative ''total_amount'') ''ck_orders_total_positive'']\<rparr>"

definition order_items_table :: table_def where
  "order_items_table = \<lparr>td_name = ''order_items'',
     td_columns =
      [identity_column ''order_item_id'',
       required ''order_id'' Col_BigInteger,
       required ''sku'' (Col_String 40),
       required ''description'' (Col_Unicode (Some 200)),
       required ''quantity'' Col_Integer,
       required ''unit_price'' (Col_Numeric 19 4),
       required ''line_total'' (Col_Numeric 19 4)],
     td_constraints =
      [Primary_Key ''order_item_id'',
       Foreign_Key ''order_id'' ''orders'' ''order_id'' ''fk_order_items_order'']\<rparr>"

definition payment_table :: table_def where
  "payment_table = \<lparr>td_name = ''payment'',
     td_columns =
      [identity_column ''payment_id'',
       required ''order_id'' Col_BigInteger,
       required ''provider'' (Col_String 40),
       required ''provider_tx_id'' (Col_String 80),
       required ''method'' (Col_String 16),
       required ''status'' (Col_String 16),
       required ''amount'' (Col_Numeric 19 4),
       optional ''authorized_at'' Col_DateTime,
       optional ''approved_at'' Col_DateTime,
       with_default Default_Now (required ''created_at'' Col_DateTime)],
     td_constraints =
      [Primary_Key ''payment_id'',
       Foreign_Key ''order_id'' ''orders'' ''order_id'' ''fk_payment_order'',
       Unique_Key [''provider'', ''provider_tx_id''] ''ux_payment_provider_tx'',
       Check_Constraint (Check_In ''method'' [''PIX'', ''CREDIT_CARD'', ''BOLETO'']) ''ck_payment_method'']\<rparr>"

definition invoices_table :: table_def where
  "invoices_table = \<lparr>td_name = ''invoices'',
     td_columns =
      [identity_column ''invoice_id'',
       required ''order_id'' Col_BigInteger,
       required ''invoice_number'' (Col_String 40),
       required ''series'' (Col_String 10),
       required ''access_key'' (Col_String 44),
       required ''issued_at'' Col_DateTime,
       required ''total_amount'' (Col_Numeric 19 4),
       with_default (Default_Text ''ISSUED'') (required ''status'' (Col_String 16)),
       with_default Default_Now (required ''created_at'' Col_DateTime)],
     td_constraints =
      [Primary_Key ''invoice_id'',
       Foreign_Key ''order_id'' ''orders'' ''order_id'' ''fk_invoices_order'',
       Unique_Key [''order_id''] ''ux_invoice_order'',
       Unique_Key [''invoice_number'', ''series''] ''ux_invoice_number_series'']\<rparr>"

definition processed_events_table :: table_def where
  "processed_events_table = \<lparr>td_name = ''processed_events'',
     td_columns =
      [required ''event_id'' (Col_String 64),
       required ''event_type'' (Col_String 40),
       required ''payload_hash'' (Col_String 64),
       with_default (Default_Text ''DONE'') (required ''status'' (Col_String 16)),
       with_default (Default_Text ''1'') (required ''attempt_count'' Col_Integer),
       with_default Default_Now (required ''processed_at'' Col_DateTime)],
     td_constraints =
      [Primary_Key ''event_id'']\<rparr>"

definition outbox_table :: table_def where
  "outbox_table = \<lparr>td_name = ''outbox'',
     td_columns =
      [identity_column ''outbox_id'',
       required ''aggregate_type'' (Col_String 40),
       required ''aggregate_id'' (Col_String 64),
       required ''event_type'' (Col_String 40),
       required ''payload'' (Col_Unicode None),
       with_default (Default_Text ''PENDING'') (required ''status'' (Col_String 16)),
       with_default (Default_Text ''0'') (required ''attempts'' Col_Integer),
       with_default Default_Now (required ''next_attempt_at'' Col_DateTime),
       optional ''locked_by'' (Col_String 64),
       optional ''locked_at'' Col_DateTime,
       optional ''last_error'' (Col_Unicode (Some 1000)),
       with_default Default_Now (required ''created_at'' Col_DateTime),
       optional ''sent_at'' Col_DateTime],
     td_constraints =
      [Primary_Key ''outbox_id'']\<rparr>"

definition plain_index :: "string \<Rightarrow> string \<Rightarrow> string list \<Rightarrow> index_def" where
  "plain_index n t cols = \<lparr>ix_name = n, ix_table = t, ix_columns = cols, ix_kind = Plain_Index, ix_where = None\<rparr>"

definition current_address_index :: index_def where
  "current_address_index = (plain_index ''ux_address_uid_current'' ''address'' [''address_uid''])
     \<lparr>ix_kind := Unique_Index, ix_where := Some (Filter_True ''is_current'')\<rparr>"

definition dispatchable_index :: index_def where
  "dispatchable_index = (plain_index ''ix_outbox_dispatchable'' ''outbox'' [''status'', ''next_attempt_at''])
     \<lparr>ix_where := Some (Filter_In ''status'' [''PENDING'', ''IN_FLIGHT''])\<rparr>"

definition upgrade_0001 :: "ddl list" where
  "upgrade_0001 =
     [Create_Table clients_table,
      Create_Index (plain_index ''ix_clients_client_uid'' ''clients'' [''client_uid'']),
      Create_Table address_table,
      Create_Index (plain_index ''ix_address_client'' ''address'' [''client_id'']),
      Create_Index current_address_index,
      Create_Table orders_table,
      Create_Index (plain_index ''ix_orders_order_uid'' ''orders'' [''order_uid'']),
      Create_Index (plain_index ''ix_orders_status'' ''orders'' [''status'']),
      Create_Table order_items_table,
      Create_Index (plain_index ''ix_order_items_order'' ''order_items'' [''order_id'']),
      Create_Table payment_table,
      Create_Index (plain_index ''ix_payment_order'' ''payment'' [''order_id'']),
      Create_Table invoices_table,
      Create_Table processed_events_table,
      Create_Table outbox_table,
      Create_Index dispatchable_index]"

definition downgrade_0001 :: "ddl list" where
  "downgrade_0001 = map Drop_Table
     [''outbox'', ''processed_events'', ''invoices'', ''payment'', ''order_items'', ''orders'', ''address'', ''clients'']"

section \<open>0002: the triggers\<close>

definition upgrade_0002 :: "ddl list" where
  "upgrade_0002 =
     [Create_Trigger ''TR_orders_block_retroactive_change'' ''orders'',
      Create_Trigger ''TR_order_items_block_retroactive_change'' ''order_items'']"

definition downgrade_0002 :: "ddl list" where
  "downgrade_0002 =
     [Drop_Trigger_If_Exists ''TR_order_items_block_retroactive_change'',
      Drop_Trigger_If_Exists ''TR_orders_block_retroactive_change'']"

section \<open>0003: the tables of the bulk load\<close>

definition staging_table :: table_def where
  "staging_table = \<lparr>td_name = ''stg_order_history'',
     td_columns =
      [required ''order_uid'' (Col_String 64),
       required ''client_uid'' (Col_String 64),
       required ''client_document'' (Col_String 14),
       required ''order_date'' Col_Date,
       required ''channel'' (Col_String 20),
       required ''payment_method'' (Col_String 16),
       required ''status'' (Col_String 16),
       required ''sku'' (Col_String 40),
       required ''product_name'' (Col_Unicode (Some 120)),
       required ''category'' (Col_String 40),
       required ''quantity'' Col_Integer,
       required ''unit_price'' (Col_Numeric 19 4),
       required ''freight_amount'' (Col_Numeric 19 4),
       required ''total_amount'' (Col_Numeric 19 4),
       required ''state'' (Col_Char 2),
       required ''city'' (Col_Unicode (Some 80))],
     td_constraints =
      []\<rparr>"

definition fact_table :: table_def where
  "fact_table = \<lparr>td_name = ''fact_order_history'',
     td_columns =
      [required ''order_uid'' (Col_String 64),
       required ''client_uid'' (Col_String 64),
       required ''client_document'' (Col_String 14),
       required ''order_date'' Col_Date,
       required ''channel'' (Col_String 20),
       required ''payment_method'' (Col_String 16),
       required ''status'' (Col_String 16),
       required ''sku'' (Col_String 40),
       required ''product_name'' (Col_Unicode (Some 120)),
       required ''category'' (Col_String 40),
       required ''quantity'' Col_Integer,
       required ''unit_price'' (Col_Numeric 19 4),
       required ''freight_amount'' (Col_Numeric 19 4),
       required ''total_amount'' (Col_Numeric 19 4),
       required ''state'' (Col_Char 2),
       required ''city'' (Col_Unicode (Some 80)),
       with_default Default_Now (required ''loaded_at'' (Col_DateTime2 0))],
     td_constraints =
      [Named_Default ''loaded_at'' ''df_fact_loaded_at'']\<rparr>"

definition columnstore_index :: index_def where
  "columnstore_index = (plain_index ''cci_fact_order_history'' ''fact_order_history'' [])\<lparr>ix_kind := Columnstore\<rparr>"

definition upgrade_0003 :: "ddl list" where
  "upgrade_0003 = [Create_Table staging_table, Create_Table fact_table, Create_Index columnstore_index]"

definition downgrade_0003 :: "ddl list" where
  "downgrade_0003 = [Drop_Table_If_Exists ''fact_order_history'', Drop_Table_If_Exists ''stg_order_history'']"

section \<open>The chain of revisions\<close>

record revision =
  rv_id :: string
  rv_down :: "string option"
  rv_upgrade :: "ddl list"
  rv_downgrade :: "ddl list"

definition revision_0001 :: revision where
  "revision_0001 = \<lparr>rv_id = ''0001'', rv_down = None, rv_upgrade = upgrade_0001, rv_downgrade = downgrade_0001\<rparr>"

definition revision_0002 :: revision where
  "revision_0002 = \<lparr>rv_id = ''0002'', rv_down = Some ''0001'', rv_upgrade = upgrade_0002, rv_downgrade = downgrade_0002\<rparr>"

definition revision_0003 :: revision where
  "revision_0003 = \<lparr>rv_id = ''0003'', rv_down = Some ''0002'', rv_upgrade = upgrade_0003, rv_downgrade = downgrade_0003\<rparr>"

text \<open>Alembic runs the revisions in the order in which each names its predecessor.\<close>

fun chained :: "string option \<Rightarrow> revision list \<Rightarrow> bool" where
  "chained base [] = True"
| "chained base (r # rs) = (rv_down r = base \<and> chained (Some (rv_id r)) rs)"

definition revisions :: "revision list" where
  "revisions = [revision_0001, revision_0002, revision_0003]"

definition upgrade_to_head :: "ddl list" where
  "upgrade_to_head = concat (map rv_upgrade revisions)"

definition downgrade_to_base :: "ddl list" where
  "downgrade_to_base = concat (map rv_downgrade (rev revisions))"

definition head_catalog :: catalog where
  "head_catalog =
     \<lparr>ca_tables = [clients_table, address_table, orders_table, order_items_table, payment_table,
        invoices_table, processed_events_table, outbox_table, staging_table, fact_table],
      ca_indexes = [plain_index ''ix_clients_client_uid'' ''clients'' [''client_uid''],
        plain_index ''ix_address_client'' ''address'' [''client_id''], current_address_index,
        plain_index ''ix_orders_order_uid'' ''orders'' [''order_uid''],
        plain_index ''ix_orders_status'' ''orders'' [''status''],
        plain_index ''ix_order_items_order'' ''order_items'' [''order_id''],
        plain_index ''ix_payment_order'' ''payment'' [''order_id''], dispatchable_index, columnstore_index],
      ca_triggers = [(''TR_orders_block_retroactive_change'', ''orders''),
        (''TR_order_items_block_retroactive_change'', ''order_items'')]\<rparr>"

section \<open>What the migrations do to a database\<close>

definition program_objects :: "string set" where
  "program_objects = \<Union> (names_of_ddl ` set (upgrade_to_head @ downgrade_to_base))"

lemma revisions_chained: "chained None revisions"
  by code_simp

lemma upgrade_empty: "run_ddl upgrade_to_head empty_catalog = Inr head_catalog"
  by code_simp

lemma downgrade_head: "run_ddl downgrade_to_base head_catalog = Inr empty_catalog"
  by code_simp

text \<open>Up to the revision with any number and back, on an empty database.\<close>

definition upgrade_first :: "nat \<Rightarrow> ddl list" where
  "upgrade_first n = concat (map rv_upgrade (take n revisions))"

definition downgrade_first :: "nat \<Rightarrow> ddl list" where
  "downgrade_first n = concat (map rv_downgrade (rev (take n revisions)))"

lemma up_and_back_empty:
  "n \<in> {0, 1, 2, 3} \<Longrightarrow> \<exists>k. run_ddl (upgrade_first n) empty_catalog = Inr k \<and> run_ddl (downgrade_first n) k = Inr empty_catalog"
proof -
  have "case run_ddl (upgrade_first n) empty_catalog of Inl e \<Rightarrow> False
      | Inr k \<Rightarrow> run_ddl (downgrade_first n) k = Inr empty_catalog" if "n \<in> {0, 1, 2, 3}"
    using that by (elim insertE emptyE; hypsubst; code_simp)
  then show "n \<in> {0, 1, 2, 3} \<Longrightarrow> ?thesis" by (auto split: sum.splits)
qed

lemma first_revisions:
  "\<exists>m \<in> {0, 1, 2, 3}. upgrade_first n = upgrade_first m \<and> downgrade_first n = downgrade_first m"
proof -
  have "take n revisions = take (min n 3) revisions" by (simp add: revisions_def min_def)
  moreover have "min n 3 \<in> {0, 1, 2, 3}" by auto
  ultimately show ?thesis unfolding upgrade_first_def downgrade_first_def by metis
qed

lemma names_of_first:
  "\<Union> (names_of_ddl ` set (upgrade_first n)) \<subseteq> program_objects"
  "\<Union> (names_of_ddl ` set (downgrade_first n)) \<subseteq> program_objects"
proof -
  have "set (take n revisions) \<subseteq> set revisions" by (rule set_take_subset)
  then show "\<Union> (names_of_ddl ` set (upgrade_first n)) \<subseteq> program_objects"
    "\<Union> (names_of_ddl ` set (downgrade_first n)) \<subseteq> program_objects"
    unfolding program_objects_def upgrade_first_def downgrade_first_def upgrade_to_head_def downgrade_to_base_def
    by auto
qed

lemma upgrade_twice:
  "run_ddl upgrade_to_head (beside c head_catalog) = Inl (Already_There ''clients'')"
proof -
  have "''clients'' \<in> set (objects head_catalog)" "''clients'' \<in> set (table_objects clients_table)"
    "td_name clients_table = ''clients''" "rv_upgrade (hd revisions) = Create_Table clients_table # tl upgrade_0001"
    by code_simp+
  then have "apply_ddl (Create_Table clients_table) (beside c head_catalog) = Inl (Already_There ''clients'')"
    by (auto simp: objects_beside)
  then show ?thesis by (simp add: upgrade_to_head_def revisions_def revision_0001_def upgrade_0001_def)
qed


text \<open>A database that another program shares: two tables of its own, an index and a trigger.\<close>

definition other_table :: "string \<Rightarrow> constr list \<Rightarrow> table_def" where
  "other_table n ks = \<lparr>td_name = n, td_columns = [identity_column ''id''], td_constraints = Primary_Key ''id'' # ks\<rparr>"

definition shared_catalog :: catalog where
  "shared_catalog = \<lparr>ca_tables = [other_table ''alembic_version'' [],
       other_table ''stock'' [Foreign_Key ''id'' ''alembic_version'' ''id'' ''fk_stock'']],
     ca_indexes = [plain_index ''ix_orders_status'' ''stock'' [''id'']], ca_triggers = [(''TR_stock'', ''stock'')]\<rparr>"


end
