(* ===== verification/Orm_Models.thy ===== *)
theory Orm_Models
  imports Migrations Bulk_Load
begin

text \<open>
  src/shared/db/models.py as the catalogue SQLAlchemy makes of it, and its agreement with the
  migrations. \<open>mapped_column\<close> is read as SQLAlchemy documents it: the type of a foreign key is that of
  the key, and \<open>unique=True, index=True\<close> is one unique index named after the table and the column.
\<close>

section \<open>The mapped classes\<close>

record mapped =
  mp_name :: string
  mp_type :: "col_type option"
  mp_nullable :: bool
  mp_identity :: bool
  mp_primary_key :: bool
  mp_unique :: bool
  mp_index :: bool
  mp_default :: "col_default option"
  mp_references :: "(string \<times> string) option"

definition mapped_column :: "string \<Rightarrow> col_type \<Rightarrow> mapped" where
  "mapped_column n t = \<lparr>mp_name = n, mp_type = Some t, mp_nullable = False, mp_identity = False,
     mp_primary_key = False, mp_unique = False, mp_index = False, mp_default = None, mp_references = None\<rparr>"

definition mapped_optional :: "string \<Rightarrow> col_type \<Rightarrow> mapped" where
  "mapped_optional n t = (mapped_column n t)\<lparr>mp_nullable := True\<rparr>"

definition pk_column :: "string \<Rightarrow> mapped" where
  "pk_column n = (mapped_column n Col_BigInteger)\<lparr>mp_identity := True, mp_primary_key := True\<rparr>"

definition ts_column :: "string \<Rightarrow> mapped" where
  "ts_column n = (mapped_column n Col_DateTime)\<lparr>mp_default := Some Default_Now\<rparr>"

definition foreign_key :: "string \<Rightarrow> string \<Rightarrow> string \<Rightarrow> mapped" where
  "foreign_key n t ref = (mapped_column n Col_BigInteger)\<lparr>mp_type := None, mp_references := Some (t, ref)\<rparr>"

datatype table_arg =
    Arg_Index string "string list" bool "filter_def option"
  | Arg_Unique "string list" string
  | Arg_Check check string
  | Arg_No_Implicit_Returning

record orm_class =
  om_table :: string
  om_columns :: "mapped list"
  om_args :: "table_arg list"

definition orm_client :: orm_class where
  "orm_client = \<lparr>om_table = ''clients'',
     om_columns = [pk_column ''client_id'',
      (mapped_column ''client_uid'' (Col_String 64))\<lparr>mp_unique := True, mp_index := True\<rparr>,
      mapped_column ''full_name'' (Col_Unicode (Some 160)),
      mapped_column ''document'' (Col_String 14),
      mapped_column ''email'' (Col_String 160),
      ts_column ''created_at'',
      ts_column ''updated_at''],
     om_args = []\<rparr>"

definition orm_address :: orm_class where
  "orm_address = \<lparr>om_table = ''address'',
     om_columns = [pk_column ''address_id'',
      mapped_column ''address_uid'' (Col_String 64),
      foreign_key ''client_id'' ''clients'' ''client_id'',
      mapped_column ''street'' (Col_Unicode (Some 160)),
      mapped_column ''number'' (Col_String 20),
      mapped_optional ''complement'' (Col_Unicode (Some 80)),
      mapped_column ''district'' (Col_Unicode (Some 80)),
      mapped_column ''city'' (Col_Unicode (Some 80)),
      mapped_column ''state'' (Col_String 2),
      mapped_column ''zip_code'' (Col_String 8),
      ts_column ''valid_from'',
      mapped_optional ''valid_to'' Col_DateTime,
      (mapped_column ''is_current'' Col_Boolean)\<lparr>mp_default := Some (Default_Text ''1'')\<rparr>],
     om_args = [Arg_Index ''ux_address_uid_current'' [''address_uid''] True (Some (Filter_True ''is_current'')),
      Arg_Index ''ix_address_client'' [''client_id''] False None]\<rparr>"

definition orm_order :: orm_class where
  "orm_order = \<lparr>om_table = ''orders'',
     om_columns = [pk_column ''order_id'',
      (mapped_column ''order_uid'' (Col_String 64))\<lparr>mp_unique := True, mp_index := True\<rparr>,
      foreign_key ''client_id'' ''clients'' ''client_id'',
      foreign_key ''shipping_address_id'' ''address'' ''address_id'',
      foreign_key ''billing_address_id'' ''address'' ''address_id'',
      (mapped_column ''status'' (Col_String 16))\<lparr>mp_default := Some (Default_Text ''PENDING'')\<rparr>,
      (mapped_column ''currency'' (Col_String 3))\<lparr>mp_default := Some (Default_Text ''BRL'')\<rparr>,
      mapped_column ''total_amount'' (Col_Numeric 19 4),
      mapped_column ''placed_at'' Col_DateTime,
      mapped_optional ''closed_at'' Col_DateTime,
      mapped_column ''source_event_id'' (Col_String 64),
      ts_column ''created_at''],
     om_args = [Arg_Check (Check_In ''status'' [''PENDING'', ''APPROVED'', ''INVOICED'', ''CANCELLED'']) ''ck_orders_status'',
      Arg_Check (Check_Not_Negative ''total_amount'') ''ck_orders_total_positive'',
      Arg_Index ''ix_orders_status'' [''status''] False None]\<rparr>"

definition orm_order_item :: orm_class where
  "orm_order_item = \<lparr>om_table = ''order_items'',
     om_columns = [pk_column ''order_item_id'',
      foreign_key ''order_id'' ''orders'' ''order_id'',
      mapped_column ''sku'' (Col_String 40),
      mapped_column ''description'' (Col_Unicode (Some 200)),
      mapped_column ''quantity'' Col_Integer,
      mapped_column ''unit_price'' (Col_Numeric 19 4),
      mapped_column ''line_total'' (Col_Numeric 19 4)],
     om_args = [Arg_Index ''ix_order_items_order'' [''order_id''] False None,
      Arg_No_Implicit_Returning]\<rparr>"

definition orm_payment :: orm_class where
  "orm_payment = \<lparr>om_table = ''payment'',
     om_columns = [pk_column ''payment_id'',
      foreign_key ''order_id'' ''orders'' ''order_id'',
      mapped_column ''provider'' (Col_String 40),
      mapped_column ''provider_tx_id'' (Col_String 80),
      mapped_column ''method'' (Col_String 16),
      mapped_column ''status'' (Col_String 16),
      mapped_column ''amount'' (Col_Numeric 19 4),
      mapped_optional ''authorized_at'' Col_DateTime,
      mapped_optional ''approved_at'' Col_DateTime,
      ts_column ''created_at''],
     om_args = [Arg_Unique [''provider'', ''provider_tx_id''] ''ux_payment_provider_tx'',
      Arg_Check (Check_In ''method'' [''PIX'', ''CREDIT_CARD'', ''BOLETO'']) ''ck_payment_method'',
      Arg_Index ''ix_payment_order'' [''order_id''] False None]\<rparr>"

definition orm_invoice :: orm_class where
  "orm_invoice = \<lparr>om_table = ''invoices'',
     om_columns = [pk_column ''invoice_id'',
      foreign_key ''order_id'' ''orders'' ''order_id'',
      mapped_column ''invoice_number'' (Col_String 40),
      mapped_column ''series'' (Col_String 10),
      mapped_column ''access_key'' (Col_String 44),
      mapped_column ''issued_at'' Col_DateTime,
      mapped_column ''total_amount'' (Col_Numeric 19 4),
      (mapped_column ''status'' (Col_String 16))\<lparr>mp_default := Some (Default_Text ''ISSUED'')\<rparr>,
      ts_column ''created_at''],
     om_args = [Arg_Unique [''order_id''] ''ux_invoice_order'',
      Arg_Unique [''invoice_number'', ''series''] ''ux_invoice_number_series'']\<rparr>"

definition orm_processed_event :: orm_class where
  "orm_processed_event = \<lparr>om_table = ''processed_events'',
     om_columns = [(mapped_column ''event_id'' (Col_String 64))\<lparr>mp_primary_key := True\<rparr>,
      mapped_column ''event_type'' (Col_String 40),
      mapped_column ''payload_hash'' (Col_String 64),
      (mapped_column ''status'' (Col_String 16))\<lparr>mp_default := Some (Default_Text (processed_event_status_value EvDONE))\<rparr>,
      (mapped_column ''attempt_count'' Col_Integer)\<lparr>mp_default := Some (Default_Text ''1'')\<rparr>,
      ts_column ''processed_at''],
     om_args = []\<rparr>"

definition orm_outbox_message :: orm_class where
  "orm_outbox_message = \<lparr>om_table = ''outbox'',
     om_columns = [pk_column ''outbox_id'',
      mapped_column ''aggregate_type'' (Col_String 40),
      mapped_column ''aggregate_id'' (Col_String 64),
      mapped_column ''event_type'' (Col_String 40),
      mapped_column ''payload'' (Col_Unicode None),
      (mapped_column ''status'' (Col_String 16))\<lparr>mp_default := Some (Default_Text (outbox_status_value ObPENDING))\<rparr>,
      (mapped_column ''attempts'' Col_Integer)\<lparr>mp_default := Some (Default_Text ''0'')\<rparr>,
      ts_column ''next_attempt_at'',
      mapped_optional ''locked_by'' (Col_String 64),
      mapped_optional ''locked_at'' Col_DateTime,
      mapped_optional ''last_error'' (Col_Unicode (Some 1000)),
      ts_column ''created_at'',
      mapped_optional ''sent_at'' Col_DateTime],
     om_args = [Arg_Index ''ix_outbox_dispatchable'' [''status'', ''next_attempt_at''] False
        (Some (Filter_In ''status'' [''PENDING'', ''IN_FLIGHT'']))]\<rparr>"

definition orm_classes :: "orm_class list" where
  "orm_classes = [orm_client, orm_address, orm_order, orm_order_item, orm_payment, orm_invoice,
     orm_processed_event, orm_outbox_message]"

section \<open>The catalogue of the classes\<close>

definition key_type :: "orm_class list \<Rightarrow> string \<Rightarrow> string \<Rightarrow> col_type option" where
  "key_type cs t col =
     Option.bind (find (\<lambda>c. om_table c = t) cs) (\<lambda>c.
     Option.bind (find (\<lambda>m. mp_name m = col) (om_columns c)) mp_type)"

definition resolved_type :: "orm_class list \<Rightarrow> mapped \<Rightarrow> col_type option" where
  "resolved_type cs m = (case mp_type m of
     Some t \<Rightarrow> Some t
   | None \<Rightarrow> (case mp_references m of None \<Rightarrow> None | Some (t, col) \<Rightarrow> key_type cs t col))"

definition orm_column :: "orm_class list \<Rightarrow> mapped \<Rightarrow> col_def option" where
  "orm_column cs m = map_option
     (\<lambda>t. \<lparr>cd_name = mp_name m, cd_type = t, cd_nullable = mp_nullable m, cd_identity = mp_identity m,
        cd_default = mp_default m\<rparr>) (resolved_type cs m)"

definition column_indexes :: "orm_class \<Rightarrow> index_def list" where
  "column_indexes c = map
     (\<lambda>m. \<lparr>ix_name = ''ix_'' @ om_table c @ ''_'' @ mp_name m, ix_table = om_table c, ix_columns = [mp_name m],
        ix_kind = (if mp_unique m then Unique_Index else Plain_Index), ix_where = None\<rparr>)
     (filter mp_index (om_columns c))"

definition orm_indexes :: "orm_class \<Rightarrow> index_def list" where
  "orm_indexes c = column_indexes c @ concat (map (\<lambda>a. case a of
     Arg_Index n cols u w \<Rightarrow> [\<lparr>ix_name = n, ix_table = om_table c, ix_columns = cols,
        ix_kind = (if u then Unique_Index else Plain_Index), ix_where = w\<rparr>] | _ \<Rightarrow> []) (om_args c))"

definition orm_constraints :: "orm_class \<Rightarrow> constr list" where
  "orm_constraints c =
     map (\<lambda>m. Primary_Key (mp_name m)) (filter mp_primary_key (om_columns c))
     @ map (\<lambda>m. Unique_Key [mp_name m] []) (filter (\<lambda>m. mp_unique m \<and> \<not> mp_index m) (om_columns c))
     @ concat (map (\<lambda>m. case mp_references m of None \<Rightarrow> [] | Some (t, ref) \<Rightarrow> [Foreign_Key (mp_name m) t ref []])
         (om_columns c))
     @ concat (map (\<lambda>a. case a of Arg_Unique cols n \<Rightarrow> [Unique_Key cols n]
         | Arg_Check k n \<Rightarrow> [Check_Constraint k n] | _ \<Rightarrow> []) (om_args c))"

definition orm_table_def :: "orm_class list \<Rightarrow> orm_class \<Rightarrow> table_def" where
  "orm_table_def cs c = \<lparr>td_name = om_table c, td_columns = List.map_filter (orm_column cs) (om_columns c),
     td_constraints = orm_constraints c\<rparr>"

definition orm_catalog :: catalog where
  "orm_catalog = \<lparr>ca_tables = map (orm_table_def orm_classes) orm_classes,
     ca_indexes = concat (map orm_indexes orm_classes), ca_triggers = []\<rparr>"

section \<open>Agreement with the migrations\<close>

text \<open>
  What a table demands of its rows, apart from the names the server makes up: the primary key, the
  foreign keys, the checks, and the sets of columns that are unique, under their filter, by a
  constraint or by an index.
\<close>

definition primary_keys :: "table_def \<Rightarrow> string list" where
  "primary_keys t = concat (map (\<lambda>k. case k of Primary_Key c \<Rightarrow> [c] | _ \<Rightarrow> []) (td_constraints t))"

definition foreign_keys :: "table_def \<Rightarrow> (string \<times> string \<times> string) list" where
  "foreign_keys t = concat (map (\<lambda>k. case k of Foreign_Key c u ref n \<Rightarrow> [(c, u, ref)] | _ \<Rightarrow> []) (td_constraints t))"

definition checks :: "table_def \<Rightarrow> (check \<times> string) list" where
  "checks t = concat (map (\<lambda>k. case k of Check_Constraint c n \<Rightarrow> [(c, n)] | _ \<Rightarrow> []) (td_constraints t))"

definition unique_keys :: "index_def list \<Rightarrow> table_def \<Rightarrow> (string list \<times> filter_def option) list" where
  "unique_keys ixs t =
     concat (map (\<lambda>k. case k of Unique_Key cols n \<Rightarrow> [(cols, None)] | _ \<Rightarrow> []) (td_constraints t))
     @ map (\<lambda>i. (ix_columns i, ix_where i)) (filter (\<lambda>i. ix_table i = td_name t \<and> ix_kind i = Unique_Index) ixs)"

definition same_demands :: "index_def list \<Rightarrow> index_def list \<Rightarrow> table_def \<Rightarrow> table_def \<Rightarrow> bool" where
  "same_demands ixs jxs t u \<longleftrightarrow>
     td_name t = td_name u \<and> td_columns t = td_columns u \<and> primary_keys t = primary_keys u
     \<and> foreign_keys t = foreign_keys u \<and> checks t = checks u
     \<and> set (unique_keys ixs t) = set (unique_keys jxs u)"

definition orm_tables :: "table_def list" where
  "orm_tables = ca_tables orm_catalog"

definition migrated_tables :: "table_def list" where
  "migrated_tables = take 8 (ca_tables head_catalog)"

definition as_plain :: "index_def \<Rightarrow> index_def" where
  "as_plain i = i\<lparr>ix_kind := Plain_Index\<rparr>"

definition only_in_models :: "index_def list" where
  "only_in_models = filter (\<lambda>i. i \<notin> set (ca_indexes head_catalog)) (ca_indexes orm_catalog)"


section \<open>Properties of the classes\<close>

text \<open>\<open>Order.is_closed\<close>; the column holds the value of a member (\<open>ck_orders_status\<close>).\<close>

definition is_closed :: "order_row \<Rightarrow> bool" where
  "is_closed r = is_terminal (or_status r)"

lemma is_closed_iff_trigger: "is_closed r \<longleftrightarrow> closed_row r"
  by (cases "or_status r") (simp_all add: is_closed_def closed_row_def is_terminal_iff)

end
