(* ===== verification/Inserts.thy ===== *)
theory Inserts
  imports Migrations Db_Invariants
begin

text \<open>
  The INSERT that a table definition of the migrations prescribes, as a reference for the INSERTs of
  Schema: the values a row gives to the columns, the types and constraints they have to satisfy, and
  the proof that each table's statement accepts, refuses and names what the migrated schema does.
\<close>

section \<open>A statement driven by the catalogue\<close>

datatype sql_value =
    Sql_Null | Sql_Int int | Sql_Text string | Sql_Dec money | Sql_Time ts | Sql_Bool bool | Sql_Doc json

type_synonym sql_row = "(string \<times> sql_value) list"
type_synonym contents = "string \<Rightarrow> sql_row list"

definition int64 :: "int \<Rightarrow> bool" where
  "int64 i \<longleftrightarrow> - (2 ^ 63) \<le> i \<and> i < 2 ^ 63"

text \<open>A decimal is an integer of ten-thousandths, so it has the four decimals of the columns.\<close>

fun unicode_fits :: "nat option \<Rightarrow> string \<Rightarrow> bool" where
  "unicode_fits None s = True"
| "unicode_fits (Some n) s = (length s \<le> n)"

fun value_fits :: "col_type \<Rightarrow> sql_value \<Rightarrow> bool" where
  "value_fits t Sql_Null = False"
| "value_fits t (Sql_Int i) = (case t of Col_BigInteger \<Rightarrow> int64 i | Col_Integer \<Rightarrow> int32 i | _ \<Rightarrow> False)"
| "value_fits t (Sql_Text s) = (case t of Col_String n \<Rightarrow> length s \<le> n | Col_Unicode n \<Rightarrow> unicode_fits n s | _ \<Rightarrow> False)"
| "value_fits t (Sql_Dec m) = (case t of Col_Numeric p q \<Rightarrow> q = 4 \<and> - (10 ^ p) < m \<and> m < 10 ^ p | _ \<Rightarrow> False)"
| "value_fits t (Sql_Time x) = (t = Col_DateTime)"
| "value_fits t (Sql_Bool b) = (t = Col_Boolean)"
| "value_fits t (Sql_Doc j) = (t = Col_Unicode None)"

definition column_fits :: "col_def \<Rightarrow> sql_value \<Rightarrow> bool" where
  "column_fits c v = (if v = Sql_Null then cd_nullable c else value_fits (cd_type c) v)"

definition row_conforms :: "table_def \<Rightarrow> sql_row \<Rightarrow> bool" where
  "row_conforms t r = list_all2 (\<lambda>c (n, v). cd_name c = n \<and> column_fits c v) (td_columns t) r"

definition field :: "sql_row \<Rightarrow> string \<Rightarrow> sql_value" where
  "field r n = (case map_of r n of None \<Rightarrow> Sql_Null | Some v \<Rightarrow> v)"

definition same_fields :: "string list \<Rightarrow> sql_row \<Rightarrow> sql_row \<Rightarrow> bool" where
  "same_fields cols r q = list_all (\<lambda>c. field r c = field q c) cols"

definition taken :: "string list \<Rightarrow> sql_row list \<Rightarrow> sql_row \<Rightarrow> bool" where
  "taken cols rs r \<longleftrightarrow> (\<exists>q \<in> set rs. same_fields cols q r)"

fun check_fails :: "check \<Rightarrow> sql_row \<Rightarrow> bool" where
  "check_fails (Check_In c vs) r = (case field r c of Sql_Text s \<Rightarrow> s \<notin> set vs | _ \<Rightarrow> False)"
| "check_fails (Check_Not_Negative c) r = (case field r c of Sql_Dec m \<Rightarrow> m < 0 | _ \<Rightarrow> False)"

fun constr_violated :: "contents \<Rightarrow> string \<Rightarrow> sql_row \<Rightarrow> constr \<Rightarrow> (string \<times> bool)" where
  "constr_violated db t r (Primary_Key c) = (''pk_'' @ t, taken [c] (db t) r)"
| "constr_violated db t r (Unique_Key cols n) = (n, taken cols (db t) r)"
| "constr_violated db t r (Foreign_Key c u ref n) =
     (n, field r c \<noteq> Sql_Null \<and> field r c \<notin> (\<lambda>q. field q ref) ` set (db u))"
| "constr_violated db t r (Check_Constraint k n) = (n, check_fails k r)"
| "constr_violated db t r (Named_Default c n) = (n, False)"

fun passes :: "filter_def option \<Rightarrow> sql_row \<Rightarrow> bool" where
  "passes None r = True"
| "passes (Some (Filter_True c)) r = (field r c = Sql_Bool True)"
| "passes (Some (Filter_In c vs)) r = (field r c \<in> Sql_Text ` set vs)"

definition index_violated :: "contents \<Rightarrow> sql_row \<Rightarrow> index_def \<Rightarrow> (string \<times> bool)" where
  "index_violated db r i =
     (ix_name i, ix_kind i = Unique_Index \<and> passes (ix_where i) r
        \<and> taken (ix_columns i) (filter (passes (ix_where i)) (db (ix_table i))) r)"

definition demands :: "catalog \<Rightarrow> contents \<Rightarrow> table_def \<Rightarrow> sql_row \<Rightarrow> (string \<times> bool) list" where
  "demands c db t r =
     map (constr_violated db (td_name t) r) (td_constraints t)
     @ map (index_violated db r) (filter (\<lambda>i. ix_table i = td_name t) (ca_indexes c))"

definition violations :: "catalog \<Rightarrow> contents \<Rightarrow> table_def \<Rightarrow> sql_row \<Rightarrow> string set" where
  "violations c db t r = {n. (n, True) \<in> set (demands c db t r)}"

text \<open>
  The answer of a statement is the catalogue's: stored, or fired a trigger, only if the row conforms
  and violates nothing; a DataError only if it does not conform; an IntegrityError only if it conforms,
  and then of a constraint it violates.
\<close>

fun answers_as :: "catalog \<Rightarrow> contents \<Rightarrow> table_def \<Rightarrow> sql_row \<Rightarrow> exn + 'a \<Rightarrow> bool" where
  "answers_as c db t r (Inr x) \<longleftrightarrow> row_conforms t r \<and> violations c db t r = {}"
| "answers_as c db t r (Inl (TriggerError n s)) \<longleftrightarrow> row_conforms t r \<and> violations c db t r = {}"
| "answers_as c db t r (Inl (DataError s)) \<longleftrightarrow> s = td_name t \<and> \<not> row_conforms t r"
| "answers_as c db t r (Inl (IntegrityError k)) \<longleftrightarrow> row_conforms t r \<and> k \<in> violations c db t r"
| "answers_as c db t r (Inl x) \<longleftrightarrow> False"

lemma violation_None_iff: "violation cs = None \<longleftrightarrow> (\<forall>n. (n, True) \<notin> set cs)"
  by (induction cs) (auto split: if_splits)

lemma violation_named: "violation cs = Some n \<Longrightarrow> (n, True) \<in> set cs"
  by (induction cs) (auto split: if_splits)

lemma checked_insert_answers:
  assumes "fits \<longleftrightarrow> row_conforms t r" and "violations c db t r = {n. (n, True) \<in> set cs}" and "td_name t = name"
  shows "answers_as c db t r (fst (checked_insert fits name cs adv put row d))"
  using assms violation_None_iff [of cs] violation_named [of cs]
  by (auto simp: checked_insert_def split: option.splits)

section \<open>The rows of the model as rows of values\<close>

definition sql_opt :: "('a \<Rightarrow> sql_value) \<Rightarrow> 'a option \<Rightarrow> sql_value" where
  "sql_opt f x = (case x of None \<Rightarrow> Sql_Null | Some a \<Rightarrow> f a)"

definition client_values :: "client_row \<Rightarrow> sql_row" where
  "client_values r = [(''client_id'', Sql_Int (cl_client_id r)), (''client_uid'', Sql_Text (cl_client_uid r)),
     (''full_name'', Sql_Text (cl_full_name r)), (''document'', Sql_Text (cl_document r)),
     (''email'', Sql_Text (cl_email r)), (''created_at'', Sql_Time (cl_created_at r)),
     (''updated_at'', Sql_Time (cl_updated_at r))]"

definition address_values :: "address_row \<Rightarrow> sql_row" where
  "address_values r = [(''address_id'', Sql_Int (ad_address_id r)), (''address_uid'', Sql_Text (ad_address_uid r)),
     (''client_id'', Sql_Int (ad_client_id r)), (''street'', Sql_Text (ad_street r)),
     (''number'', Sql_Text (ad_number r)), (''complement'', sql_opt Sql_Text (ad_complement r)),
     (''district'', Sql_Text (ad_district r)), (''city'', Sql_Text (ad_city r)),
     (''state'', Sql_Text (ad_state r)), (''zip_code'', Sql_Text (ad_zip_code r)),
     (''valid_from'', Sql_Time (ad_valid_from r)), (''valid_to'', sql_opt Sql_Time (ad_valid_to r)),
     (''is_current'', Sql_Bool (ad_is_current r))]"

definition order_values :: "order_row \<Rightarrow> sql_row" where
  "order_values r = [(''order_id'', Sql_Int (or_order_id r)), (''order_uid'', Sql_Text (or_order_uid r)),
     (''client_id'', Sql_Int (or_client_id r)), (''shipping_address_id'', Sql_Int (or_shipping_address_id r)),
     (''billing_address_id'', Sql_Int (or_billing_address_id r)),
     (''status'', Sql_Text (order_status_value (or_status r))), (''currency'', Sql_Text (or_currency r)),
     (''total_amount'', Sql_Dec (or_total_amount r)), (''placed_at'', Sql_Time (or_placed_at r)),
     (''closed_at'', sql_opt Sql_Time (or_closed_at r)), (''source_event_id'', Sql_Text (or_source_event_id r)),
     (''created_at'', Sql_Time (or_created_at r))]"

definition item_values :: "item_row \<Rightarrow> sql_row" where
  "item_values r = [(''order_item_id'', Sql_Int (it_order_item_id r)), (''order_id'', Sql_Int (it_order_id r)),
     (''sku'', Sql_Text (it_sku r)), (''description'', Sql_Text (it_description r)),
     (''quantity'', Sql_Int (it_quantity r)), (''unit_price'', Sql_Dec (it_unit_price r)),
     (''line_total'', Sql_Dec (it_line_total r))]"

definition payment_values :: "payment_row \<Rightarrow> sql_row" where
  "payment_values r = [(''payment_id'', Sql_Int (pa_payment_id r)), (''order_id'', Sql_Int (pa_order_id r)),
     (''provider'', Sql_Text (pa_provider r)), (''provider_tx_id'', Sql_Text (pa_provider_tx_id r)),
     (''method'', Sql_Text (payment_method_value (pa_method r))),
     (''status'', Sql_Text (payment_status_value (pa_status r))), (''amount'', Sql_Dec (pa_amount r)),
     (''authorized_at'', sql_opt Sql_Time (pa_authorized_at r)),
     (''approved_at'', sql_opt Sql_Time (pa_approved_at r)), (''created_at'', Sql_Time (pa_created_at r))]"

definition invoice_values :: "invoice_row \<Rightarrow> sql_row" where
  "invoice_values r = [(''invoice_id'', Sql_Int (in_invoice_id r)), (''order_id'', Sql_Int (in_order_id r)),
     (''invoice_number'', Sql_Text (in_invoice_number r)), (''series'', Sql_Text (in_series r)),
     (''access_key'', Sql_Text (in_access_key r)), (''issued_at'', Sql_Time (in_issued_at r)),
     (''total_amount'', Sql_Dec (in_total_amount r)), (''status'', Sql_Text (in_status r)),
     (''created_at'', Sql_Time (in_created_at r))]"

definition event_values :: "processed_event_row \<Rightarrow> sql_row" where
  "event_values r = [(''event_id'', Sql_Text (pe_event_id r)), (''event_type'', Sql_Text (pe_event_type r)),
     (''payload_hash'', Sql_Text (pe_payload_hash r)),
     (''status'', Sql_Text (processed_event_status_value (pe_status r))),
     (''attempt_count'', Sql_Int (pe_attempt_count r)), (''processed_at'', Sql_Time (pe_processed_at r))]"

definition outbox_values :: "outbox_row \<Rightarrow> sql_row" where
  "outbox_values r = [(''outbox_id'', Sql_Int (ob_outbox_id r)),
     (''aggregate_type'', Sql_Text (ob_aggregate_type r)), (''aggregate_id'', Sql_Text (ob_aggregate_id r)),
     (''event_type'', Sql_Text (ob_event_type r)), (''payload'', Sql_Doc (ob_payload r)),
     (''status'', Sql_Text (outbox_status_value (ob_status r))), (''attempts'', Sql_Int (ob_attempts r)),
     (''next_attempt_at'', Sql_Time (ob_next_attempt_at r)), (''locked_by'', sql_opt Sql_Text (ob_locked_by r)),
     (''locked_at'', sql_opt Sql_Time (ob_locked_at r)), (''last_error'', sql_opt Sql_Text (ob_last_error r)),
     (''created_at'', Sql_Time (ob_created_at r)), (''sent_at'', sql_opt Sql_Time (ob_sent_at r))]"

definition contents_of :: "db \<Rightarrow> contents" where
  "contents_of d = (\<lambda>t. case map_of
     [(''clients'', map client_values (clients d)), (''address'', map address_values (addresses d)),
      (''orders'', map order_values (orders d)), (''order_items'', map item_values (order_items d)),
      (''payment'', map payment_values (payments d)), (''invoices'', map invoice_values (invoices d)),
      (''processed_events'', map event_values (processed_events d)), (''outbox'', map outbox_values (outbox d))] t
     of None \<Rightarrow> [] | Some rs \<Rightarrow> rs)"

lemma contents_of_simps [simp]:
  "contents_of d ''clients'' = map client_values (clients d)"
  "contents_of d ''address'' = map address_values (addresses d)"
  "contents_of d ''orders'' = map order_values (orders d)"
  "contents_of d ''order_items'' = map item_values (order_items d)"
  "contents_of d ''payment'' = map payment_values (payments d)"
  "contents_of d ''invoices'' = map invoice_values (invoices d)"
  "contents_of d ''processed_events'' = map event_values (processed_events d)"
  "contents_of d ''outbox'' = map outbox_values (outbox d)"
  by (simp_all add: contents_of_def)

section \<open>Which rows conform\<close>

lemmas column_defs = required_def optional_def identity_column_def with_default_def

lemma enum_lengths [simp]:
  "length (order_status_value a) \<le> 16" "length (payment_method_value b) \<le> 16"
  "length (payment_status_value c) \<le> 16" "length (processed_event_status_value e) \<le> 16"
  "length (outbox_status_value f) \<le> 16"
  by ((cases a; simp), (cases b; simp), (cases c; simp), (cases e; simp), (cases f; simp))

lemma fits_opt [simp]:
  "column_fits c (sql_opt f x) \<longleftrightarrow>
    (case x of None \<Rightarrow> cd_nullable c | Some a \<Rightarrow> column_fits c (f a))"
  by (cases x) (simp_all add: sql_opt_def column_fits_def)

lemmas conform_defs = row_conforms_def column_defs column_fits_def

lemma client_conforms:
  "row_conforms clients_table (client_values r) \<longleftrightarrow> client_fits r \<and> int64 (cl_client_id r)"
  by (auto simp: conform_defs clients_table_def client_values_def client_fits_def)

lemma address_conforms:
  "row_conforms address_table (address_values r) \<longleftrightarrow>
     address_fits r \<and> int64 (ad_address_id r) \<and> int64 (ad_client_id r)"
  by (auto simp: row_conforms_def address_table_def address_values_def address_fits_def)
    (auto simp: column_defs column_fits_def split: option.splits)

lemma order_conforms:
  "row_conforms orders_table (order_values r) \<longleftrightarrow>
     order_fits r \<and> int64 (or_order_id r) \<and> int64 (or_client_id r)
     \<and> int64 (or_shipping_address_id r) \<and> int64 (or_billing_address_id r)"
  by (auto simp: row_conforms_def orders_table_def order_values_def order_fits_def)
    (auto simp: column_defs column_fits_def numeric_19_4_def split: option.splits)

lemma item_conforms:
  "row_conforms order_items_table (item_values r) \<longleftrightarrow>
     item_fits r \<and> int64 (it_order_item_id r) \<and> int64 (it_order_id r)"
  by (auto simp: conform_defs order_items_table_def item_values_def item_fits_def numeric_19_4_def)

lemma payment_conforms:
  "row_conforms payment_table (payment_values r) \<longleftrightarrow>
     payment_fits r \<and> int64 (pa_payment_id r) \<and> int64 (pa_order_id r)"
  by (auto simp: row_conforms_def payment_table_def payment_values_def payment_fits_def)
    (auto simp: column_defs column_fits_def numeric_19_4_def split: option.splits)

lemma invoice_conforms:
  "row_conforms invoices_table (invoice_values r) \<longleftrightarrow>
     invoice_fits r \<and> int64 (in_invoice_id r) \<and> int64 (in_order_id r) \<and> length (in_status r) \<le> 16"
  by (auto simp: conform_defs invoices_table_def invoice_values_def invoice_fits_def numeric_19_4_def)

lemma event_conforms:
  "row_conforms processed_events_table (event_values r) \<longleftrightarrow>
     processed_event_fits r \<and> int32 (pe_attempt_count r)"
  by (auto simp: conform_defs processed_events_table_def event_values_def processed_event_fits_def)

lemma outbox_conforms:
  "row_conforms outbox_table (outbox_values r) \<longleftrightarrow>
     outbox_fits r \<and> int64 (ob_outbox_id r) \<and> int32 (ob_attempts r)
     \<and> (case ob_locked_by r of None \<Rightarrow> True | Some s \<Rightarrow> length s \<le> 64)
     \<and> (case ob_last_error r of None \<Rightarrow> True | Some s \<Rightarrow> length s \<le> 1000)"
  by (auto simp: row_conforms_def outbox_table_def outbox_values_def outbox_fits_def)
    (auto simp: column_defs column_fits_def split: option.splits)

section \<open>Which constraints a row violates\<close>

lemma taken_single [simp]: "taken [c] (map f rs) r \<longleftrightarrow> field r c \<in> (\<lambda>q. field (f q) c) ` set rs"
  by (simp add: taken_def same_fields_def image_iff eq_commute [of "field r c"])

lemma taken_pair [simp]:
  "taken [c, e] (map f rs) r \<longleftrightarrow> (\<exists>q \<in> set rs. field (f q) c = field r c \<and> field (f q) e = field r e)"
  by (auto simp: taken_def same_fields_def)

lemma taken_where:
  "taken [c] (filter P (map f rs)) r \<longleftrightarrow> (\<exists>q \<in> set rs. P (f q) \<and> field (f q) c = field r c)"
  by (auto simp: taken_def same_fields_def)

lemma passes_true [simp]: "passes (Some (Filter_True c)) = (\<lambda>r. field r c = Sql_Bool True)"
  by (rule ext) simp

lemma wrapped_mem [simp]:
  "Sql_Int x \<in> (\<lambda>q. Sql_Int (g q)) ` S \<longleftrightarrow> x \<in> g ` S" "Sql_Text y \<in> (\<lambda>q. Sql_Text (h q)) ` S \<longleftrightarrow> y \<in> h ` S"
  by auto

lemma table_indexes [simp]:
  "filter (\<lambda>i. ix_table i = ''clients'') (ca_indexes head_catalog) = [plain_index ''ix_clients_client_uid'' ''clients'' [''client_uid'']]"
  "filter (\<lambda>i. ix_table i = ''address'') (ca_indexes head_catalog)
    = [plain_index ''ix_address_client'' ''address'' [''client_id''], current_address_index]"
  "filter (\<lambda>i. ix_table i = ''orders'') (ca_indexes head_catalog)
    = [plain_index ''ix_orders_order_uid'' ''orders'' [''order_uid''], plain_index ''ix_orders_status'' ''orders'' [''status'']]"
  "filter (\<lambda>i. ix_table i = ''order_items'') (ca_indexes head_catalog) = [plain_index ''ix_order_items_order'' ''order_items'' [''order_id'']]"
  "filter (\<lambda>i. ix_table i = ''payment'') (ca_indexes head_catalog) = [plain_index ''ix_payment_order'' ''payment'' [''order_id'']]"
  "filter (\<lambda>i. ix_table i = ''invoices'') (ca_indexes head_catalog) = []"
  "filter (\<lambda>i. ix_table i = ''processed_events'') (ca_indexes head_catalog) = []"
  "filter (\<lambda>i. ix_table i = ''outbox'') (ca_indexes head_catalog) = [dispatchable_index]"
  by (simp_all add: head_catalog_def plain_index_def current_address_index_def dispatchable_index_def columnstore_index_def)

lemma plain_never_violated [simp]:
  "index_violated db r (plain_index n t cols) = (n, False)" "index_violated db r dispatchable_index = (''ix_outbox_dispatchable'', False)"
  by (simp_all add: index_violated_def plain_index_def dispatchable_index_def)

lemma current_violated [simp]:
  "index_violated db r current_address_index =
     (''ux_address_uid_current'', field r ''is_current'' = Sql_Bool True
        \<and> taken [''address_uid''] (filter (\<lambda>q. field q ''is_current'' = Sql_Bool True) (db ''address'')) r)"
  by (simp add: index_violated_def current_address_index_def plain_index_def)

lemmas demand_defs = demands_def image_image field_def

lemma client_demands:
  "demands head_catalog (contents_of d) clients_table (client_values r) =
    [(''pk_clients'', cl_client_id r \<in> cl_client_id ` set (clients d)),
     (''uq_clients_client_uid'', cl_client_uid r \<in> cl_client_uid ` set (clients d)),
     (''ix_clients_client_uid'', False)]"
  by (simp add: demand_defs clients_table_def client_values_def)

lemma address_demands:
  "demands head_catalog (contents_of d) address_table (address_values r) =
    [(''pk_address'', ad_address_id r \<in> ad_address_id ` set (addresses d)),
     (''fk_address_client'', ad_client_id r \<notin> cl_client_id ` set (clients d)),
     (''ix_address_client'', False),
     (''ux_address_uid_current'', ad_is_current r \<and>
        (\<exists>a \<in> set (addresses d). ad_is_current a \<and> ad_address_uid a = ad_address_uid r))]"
  by (simp add: demand_defs taken_where address_table_def address_values_def client_values_def)

lemma order_demands:
  "demands head_catalog (contents_of d) orders_table (order_values r) =
    [(''pk_orders'', or_order_id r \<in> or_order_id ` set (orders d)),
     (''uq_orders_order_uid'', or_order_uid r \<in> or_order_uid ` set (orders d)),
     (''fk_orders_client'', or_client_id r \<notin> cl_client_id ` set (clients d)),
     (''fk_orders_shipping_address'', or_shipping_address_id r \<notin> ad_address_id ` set (addresses d)),
     (''fk_orders_billing_address'', or_billing_address_id r \<notin> ad_address_id ` set (addresses d)),
     (''ck_orders_status'', False),
     (''ck_orders_total_positive'', or_total_amount r < 0),
     (''ix_orders_order_uid'', False), (''ix_orders_status'', False)]"
  by (cases "or_status r")
    (simp_all add: demand_defs orders_table_def order_values_def client_values_def address_values_def)

lemma item_demands:
  "demands head_catalog (contents_of d) order_items_table (item_values r) =
    [(''pk_order_items'', it_order_item_id r \<in> it_order_item_id ` set (order_items d)),
     (''fk_order_items_order'', it_order_id r \<notin> or_order_id ` set (orders d)),
     (''ix_order_items_order'', False)]"
  by (simp add: demand_defs order_items_table_def item_values_def order_values_def)

lemma payment_demands:
  "demands head_catalog (contents_of d) payment_table (payment_values r) =
    [(''pk_payment'', pa_payment_id r \<in> pa_payment_id ` set (payments d)),
     (''fk_payment_order'', pa_order_id r \<notin> or_order_id ` set (orders d)),
     (''ux_payment_provider_tx'',
        \<exists>p \<in> set (payments d). pa_provider p = pa_provider r \<and> pa_provider_tx_id p = pa_provider_tx_id r),
     (''ck_payment_method'', False), (''ix_payment_order'', False)]"
  by (cases "pa_method r") (simp_all add: demand_defs payment_table_def payment_values_def order_values_def)

lemma invoice_demands:
  "demands head_catalog (contents_of d) invoices_table (invoice_values r) =
    [(''pk_invoices'', in_invoice_id r \<in> in_invoice_id ` set (invoices d)),
     (''fk_invoices_order'', in_order_id r \<notin> or_order_id ` set (orders d)),
     (''ux_invoice_order'', in_order_id r \<in> in_order_id ` set (invoices d)),
     (''ux_invoice_number_series'',
        \<exists>v \<in> set (invoices d). in_invoice_number v = in_invoice_number r \<and> in_series v = in_series r)]"
  by (simp add: demand_defs invoices_table_def invoice_values_def order_values_def)

lemma event_demands:
  "demands head_catalog (contents_of d) processed_events_table (event_values r) =
    [(''pk_processed_events'', pe_event_id r \<in> pe_event_id ` set (processed_events d))]"
  by (simp add: demand_defs processed_events_table_def event_values_def)

lemma outbox_demands:
  "demands head_catalog (contents_of d) outbox_table (outbox_values r) =
    [(''pk_outbox'', ob_outbox_id r \<in> ob_outbox_id ` set (outbox d)), (''ix_outbox_dispatchable'', False)]"
  by (simp add: demand_defs outbox_table_def outbox_values_def)

section \<open>The statements answer as the catalogue does\<close>

lemma table_names [simp]:
  "td_name clients_table = ''clients''" "td_name address_table = ''address''"
  "td_name orders_table = ''orders''" "td_name order_items_table = ''order_items''"
  "td_name payment_table = ''payment''" "td_name invoices_table = ''invoices''"
  "td_name processed_events_table = ''processed_events''" "td_name outbox_table = ''outbox''"
  by (simp_all add: clients_table_def address_table_def orders_table_def order_items_table_def
      payment_table_def invoices_table_def processed_events_table_def outbox_table_def)

lemma insert_client_answers:
  assumes "db_keys d" and "int64 (client_seq d)"
  shows "answers_as head_catalog (contents_of d) clients_table
    (client_values (r\<lparr>cl_client_id := client_seq d\<rparr>)) (fst (insert_client r d))"
proof -
  have "client_seq d \<notin> cl_client_id ` set (clients d)"
    using assms(1) by (simp add: db_keys_def keyed_less)
  with assms(2-) show ?thesis
    unfolding insert_client_def Let_def
    by (intro checked_insert_answers) (simp_all add: client_conforms violations_def client_demands not_le)
qed

lemma insert_address_answers:
  assumes "db_keys d" and "int64 (address_seq d)" and "int64 (ad_client_id r)"
  shows "answers_as head_catalog (contents_of d) address_table
    (address_values (r\<lparr>ad_address_id := address_seq d\<rparr>)) (fst (insert_address r d))"
proof -
  have "address_seq d \<notin> ad_address_id ` set (addresses d)"
    using assms(1) by (simp add: db_keys_def keyed_less)
  with assms(2-) show ?thesis
    unfolding insert_address_def Let_def
    by (intro checked_insert_answers) (simp_all add: address_conforms violations_def address_demands not_le)
qed

lemma insert_order_answers:
  assumes "db_keys d" and "int64 (order_seq d)" and "int64 (or_client_id r)" and "int64 (or_shipping_address_id r)" and "int64 (or_billing_address_id r)"
  shows "answers_as head_catalog (contents_of d) orders_table
    (order_values (r\<lparr>or_order_id := order_seq d\<rparr>)) (fst (insert_order r d))"
proof -
  have "order_seq d \<notin> or_order_id ` set (orders d)"
    using assms(1) by (simp add: db_keys_def keyed_less)
  with assms(2-) show ?thesis
    unfolding insert_order_def Let_def
    by (intro checked_insert_answers) (simp_all add: order_conforms violations_def order_demands not_le)
qed

lemma insert_payment_answers:
  assumes "db_keys d" and "int64 (payment_seq d)" and "int64 (pa_order_id r)"
  shows "answers_as head_catalog (contents_of d) payment_table
    (payment_values (r\<lparr>pa_payment_id := payment_seq d\<rparr>)) (fst (insert_payment r d))"
proof -
  have "payment_seq d \<notin> pa_payment_id ` set (payments d)"
    using assms(1) by (simp add: db_keys_def keyed_less)
  with assms(2-) show ?thesis
    unfolding insert_payment_def Let_def
    by (intro checked_insert_answers) (simp_all add: payment_conforms violations_def payment_demands not_le)
qed

lemma insert_invoice_answers:
  assumes "db_keys d" and "int64 (invoice_seq d)" and "int64 (in_order_id r)" and "length (in_status r) \<le> 16"
  shows "answers_as head_catalog (contents_of d) invoices_table
    (invoice_values (r\<lparr>in_invoice_id := invoice_seq d\<rparr>)) (fst (insert_invoice r d))"
proof -
  have "invoice_seq d \<notin> in_invoice_id ` set (invoices d)"
    using assms(1) by (simp add: db_keys_def keyed_less)
  with assms(2-) show ?thesis
    unfolding insert_invoice_def Let_def
    by (intro checked_insert_answers) (simp_all add: invoice_conforms violations_def invoice_demands not_le)
qed

lemma insert_outbox_answers:
  assumes "db_keys d" and "int64 (outbox_seq d)" and "int32 (ob_attempts r)" and "ob_locked_by r = None" and "ob_last_error r = None"
  shows "answers_as head_catalog (contents_of d) outbox_table
    (outbox_values (r\<lparr>ob_outbox_id := outbox_seq d\<rparr>)) (fst (insert_outbox r d))"
proof -
  have "outbox_seq d \<notin> ob_outbox_id ` set (outbox d)"
    using assms(1) by (simp add: db_keys_def keyed_less)
  with assms(2-) show ?thesis
    unfolding insert_outbox_def Let_def
    by (intro checked_insert_answers) (simp_all add: outbox_conforms violations_def outbox_demands not_le)
qed

lemma insert_event_answers:
  assumes "int32 (pe_attempt_count r)"
  shows "answers_as head_catalog (contents_of d) processed_events_table (event_values r) (fst (insert_processed_event r d))"
  using assms unfolding insert_processed_event_def
  by (intro checked_insert_answers) (simp_all add: event_conforms violations_def event_demands)

text \<open>The trigger of the items runs after their constraints.\<close>

lemma insert_item_answers:
  assumes "db_keys d" and "int64 (item_seq d)" and "int64 (it_order_id r)"
  shows "answers_as head_catalog (contents_of d) order_items_table
    (item_values (r\<lparr>it_order_item_id := item_seq d\<rparr>)) (fst (insert_item r d))"
proof -
  let ?row = "r\<lparr>it_order_item_id := item_seq d\<rparr>"
  let ?insert = "checked_insert (item_fits ?row) ''order_items''
    [(''fk_order_items_order'', it_order_id ?row \<notin> or_order_id ` set (orders d))]
    (\<lambda>d. d\<lparr>item_seq := item_seq d + 1\<rparr>) (\<lambda>d. d\<lparr>order_items := order_items d @ [?row]\<rparr>) ?row"
  have "item_seq d \<notin> it_order_item_id ` set (order_items d)"
    using assms(1) by (simp add: db_keys_def keyed_less)
  with assms(2-) have "answers_as head_catalog (contents_of d) order_items_table (item_values ?row) (fst (?insert d))"
    by (intro checked_insert_answers) (simp_all add: item_conforms violations_def item_demands)
  then show ?thesis
    unfolding insert_item_def Let_def
    by (cases "?insert d") (auto simp: bnd_def retroactive_items_def split: sum.splits)
qed

text \<open>The counters are BIGINT values.\<close>

definition counters_fit :: "db \<Rightarrow> bool" where
  "counters_fit d \<longleftrightarrow> list_all int64 [client_seq d, address_seq d, order_seq d, item_seq d, payment_seq d,
     invoice_seq d, outbox_seq d]"


text \<open>On an empty database: a client is stored, an order without its client is refused.\<close>

definition first_client :: client_row where
  "first_client = \<lparr>cl_client_id = 0, cl_client_uid = ''C1'', cl_full_name = ''Ana'', cl_document = ''1'',
     cl_email = ''ana@x.br'', cl_created_at = 1, cl_updated_at = 1\<rparr>"

definition first_address :: address_row where
  "first_address = \<lparr>ad_address_id = 0, ad_address_uid = ''A1'', ad_client_id = 1, ad_street = ''Rua'', ad_number = ''1'',
     ad_complement = None, ad_district = ''Centro'', ad_city = ''Recife'', ad_state = ''PE'', ad_zip_code = ''50000000'',
     ad_valid_from = 1, ad_valid_to = None, ad_is_current = True\<rparr>"

definition first_order :: order_row where
  "first_order = \<lparr>or_order_id = 0, or_order_uid = ''O1'', or_client_id = 1, or_shipping_address_id = 1,
     or_billing_address_id = 1, or_status = OrdPENDING, or_currency = ''BRL'', or_total_amount = 10, or_placed_at = 1,
     or_closed_at = None, or_source_event_id = ''e'', or_created_at = 1\<rparr>"

definition first_item :: item_row where
  "first_item = \<lparr>it_order_item_id = 0, it_order_id = 1, it_sku = ''S'', it_description = ''D'', it_quantity = 1,
     it_unit_price = 10, it_line_total = 10\<rparr>"

definition first_payment :: payment_row where
  "first_payment = \<lparr>pa_payment_id = 0, pa_order_id = 1, pa_provider = ''P'', pa_provider_tx_id = ''T'', pa_method = PIX,
     pa_status = PayPENDING, pa_amount = 10, pa_authorized_at = None, pa_approved_at = None, pa_created_at = 1\<rparr>"

definition first_invoice :: invoice_row where
  "first_invoice = \<lparr>in_invoice_id = 0, in_order_id = 1, in_invoice_number = ''N'', in_series = ''1'', in_access_key = ''K'',
     in_issued_at = 1, in_total_amount = 10, in_status = ''ISSUED'', in_created_at = 1\<rparr>"

definition first_event :: processed_event_row where
  "first_event = \<lparr>pe_event_id = ''e'', pe_event_type = ''t'', pe_payload_hash = ''h'', pe_status = EvDONE,
     pe_attempt_count = 1, pe_processed_at = 1\<rparr>"

definition first_message :: outbox_row where
  "first_message = \<lparr>ob_outbox_id = 0, ob_aggregate_type = ''order'', ob_aggregate_id = ''O1'', ob_event_type = ''t'',
     ob_payload = JNull, ob_status = ObPENDING, ob_attempts = 0, ob_next_attempt_at = 1, ob_locked_by = None,
     ob_locked_at = None, ob_last_error = None, ob_created_at = 1, ob_sent_at = None\<rparr>"


end
