(* ===== verification/Migration_Env.thy ===== *)
theory Migration_Env
  imports Migrations Settings "HOL-Library.AList"
begin

text \<open>
  src/migrations/env.py with the [alembic] section of alembic.ini: how the database URL passes through
  configparser, whose options are templates, and the two ways of running. The revisions that Alembic
  chooses to run are an argument; a database is the catalogue behind its URL.
\<close>

section \<open>Options as configparser reads and writes them\<close>

datatype env_error =
    Invalid_Interpolation | Interpolation_Syntax | Missing_Option string | Interpolation_Depth
  | No_Url | Ddl_Failed ddl_error

abbreviation percent :: char where "percent \<equiv> CHR ''%''"

text \<open>\<open>str.replace("%", "%%")\<close>.\<close>

definition double_percent :: "string \<Rightarrow> string" where
  "double_percent s = concat (map (\<lambda>c. if c = percent then [percent, percent] else [c]) s)"

text \<open>The rest of a reference \<open>%(name)s\<close> after its parenthesis.\<close>

definition var_ref :: "string \<Rightarrow> (string \<times> string) option" where
  "var_ref s =
     (let n = takeWhile (\<lambda>c. c \<noteq> CHR '')'') s in
      case dropWhile (\<lambda>c. c \<noteq> CHR '')'') s of
        a # b # rest \<Rightarrow> if n \<noteq> [] \<and> b = CHR ''s'' then Some (n, rest) else None
      | _ \<Rightarrow> None)"

lemma var_ref_shorter: "var_ref s = Some (n, r) \<Longrightarrow> length r < length s"
proof -
  assume "var_ref s = Some (n, r)"
  then obtain a b where "dropWhile (\<lambda>c. c \<noteq> CHR '')'') s = a # b # r"
    by (auto simp: var_ref_def Let_def split: list.splits if_splits)
  moreover have "length (dropWhile (\<lambda>c. c \<noteq> CHR '')'') s) \<le> length s" by (rule length_dropWhile_le)
  ultimately show ?thesis by simp
qed

text \<open>
  \<open>BasicInterpolation.before_get\<close>; the number is how many more references may be nested.
\<close>

definition lower_char :: "char \<Rightarrow> char" where
  "lower_char c = (let n = of_char c :: nat in if 65 \<le> n \<and> n \<le> 90 then char_of (n + 32) else c)"

definition then_append :: "env_error + string \<Rightarrow> env_error + string \<Rightarrow> env_error + string" where
  "then_append x y = (case x of Inl e \<Rightarrow> Inl e | Inr a \<Rightarrow> (case y of Inl e \<Rightarrow> Inl e | Inr b \<Rightarrow> Inr (a @ b)))"

function interpolate :: "nat \<Rightarrow> (string \<Rightarrow> string option) \<Rightarrow> string \<Rightarrow> env_error + string" where
  "interpolate d m [] = Inr []"
| "interpolate d m (c # cs) =
     (if c \<noteq> percent then then_append (Inr [c]) (interpolate d m cs)
      else case cs of
        [] \<Rightarrow> Inl Interpolation_Syntax
      | e # rest \<Rightarrow>
          if e = percent then then_append (Inr [percent]) (interpolate d m rest)
          else if e = CHR ''('' then
            (case var_ref rest of
               None \<Rightarrow> Inl Interpolation_Syntax
             | Some (n, r) \<Rightarrow>
                 (case m (map lower_char n) of
                    None \<Rightarrow> Inl (Missing_Option n)
                  | Some v \<Rightarrow>
                      if percent \<in> set v
                      then (case d of 0 \<Rightarrow> Inl Interpolation_Depth
                            | Suc k \<Rightarrow> then_append (interpolate k m v) (interpolate d m r))
                      else then_append (Inr v) (interpolate d m r)))
          else Inl Interpolation_Syntax)"
  by pat_completeness auto

termination
  by (relation "measures [\<lambda>(d, m, s). d, \<lambda>(d, m, s). length s]") (auto dest: var_ref_shorter)

text \<open>\<open>BasicInterpolation.before_set\<close>: what is left without doubled signs and references has no sign.\<close>

fun drop_doubled :: "string \<Rightarrow> string" where
  "drop_doubled (a # b # s) =
     (if a = percent \<and> b = percent then drop_doubled s else a # drop_doubled (b # s))"
| "drop_doubled s = s"

function drop_refs :: "string \<Rightarrow> string" where
  "drop_refs [] = []"
| "drop_refs (c # s) =
     (case (if c = percent \<and> s \<noteq> [] \<and> hd s = CHR ''('' then var_ref (tl s) else None) of
        None \<Rightarrow> c # drop_refs s
      | Some (n, r) \<Rightarrow> drop_refs r)"
  by pat_completeness auto

termination
proof (relation "measure length")
  fix c :: char and s :: string and p :: "string \<times> string" and n r
  assume "(if c = percent \<and> s \<noteq> [] \<and> hd s = CHR ''('' then var_ref (tl s) else None) = Some p" and "(n, r) = p"
  then have "length r < length (tl s)" using var_ref_shorter by (metis option.distinct(1))
  then show "(r, c # s) \<in> measure length" by simp
qed simp_all

definition settable :: "string \<Rightarrow> bool" where
  "settable v \<longleftrightarrow> percent \<notin> set (drop_refs (drop_doubled v))"

definition max_nesting :: nat where
  "max_nesting = 9"

type_synonym ini = "(string \<times> string) list"

definition set_main_option :: "string \<Rightarrow> string \<Rightarrow> ini \<Rightarrow> env_error + ini" where
  "set_main_option n v i = (if settable v then Inr (AList.update n v i) else Inl Invalid_Interpolation)"

definition get_main_option :: "string \<Rightarrow> ini \<Rightarrow> env_error + string option" where
  "get_main_option n i = (case map_of i n of
     None \<Rightarrow> Inr None
   | Some raw \<Rightarrow> (case interpolate max_nesting (map_of i) raw of Inl e \<Rightarrow> Inl e | Inr v \<Rightarrow> Inr (Some v)))"

primrec get_options :: "ini \<Rightarrow> ini \<Rightarrow> env_error + ini" where
  "get_options i [] = Inr []"
| "get_options i (kv # kvs) =
     (case interpolate max_nesting (map_of i) (snd kv) of
        Inl e \<Rightarrow> Inl e
      | Inr v \<Rightarrow> (case get_options i kvs of Inl e \<Rightarrow> Inl e | Inr r \<Rightarrow> Inr ((fst kv, v) # r)))"

definition get_section :: "ini \<Rightarrow> env_error + ini" where
  "get_section i = get_options i i"

definition alembic_ini :: ini where
  "alembic_ini = [(''script_location'', ''migrations''), (''prepend_sys_path'', ''.''),
     (''file_template'', ''%%(rev)s_%%(slug)s''), (''timezone'', ''UTC'')]"

section \<open>env.py\<close>

record migration_world =
  mw_servers :: "string \<Rightarrow> catalog"
  mw_script :: "(string option \<times> ddl list) list"

definition run_migrations_offline :: "ddl list \<Rightarrow> ini \<Rightarrow> migration_world \<Rightarrow> (env_error + unit) \<times> migration_world" where
  "run_migrations_offline ops i w =
     (case get_main_option ''sqlalchemy.url'' i of
        Inl e \<Rightarrow> (Inl e, w)
      | Inr url \<Rightarrow> (Inr (), w\<lparr>mw_script := mw_script w @ [(url, ops)]\<rparr>))"

text \<open>The revisions run in one transaction: an error takes back what they did.\<close>

definition run_migrations_online :: "ddl list \<Rightarrow> ini \<Rightarrow> migration_world \<Rightarrow> (env_error + unit) \<times> migration_world" where
  "run_migrations_online ops i w =
     (case get_section i of
        Inl e \<Rightarrow> (Inl e, w)
      | Inr opts \<Rightarrow>
          (case map_of opts ''sqlalchemy.url'' of
             None \<Rightarrow> (Inl No_Url, w)
           | Some url \<Rightarrow>
               (case run_ddl ops (mw_servers w url) of
                  Inl e \<Rightarrow> (Inl (Ddl_Failed e), w)
                | Inr c \<Rightarrow> (Inr (), w\<lparr>mw_servers := (mw_servers w)(url := c)\<rparr>))))"

definition env_main :: "settings \<Rightarrow> bool \<Rightarrow> ddl list \<Rightarrow> ini \<Rightarrow> migration_world \<Rightarrow> (env_error + unit) \<times> migration_world" where
  "env_main s offline ops i w =
     (case set_main_option ''sqlalchemy.url'' (double_percent (database_url s)) i of
        Inl e \<Rightarrow> (Inl e, w)
      | Inr j \<Rightarrow> if offline then run_migrations_offline ops j w else run_migrations_online ops j w)"

section \<open>The URL arrives as it is\<close>

lemma double_percent_simps [simp]:
  "double_percent [] = []"
  "double_percent (c # s) = (if c = percent then percent # percent # double_percent s else c # double_percent s)"
  by (simp_all add: double_percent_def)

lemma interpolate_doubled: "interpolate d m (double_percent s) = Inr s"
  by (induction s) (simp_all add: then_append_def)

lemma drop_doubled_other: "c \<noteq> percent \<Longrightarrow> drop_doubled (c # s) = c # drop_doubled s"
  by (cases s) simp_all

lemma drop_doubled_doubled: "drop_doubled (double_percent s) = filter (\<lambda>c. c \<noteq> percent) s"
  by (induction s) (simp_all add: drop_doubled_other)

lemma drop_refs_clean: "percent \<notin> set s \<Longrightarrow> drop_refs s = s"
  by (induction s) auto

lemma settable_doubled: "settable (double_percent s)"
  by (simp add: settable_def drop_doubled_doubled drop_refs_clean)

text \<open>A sign that is neither doubled nor part of a reference is refused.\<close>

lemma unescaped_refused: "\<not> settable ''mssql+pyodbc://sa:p%40ss@db:1433/ecommerce_ops''"
  by code_simp

lemma url_section:
  assumes "interpolate max_nesting (map_of (alembic_ini @ [(''sqlalchemy.url'', v)])) v = Inr u"
  shows "get_section (AList.update ''sqlalchemy.url'' v alembic_ini) =
    Inr [(''script_location'', ''migrations''), (''prepend_sys_path'', ''.''),
      (''file_template'', ''%(rev)s_%(slug)s''), (''timezone'', ''UTC''), (''sqlalchemy.url'', u)]"
  using assms by (simp add: get_section_def alembic_ini_def then_append_def)

lemma online_run:
  "env_main s False ops alembic_ini w =
      (case run_ddl ops (mw_servers w (database_url s)) of
         Inl e \<Rightarrow> (Inl (Ddl_Failed e), w)
       | Inr c \<Rightarrow> (Inr (), w\<lparr>mw_servers := (mw_servers w)(database_url s := c)\<rparr>))"
  by (simp add: env_main_def set_main_option_def settable_doubled run_migrations_online_def
      url_section [OF interpolate_doubled])

lemma offline_run:
  "env_main s True ops alembic_ini w = (Inr (), w\<lparr>mw_script := mw_script w @ [(Some (database_url s), ops)]\<rparr>)"
  by (simp add: env_main_def set_main_option_def settable_doubled run_migrations_offline_def
      get_main_option_def update_conv' interpolate_doubled)

text \<open>
  C20. Whatever the settings, a password with percent signs included, the migrations run against the
  database of the services: online they change the catalogue behind exactly that URL, all of their
  statements or, when one is refused, none; offline they print the script for that URL and change no
  database. On a database that has none of their objects the upgrade adds them, and running it again is
  refused and changes nothing.
\<close>

theorem migrations_reach_the_services_database:
  assumes "closed_catalog (mw_servers w (database_url s))"
    and "program_objects \<inter> set (objects (mw_servers w (database_url s))) = {}"
    and "w' = w\<lparr>mw_servers := (mw_servers w)(database_url s := beside (mw_servers w (database_url s)) head_catalog)\<rparr>"
  shows "env_main s False ops alembic_ini v =
      (case run_ddl ops (mw_servers v (database_url s)) of
         Inl e \<Rightarrow> (Inl (Ddl_Failed e), v)
       | Inr c \<Rightarrow> (Inr (), v\<lparr>mw_servers := (mw_servers v)(database_url s := c)\<rparr>))
    \<and> env_main s True ops alembic_ini v =
      (Inr (), v\<lparr>mw_script := mw_script v @ [(Some (database_url s), ops)]\<rparr>)
    \<and> env_main s False upgrade_to_head alembic_ini w = (Inr (), w')
    \<and> env_main s False upgrade_to_head alembic_ini w' = (Inl (Ddl_Failed (Already_There ''clients'')), w')"
proof -
  have clear: "\<Union> (names_of_ddl ` set upgrade_to_head) \<inter> set (objects (mw_servers w (database_url s))) = {}"
    using assms(2) by (auto simp: program_objects_def)
  have first: "env_main s False upgrade_to_head alembic_ini w = (Inr (), w')"
    using run_ddl_beside [OF assms(1) clear upgrade_empty] by (simp add: online_run assms(3))
  have "mw_servers w' (database_url s) = beside (mw_servers w (database_url s)) head_catalog"
    by (simp add: assms(3))
  then have again: "env_main s False upgrade_to_head alembic_ini w' = (Inl (Ddl_Failed (Already_There ''clients'')), w')"
    by (simp add: online_run upgrade_twice)
  from online_run offline_run first again show ?thesis by (intro conjI)
qed

text \<open>A password with the delimiters of a URL, on a server with another program's tables.\<close>

definition percent_settings :: settings where
  "percent_settings = default_settings\<lparr>mssql_password := ''p@ss/100%''\<rparr>"

definition shared_world :: migration_world where
  "shared_world = \<lparr>mw_servers = (\<lambda>url. shared_catalog), mw_script = []\<rparr>"

theorem migrations_reach_the_services_database_witness:
  "percent \<in> set (database_url percent_settings)
    \<and> (\<exists>w'. env_main percent_settings False upgrade_to_head alembic_ini shared_world = (Inr (), w')
        \<and> mw_servers w' (database_url percent_settings) = beside shared_catalog head_catalog)"
proof -
  have "closed_catalog shared_catalog" "program_objects \<inter> set (objects shared_catalog) = {}" by code_simp+
  then have w: "closed_catalog (mw_servers shared_world u)" "program_objects \<inter> set (objects (mw_servers shared_world u)) = {}" for u
    by (simp_all add: shared_world_def)
  have "percent \<in> set (database_url percent_settings)" by code_simp
  moreover have "env_main percent_settings False upgrade_to_head alembic_ini shared_world = (Inr (),
      shared_world\<lparr>mw_servers := (mw_servers shared_world)(database_url percent_settings :=
        beside (mw_servers shared_world (database_url percent_settings)) head_catalog)\<rparr>)"
    using migrations_reach_the_services_database [OF w refl] by blast
  ultimately show ?thesis by (auto simp: shared_world_def)
qed

end
