(* ===== verification/Dispatch_Progress.thy ===== *)
theory Dispatch_Progress
  imports Attempts_Claims
begin

text \<open>
  The loop of the dispatch worker (src/dispatch_worker/main.py) and its progress: how many turns it
  takes until no message waits, whatever readable answers the ERP gives, and that a turn which
  releases stale locks recovers what a dead worker left in flight.
\<close>

section \<open>The loop\<close>

text \<open>
  What one turn meets: its clock and commits, the rows the server lets it lock, the answers of the ERP
  in the order of their completion, and a time by which the last answer has been recorded.
\<close>

record poll_input =
  pi_env :: dispatch_env
  pi_visible :: "outbox_row \<Rightarrow> bool"
  pi_answers :: "outbox_item list \<Rightarrow> (outbox_item \<times> http_result \<times> dispatch_env) list"
  pi_until :: ts

text \<open>The turns until the stop flag is seen; an exception ends the loop.\<close>

primrec poll_until_stopped ::
  "settings \<Rightarrow> (json \<Rightarrow> string) \<Rightarrow> string \<Rightarrow> nat \<Rightarrow> poll_input list \<Rightarrow> db \<Rightarrow> (exn + unit) \<times> db" where
  "poll_until_stopped s str_of worker cycle [] d = (Inr (), d)"
| "poll_until_stopped s str_of worker cycle (c # cs) d =
     (case poll_cycle s str_of worker (cycle + 1) (pi_env c) (pi_visible c) (pi_answers c) d of
        (Inl x, d1) \<Rightarrow> (Inl x, d1)
      | (Inr _, d1) \<Rightarrow> poll_until_stopped s str_of worker (cycle + 1) cs d1)"

section \<open>What is left to do\<close>

definition waiting :: "outbox_row \<Rightarrow> bool" where
  "waiting r \<longleftrightarrow> ob_status r = ObPENDING \<or> ob_status r = ObIN_FLIGHT"

definition weight :: "settings \<Rightarrow> outbox_row \<Rightarrow> nat" where
  "weight s r = (if waiting r then nat (dispatch_max_attempts s - ob_attempts r) + 1 else 0)"

definition backlog :: "settings \<Rightarrow> db \<Rightarrow> nat" where
  "backlog s d = sum_list (map (weight s) (outbox d))"

definition max_delay :: "settings \<Rightarrow> ts" where
  "max_delay s = round (max (dispatch_backoff_base_seconds s) (dispatch_backoff_max_seconds s) * 1000000)"

lemma next_attempt_le:
  assumes "0 \<le> de_random env" and "de_random env \<le> 1"
  shows "next_attempt s env i \<le> app_now (de_clock env) + max_delay s"
proof -
  let ?base = "dispatch_backoff_base_seconds s"
  have "backoff_delay n s (de_random env) \<le> max ?base (dispatch_backoff_max_seconds s)" for n
    using uniform_between [OF max.cobounded2 [of ?base "backoff_ceiling n s"] assms]
    by (auto simp: backoff_delay_def Let_def backoff_ceiling_def max_def min_def split: if_splits)
  then show ?thesis
    by (simp add: next_attempt_def max_delay_def round_mono)
qed

text \<open>An answer the worker can act on: readable, recorded, and by the time of the turn.\<close>

definition usable :: "bool \<Rightarrow> poll_input \<Rightarrow> outbox_item \<times> http_result \<times> dispatch_env \<Rightarrow> bool" where
  "usable failing c a \<longleftrightarrow>
     (case a of (i, hr, env) \<Rightarrow>
        (if failing then answer_of hr \<noteq> Unreadable else answer_of hr = Delivered)
        \<and> de_fault env = CommitOk \<and> 0 \<le> de_random env \<and> de_random env \<le> 1
        \<and> app_now (de_clock env) \<le> pi_until c)"

definition working :: "bool \<Rightarrow> poll_input \<Rightarrow> bool" where
  "working failing c \<longleftrightarrow>
     de_fault (pi_env c) = CommitOk \<and> (\<forall>r. pi_visible c r)
     \<and> (\<forall>items. fst ` set (pi_answers c items) = set items
          \<and> (\<forall>a \<in> set (pi_answers c items). usable failing c a))"

text \<open>Each turn starts when the longest backoff of the turn before it has passed.\<close>

fun paced :: "settings \<Rightarrow> ts \<Rightarrow> poll_input list \<Rightarrow> bool" where
  "paced s t [] = True"
| "paced s t (c # cs) = (t \<le> db_now (de_clock (pi_env c)) \<and> t \<le> pi_until c + max_delay s
     \<and> paced s (pi_until c + max_delay s) cs)"

section \<open>One turn\<close>

definition settled :: "settings \<Rightarrow> bool \<Rightarrow> ts \<Rightarrow> int set \<Rightarrow> outbox_row \<Rightarrow> outbox_row \<Rightarrow> bool" where
  "settled s failing b ids r q \<longleftrightarrow>
     same_message r q \<and> ob_attempts q = ob_attempts r
     \<and> (if ob_outbox_id r \<in> ids
        then (case ob_status q of
                ObSENT \<Rightarrow> True
              | ObDLQ \<Rightarrow> failing
              | ObPENDING \<Rightarrow> failing \<and> ob_attempts r < dispatch_max_attempts s \<and> ob_next_attempt_at q \<le> b
              | ObIN_FLIGHT \<Rightarrow> False)
        else q = r)"

lemma list_all2_upd_where:
  "(\<And>r. r \<in> set rs \<Longrightarrow> R r (if P r then f r else r)) \<Longrightarrow> list_all2 R rs (upd_where P f rs)"
  by (simp add: upd_where_def list_all2_conv_all_nth)

lemma list_all2_mem2: "list_all2 R xs ys \<Longrightarrow> y \<in> set ys \<Longrightarrow> \<exists>x \<in> set xs. R x y"
  by (metis in_set_conv_nth list_all2_conv_all_nth)

lemma dispatch_settles:
  assumes "usable failing c a" and "\<forall>r \<in> set (outbox d). ob_outbox_id r = ox_outbox_id (fst a) \<longrightarrow> ob_attempts r = ox_attempts (fst a)"
  shows "\<exists>d'. dispatch s str_of (snd (snd a)) (fst (snd a)) (fst a) d = (Inr (), d')
    \<and> list_all2 (settled s failing (pi_until c + max_delay s) {ox_outbox_id (fst a)}) (outbox d) (outbox d')"
proof -
  obtain i hr env where a: "a = (i, hr, env)" by (cases a)
  have ok: "de_fault env = CommitOk" "answer_of hr \<noteq> Unreadable" "\<not> failing \<Longrightarrow> answer_of hr = Delivered"
    using assms(1) by (auto simp: usable_def a split: if_splits)
  from dispatch_effect [OF ok(1), of hr s str_of i d] ok(2) obtain f where
    run: "dispatch s str_of env hr i d = (Inr (), d\<lparr>outbox := upd_where (\<lambda>r. ob_outbox_id r = ox_outbox_id i) f (outbox d)\<rparr>)"
    and f: "\<And>r. ob_status (f r) = status_after s (answer_of hr) (ox_attempts i)" "\<And>r. same_message r (f r)"
      "\<And>r. ob_attempts (f r) = ob_attempts r"
      "\<And>r. ob_status (f r) = ObPENDING \<Longrightarrow> ob_next_attempt_at (f r) = next_attempt s env i"
    by (auto split: if_splits)
  have late: "next_attempt s env i \<le> pi_until c + max_delay s"
    using next_attempt_le [of env s i] assms(1) by (simp add: usable_def a)
  have "settled s failing (pi_until c + max_delay s) {ox_outbox_id i} r
      (if ob_outbox_id r = ox_outbox_id i then f r else r)" if r: "r \<in> set (outbox d)" for r
  proof (cases "ob_outbox_id r = ox_outbox_id i")
    case True
    then have "ob_attempts r = ox_attempts i" using assms(2) r by (simp add: a)
    then show ?thesis
      using True f [of r] late ok(2,3)
      by (cases "answer_of hr") (auto simp: settled_def status_after_def split: if_splits)
  next
    case False
    then show ?thesis by (simp add: settled_def same_message_def)
  qed
  then have "list_all2 (settled s failing (pi_until c + max_delay s) {ox_outbox_id i}) (outbox d)
      (upd_where (\<lambda>r. ob_outbox_id r = ox_outbox_id i) f (outbox d))"
    by (rule list_all2_upd_where)
  with run show ?thesis by (auto simp: a)
qed

lemma settled_trans:
  "settled s failing b I r q \<Longrightarrow> settled s failing b J q p \<Longrightarrow> settled s failing b (I \<union> J) r p"
  by (auto simp: settled_def same_message_def split: if_splits outbox_status.splits)

lemma gather_settles:
  assumes "\<forall>a \<in> set as. usable failing c a"
    and "\<forall>a \<in> set as. \<forall>r \<in> set (outbox d). ob_outbox_id r = ox_outbox_id (fst a) \<longrightarrow> ob_attempts r = ox_attempts (fst a)"
  shows "\<exists>d'. gather s str_of as d = (Inr (), d')
    \<and> list_all2 (settled s failing (pi_until c + max_delay s) (ox_outbox_id ` fst ` set as)) (outbox d) (outbox d')"
  using assms
proof (induction as arbitrary: d)
  case Nil
  have "settled s failing b {} r r" for b r by (simp add: settled_def same_message_def)
  then show ?case by (auto intro: list.rel_refl_strong)
next
  case (Cons a as)
  from dispatch_settles [where s = s and str_of = str_of and failing = failing and c = c and a = a and d = d] Cons.prems
  obtain d1 where
    run: "dispatch s str_of (snd (snd a)) (fst (snd a)) (fst a) d = (Inr (), d1)"
    and first: "list_all2 (settled s failing (pi_until c + max_delay s) {ox_outbox_id (fst a)}) (outbox d) (outbox d1)"
    by auto
  have "\<exists>q \<in> set (outbox d). ob_outbox_id q = ob_outbox_id r \<and> ob_attempts q = ob_attempts r" if "r \<in> set (outbox d1)" for r
    using list_all2_mem2 [OF first that] by (auto simp: settled_def same_message_def)
  then have "\<forall>a \<in> set as. \<forall>r \<in> set (outbox d1). ob_outbox_id r = ox_outbox_id (fst a) \<longrightarrow> ob_attempts r = ox_attempts (fst a)"
    using Cons.prems(2) by (metis list.set_intros(2))
  with Cons.IH [where d = d1] Cons.prems(1) obtain d' where
    rest: "gather s str_of as d1 = (Inr (), d')"
      "list_all2 (settled s failing (pi_until c + max_delay s) (ox_outbox_id ` fst ` set as)) (outbox d1) (outbox d')"
    by auto
  have "list_all2 (settled s failing (pi_until c + max_delay s) ({ox_outbox_id (fst a)} \<union> ox_outbox_id ` fst ` set as)) (outbox d) (outbox d')"
    by (rule list_all2_trans [OF _ first rest(2)]) (rule settled_trans)
  with run rest(1) show ?case by auto
qed

lemma gather_ok: "gather s str_of as d = (res, d') \<Longrightarrow> db_ok d \<Longrightarrow> db_ok d'"
proof (induction as arbitrary: d res d')
  case (Cons a as)
  obtain x d1 where run: "dispatch s str_of (snd (snd a)) (fst (snd a)) (fst a) d = (x, d1)"
    by (cases "dispatch s str_of (snd (snd a)) (fst (snd a)) (fst a) d")
  have "db_ok d1" by (rule outbox_only_ok [OF dispatch_only [OF run] Cons.prems(2)])
  obtain y d2 where rest: "gather s str_of as d1 = (y, d2)" by (cases "gather s str_of as d1")
  have "d' = d2" using Cons.prems(1) run rest by (cases x) auto
  then show ?case using Cons.IH [OF rest \<open>db_ok d1\<close>] by simp
qed simp

text \<open>What a turn does to one row of the outbox.\<close>

definition turned :: "settings \<Rightarrow> bool \<Rightarrow> ts \<Rightarrow> outbox_row \<Rightarrow> outbox_row \<Rightarrow> bool" where
  "turned s failing b r q \<longleftrightarrow>
     same_message r q \<and> weight s q \<le> weight s r
     \<and> (waiting q \<longrightarrow> waiting r \<and> ob_next_attempt_at q \<le> max (ob_next_attempt_at r) b)
     \<and> (ob_status q = ObIN_FLIGHT \<longrightarrow> q = r)
     \<and> (\<not> waiting r \<longrightarrow> q = r)
     \<and> (ob_status q = ObDLQ \<longrightarrow> ob_status r = ObDLQ \<or> failing)"

lemma turned_refl: "turned s failing b r r"
  by (simp add: turned_def same_message_def)

lemma turnedD:
  assumes "turned s failing b r q"
  shows "same_message r q" and "weight s q \<le> weight s r" and "waiting q \<Longrightarrow> waiting r"
    and "waiting q \<Longrightarrow> ob_next_attempt_at q \<le> max (ob_next_attempt_at r) b"
    and "ob_status q = ObIN_FLIGHT \<Longrightarrow> q = r" and "\<not> waiting r \<Longrightarrow> q = r"
    and "ob_status q = ObDLQ \<Longrightarrow> ob_status r = ObDLQ \<or> failing"
  using assms unfolding turned_def by iprover+

lemma turned_trans:
  assumes "turned s failing b r q" and "turned s failing c q p" and "b \<le> c"
  shows "turned s failing c r p"
  unfolding turned_def
proof (intro conjI impI)
  show "same_message r p"
    using turnedD(1) [OF assms(1)] turnedD(1) [OF assms(2)] by (simp add: same_message_def)
  show "weight s p \<le> weight s r"
    using turnedD(2) [OF assms(1)] turnedD(2) [OF assms(2)] by simp
next
  assume "waiting p"
  then have "waiting q" "ob_next_attempt_at p \<le> max (ob_next_attempt_at q) c"
    by (rule turnedD [OF assms(2)])+
  moreover from this(1) have "waiting r" "ob_next_attempt_at q \<le> max (ob_next_attempt_at r) b"
    by (rule turnedD [OF assms(1)])+
  ultimately show "waiting r" "ob_next_attempt_at p \<le> max (ob_next_attempt_at r) c"
    using assms(3) by auto
next
  assume "ob_status p = ObIN_FLIGHT"
  with turnedD(5) [OF assms(2)] turnedD(5) [OF assms(1)] show "p = r" by simp
next
  assume "\<not> waiting r"
  with turnedD(6) [OF assms(1)] turnedD(6) [OF assms(2)] show "p = r" by simp
next
  assume "ob_status p = ObDLQ"
  with turnedD(7) [OF assms(2)] turnedD(7) [OF assms(1)] show "ob_status r = ObDLQ \<or> failing" by blast
qed

definition released :: "bool \<Rightarrow> ts \<Rightarrow> outbox_row \<Rightarrow> outbox_row" where
  "released turn now r = (if turn \<and> abandoned now stale_lock_seconds r then row_released r else r)"

lemma released_turned: "turned s failing b r (released turn now r)"
  by (auto simp: released_def turned_def same_message_def row_released_def weight_def waiting_def abandoned_def)

lemma claimed_turned:
  assumes "claimable now r1" and "settled s failing b I (row_claimed worker now r1) q" and "ob_outbox_id r1 \<in> I"
    and "r1 = released turn now r"
  shows "turned s failing b r q \<and> weight s q + 1 \<le> weight s r \<and> ob_status q \<noteq> ObIN_FLIGHT"
  using assms
  by (cases "ob_status q")
    (auto simp: settled_def released_def turned_def same_message_def row_released_def row_claimed_def weight_def
      waiting_def abandoned_def claimable_def split: if_splits)

lemma release_turn:
  assumes "de_fault env = CommitOk"
  shows "\<exists>d1. (if turn then release_abandoned env d else (Inr (), d)) = (Inr (), d1)
    \<and> outbox d1 = map (released turn (db_now (de_clock env))) (outbox d) \<and> (db_ok d \<longrightarrow> db_ok d1)"
proof (cases turn)
  case True
  then show ?thesis
    using assms release_abandoned_only [of env d] outbox_only_ok
    by (auto simp: release_abandoned_run commit_end_def released_def upd_where_def abandoned_def)
next
  case False
  then have "released turn now = (\<lambda>r. r)" for now by (simp add: released_def fun_eq_iff)
  then show ?thesis using False by simp
qed

text \<open>A turn claims what it can: at least one message if one is due and the batch is not empty.\<close>

lemma claim_turn:
  assumes "db_ok d" and "working failing c" and "1 \<le> dispatch_batch_size s"
    and "claim_batch s worker (pi_env c) (pi_visible c) d = (x, d')"
  obtains items where "x = Inr items" and "db_ok d'"
    and "outbox d' = upd_where (\<lambda>r. ob_outbox_id r \<in> ox_outbox_id ` set items)
      (row_claimed worker (db_now (de_clock (pi_env c)))) (outbox d)"
    and "\<And>r. r \<in> set (outbox d) \<Longrightarrow> ob_outbox_id r \<in> ox_outbox_id ` set items \<Longrightarrow> claimable (db_now (de_clock (pi_env c))) r"
    and "\<And>i q. i \<in> set items \<Longrightarrow> q \<in> set (outbox d') \<Longrightarrow> ob_outbox_id q = ox_outbox_id i \<Longrightarrow> ob_attempts q = ox_attempts i"
    and "\<And>r. r \<in> set (outbox d) \<Longrightarrow> claimable (db_now (de_clock (pi_env c))) r \<Longrightarrow> items \<noteq> []"
proof -
  let ?now = "db_now (de_clock (pi_env c))"
  obtain items where x: "x = Inr items"
    using assms(2,4) by (auto simp: claim_batch_run commit_end_def working_def)
  note run = assms(4) [unfolded x]
  have ok: "db_ok d'" by (rule outbox_only_ok [OF claim_batch_only [OF run] assms(1)])
  show thesis
  proof (rule that [OF x ok claim_batch_rows [OF run]])
    fix r
    assume r: "r \<in> set (outbox d)" and "ob_outbox_id r \<in> ox_outbox_id ` set items"
    with claim_batch_due [OF run] obtain q where "q \<in> set (outbox d)" "claimable ?now q" "ob_outbox_id q = ob_outbox_id r"
      by blast
    with distinct_map_eq [OF outbox_ids_distinct [OF assms(1)] _ r] show "claimable ?now r" by blast
  next
    fix i q
    assume "i \<in> set items" and q: "q \<in> set (outbox d')" "ob_outbox_id q = ox_outbox_id i"
    with claim_batch_Inr(2) [OF run] obtain p where p: "p \<in> set (outbox d')" "i = to_item p" by auto
    with distinct_map_eq [OF outbox_ids_distinct [OF ok] q(1) p(1)] q(2) have "q = p" by (simp add: to_item_def)
    with p(2) show "ob_attempts q = ox_attempts i" by (simp add: to_item_def)
  next
    fix r
    assume r: "r \<in> set (outbox d)" "claimable ?now r"
    let ?due = "filter (\<lambda>r. claimable ?now r \<and> pi_visible c r) (outbox d)"
    have "r \<in> set ?due" using r assms(2) by (simp add: working_def)
    then obtain q where "q \<in> set (take (nat (dispatch_batch_size s)) ?due)"
      using assms(3) by (cases ?due; cases "nat (dispatch_batch_size s)") auto
    then have q: "q \<in> set (outbox d)" "ob_outbox_id q \<in> set (claim_ids (nat (dispatch_batch_size s)) ?now (pi_visible c) d)"
      by (auto simp: claim_ids_def dest: in_set_takeD)
    have "ob_outbox_id ` set (outbox d') = ob_outbox_id ` set (outbox d)"
      using claim_batch_Inr(1) [OF run] by (simp add: image_upd_where row_claimed_id)
    with q(1) obtain p where "p \<in> set (outbox d')" "ob_outbox_id p = ob_outbox_id q" by (metis (no_types) imageE imageI)
    with q(2) claim_batch_Inr(2) [OF run] have "to_item p \<in> set items" by simp
    then show "items \<noteq> []" by auto
  qed
qed

lemma sum_list_less:
  assumes "list_all2 (\<lambda>x y. f y + g x \<le> f x) xs ys"
  shows "sum_list (map f ys) + sum_list (map g xs) \<le> (sum_list (map f xs) :: nat)"
  using assms by (induction rule: list_all2_induct) auto

text \<open>What a turn that claims the messages \<open>ids\<close> does to one row; one it claims loses weight.\<close>

definition stepped :: "settings \<Rightarrow> bool \<Rightarrow> ts \<Rightarrow> bool \<Rightarrow> ts \<Rightarrow> int set \<Rightarrow> outbox_row \<Rightarrow> outbox_row \<Rightarrow> bool" where
  "stepped s failing b turn now ids r q \<longleftrightarrow>
     turned s failing b r q
     \<and> weight s q + (if ob_outbox_id r \<in> ids then 1 else 0) \<le> weight s r
     \<and> (ob_status q = ObIN_FLIGHT \<longrightarrow> q = released turn now r)"

lemma released_id [simp]: "ob_outbox_id (released turn now r) = ob_outbox_id r"
  by (simp add: released_def row_released_def)

lemma stepped_row:
  assumes "ob_outbox_id r \<in> ids \<Longrightarrow> claimable now (released turn now r)"
    and st: "settled s failing b ids
      (if ob_outbox_id r \<in> ids then row_claimed worker now (released turn now r) else released turn now r) q"
  shows "stepped s failing b turn now ids r q"
proof (cases "ob_outbox_id r \<in> ids")
  case True
  have "settled s failing b ids (row_claimed worker now (released turn now r)) q" using st True by simp
  from claimed_turned [OF assms(1) [OF True] this _ refl] True show ?thesis by (simp add: stepped_def)
next
  case False
  then have "q = released turn now r" using st by (simp add: settled_def)
  then show ?thesis
    using released_turned [of s failing b r turn now] False turnedD(2) by (auto simp: stepped_def)
qed

lemma stepped_rows:
  assumes rows1: "outbox d1 = map (released turn now) (outbox d)"
    and rows2: "outbox d2 = upd_where (\<lambda>r. ob_outbox_id r \<in> ids) (row_claimed worker now) (outbox d1)"
    and rows3: "list_all2 (settled s failing b ids) (outbox d2) (outbox d3)"
    and due: "\<And>r. r \<in> set (outbox d1) \<Longrightarrow> ob_outbox_id r \<in> ids \<Longrightarrow> claimable now r"
  shows "list_all2 (stepped s failing b turn now ids) (outbox d) (outbox d3)"
proof (rule list_all2_all_nthI)
  show "length (outbox d) = length (outbox d3)" using list_all2_lengthD [OF rows3] rows1 rows2 by simp
next
  fix k
  assume k: "k < length (outbox d)"
  let ?r = "outbox d ! k"
  have "settled s failing b ids (outbox d2 ! k) (outbox d3 ! k)"
    using list_all2_nthD [OF rows3] k rows1 rows2 by simp
  then have st: "settled s failing b ids
      (if ob_outbox_id ?r \<in> ids then row_claimed worker now (released turn now ?r) else released turn now ?r) (outbox d3 ! k)"
    using k by (simp add: rows1 rows2 upd_where_def)
  have "released turn now ?r \<in> set (outbox d1)" using k by (simp add: rows1)
  from stepped_row [OF due [OF this] st] show "stepped s failing b turn now ids ?r (outbox d3 ! k)" by simp
qed

lemma poll_turn_run:
  fixes n :: nat
  assumes "db_ok d" and "working failing c" and "1 \<le> dispatch_batch_size s"
  defines "now \<equiv> db_now (de_clock (pi_env c))" and "turn \<equiv> n mod release_stale_every_n_cycles = 0"
  obtains d' and items :: "outbox_item list" where
    "poll_cycle s str_of worker n (pi_env c) (pi_visible c) (pi_answers c) d = (Inr (), d')" and "db_ok d'"
    and "list_all2 (stepped s failing (pi_until c + max_delay s) turn now (ox_outbox_id ` set items)) (outbox d) (outbox d')"
    and "ox_outbox_id ` set items \<subseteq> ob_outbox_id ` set (outbox d)"
    and "\<And>r. r \<in> set (outbox d) \<Longrightarrow> claimable now r \<Longrightarrow> items \<noteq> []"
proof -
  have commit: "de_fault (pi_env c) = CommitOk" using assms(2) by (simp add: working_def)
  obtain d1 where d1: "(if turn then release_abandoned (pi_env c) d else (Inr (), d)) = (Inr (), d1)"
      "outbox d1 = map (released turn now) (outbox d)" "db_ok d1"
    using release_turn [OF commit, of turn d] assms(1) unfolding now_def by blast
  obtain x d2 where claim: "claim_batch s worker (pi_env c) (pi_visible c) d1 = (x, d2)"
    by (cases "claim_batch s worker (pi_env c) (pi_visible c) d1")
  from claim_turn [OF d1(3) assms(2,3) claim] obtain items where x: "x = Inr items" and ok2: "db_ok d2"
    and rows2: "outbox d2 = upd_where (\<lambda>r. ob_outbox_id r \<in> ox_outbox_id ` set items) (row_claimed worker now) (outbox d1)"
    and due: "\<And>r. r \<in> set (outbox d1) \<Longrightarrow> ob_outbox_id r \<in> ox_outbox_id ` set items \<Longrightarrow> claimable now r"
    and counts: "\<And>i q. i \<in> set items \<Longrightarrow> q \<in> set (outbox d2) \<Longrightarrow> ob_outbox_id q = ox_outbox_id i \<Longrightarrow> ob_attempts q = ox_attempts i"
    and some: "\<And>r. r \<in> set (outbox d1) \<Longrightarrow> claimable now r \<Longrightarrow> items \<noteq> []"
    unfolding now_def by blast
  have answers: "fst ` set (pi_answers c items) = set items" "\<forall>a \<in> set (pi_answers c items). usable failing c a"
    using assms(2) by (simp_all add: working_def)
  have "\<forall>a \<in> set (pi_answers c items). \<forall>q \<in> set (outbox d2). ob_outbox_id q = ox_outbox_id (fst a) \<longrightarrow> ob_attempts q = ox_attempts (fst a)"
    using counts answers(1) by blast
  from gather_settles [OF answers(2) this, of s str_of] obtain d3 where
    g: "gather s str_of (pi_answers c items) d2 = (Inr (), d3)"
    and rows3: "list_all2 (settled s failing (pi_until c + max_delay s) (ox_outbox_id ` set items)) (outbox d2) (outbox d3)"
    unfolding answers(1) by blast
  have run: "poll_cycle s str_of worker n (pi_env c) (pi_visible c) (pi_answers c) d = (Inr (), d3)"
    using answers(1) g by (cases "items = []") (simp_all add: poll_cycle_def d1(1) [unfolded turn_def] claim x)
  have "ox_outbox_id ` set items \<subseteq> ob_outbox_id ` set (outbox d2)"
    using claim_batch_Inr(2) [OF claim [unfolded x]] by (force simp: to_item_def)
  also have "\<dots> = ob_outbox_id ` set (outbox d)"
    by (simp add: rows2 d1(2) image_upd_where row_claimed_id image_image)
  finally have ids: "ox_outbox_id ` set items \<subseteq> ob_outbox_id ` set (outbox d)" .
  have one: "items \<noteq> []" if "r \<in> set (outbox d)" "claimable now r" for r
  proof (rule some)
    show "released turn now r \<in> set (outbox d1)" using that(1) by (simp add: d1(2))
    show "claimable now (released turn now r)"
      using that(2) by (auto simp: released_def claimable_def abandoned_def)
  qed
  have rows: "list_all2 (stepped s failing (pi_until c + max_delay s) turn now (ox_outbox_id ` set items)) (outbox d) (outbox d3)"
    by (rule stepped_rows [OF d1(2) rows2 rows3]) (rule due)
  show thesis by (rule that [OF run gather_ok [OF g ok2] rows ids]) (rule one)
qed

lemma stepped_backlog:
  assumes rows: "list_all2 (stepped s failing b turn now ids) (outbox d) (outbox d')"
    and "i \<in> ids" and "ids \<subseteq> ob_outbox_id ` set (outbox d)"
  shows "backlog s d' + 1 \<le> backlog s d"
proof -
  let ?g = "\<lambda>r. if ob_outbox_id r \<in> ids then 1 else 0 :: nat"
  obtain p where "p \<in> set (outbox d)" "ob_outbox_id p \<in> ids" using assms(2,3) by auto
  then have "1 \<le> sum_list (map ?g (outbox d))"
    using member_le_sum_list [of "?g p" "map ?g (outbox d)"] by force
  moreover have "list_all2 (\<lambda>r q. weight s q + ?g r \<le> weight s r) (outbox d) (outbox d')"
    by (rule list_all2_mono [OF rows]) (simp add: stepped_def)
  ultimately show ?thesis using sum_list_less [of "weight s" ?g "outbox d" "outbox d'"] by (simp add: backlog_def)
qed

lemma stepped_quiet:
  assumes "list_all2 (stepped s failing b True now ids) (outbox d) (outbox d')"
    and "\<forall>r \<in> set (outbox d). ob_status r = ObIN_FLIGHT \<longrightarrow> abandoned now stale_lock_seconds r"
    and "q \<in> set (outbox d')"
  shows "ob_status q \<noteq> ObIN_FLIGHT"
proof
  assume fl: "ob_status q = ObIN_FLIGHT"
  obtain r where "r \<in> set (outbox d)" "stepped s failing b True now ids r q"
    using list_all2_mem2 [OF assms(1,3)] by blast
  with fl assms(2) show False by (auto simp: stepped_def released_def row_released_def split: if_splits)
qed

lemma poll_turn:
  assumes "db_ok d" and "working failing c" and "1 \<le> dispatch_batch_size s"
    and "\<forall>r \<in> set (outbox d). waiting r \<longrightarrow> ob_next_attempt_at r \<le> db_now (de_clock (pi_env c))"
  defines "now \<equiv> db_now (de_clock (pi_env c))" and "b \<equiv> pi_until c + max_delay s"
  shows "\<exists>d'. poll_cycle s str_of worker n (pi_env c) (pi_visible c) (pi_answers c) d = (Inr (), d')
    \<and> db_ok d' \<and> list_all2 (turned s failing b) (outbox d) (outbox d')
    \<and> ((\<exists>r \<in> set (outbox d). ob_status r = ObPENDING) \<longrightarrow> backlog s d' + 1 \<le> backlog s d)
    \<and> (n mod release_stale_every_n_cycles = 0
        \<and> (\<forall>r \<in> set (outbox d). ob_status r = ObIN_FLIGHT \<longrightarrow> abandoned now stale_lock_seconds r) \<longrightarrow>
       (\<forall>q \<in> set (outbox d'). ob_status q \<noteq> ObIN_FLIGHT))"
proof -
  obtain d' and items :: "outbox_item list" where run: "poll_cycle s str_of worker n (pi_env c) (pi_visible c) (pi_answers c) d = (Inr (), d')"
      and ok: "db_ok d'"
      and rows: "list_all2 (stepped s failing b (n mod release_stale_every_n_cycles = 0) now (ox_outbox_id ` set items))
        (outbox d) (outbox d')"
      and ids: "ox_outbox_id ` set items \<subseteq> ob_outbox_id ` set (outbox d)"
      and one: "\<And>r. r \<in> set (outbox d) \<Longrightarrow> claimable now r \<Longrightarrow> items \<noteq> []"
    unfolding now_def b_def using poll_turn_run [OF assms(1-3), where n = n] by blast
  have turned: "list_all2 (turned s failing b) (outbox d) (outbox d')"
    by (rule list_all2_mono [OF rows]) (simp add: stepped_def)
  have "backlog s d' + 1 \<le> backlog s d" if "r \<in> set (outbox d)" "ob_status r = ObPENDING" for r
  proof -
    have "claimable now r" using that assms(4) by (simp add: claimable_def waiting_def now_def)
    with one that(1) obtain i where "i \<in> set items" by (cases items) auto
    with stepped_backlog [OF rows _ ids] show ?thesis by blast
  qed
  then have less: "(\<exists>r \<in> set (outbox d). ob_status r = ObPENDING) \<longrightarrow> backlog s d' + 1 \<le> backlog s d" by blast
  have quiet: "n mod release_stale_every_n_cycles = 0
        \<and> (\<forall>r \<in> set (outbox d). ob_status r = ObIN_FLIGHT \<longrightarrow> abandoned now stale_lock_seconds r) \<longrightarrow>
       (\<forall>q \<in> set (outbox d'). ob_status q \<noteq> ObIN_FLIGHT)"
    using stepped_quiet [where d = d and d' = d'] rows by auto
  show ?thesis by (rule exI [of _ d']) (intro conjI run ok turned less quiet)
qed

section \<open>The loop makes progress\<close>

definition due_by :: "ts \<Rightarrow> db \<Rightarrow> bool" where
  "due_by t d \<longleftrightarrow> (\<forall>r \<in> set (outbox d). waiting r \<longrightarrow> ob_next_attempt_at r \<le> t)"

definition quiet :: "db \<Rightarrow> bool" where
  "quiet d \<longleftrightarrow> (\<forall>r \<in> set (outbox d). ob_status r \<noteq> ObIN_FLIGHT)"

definition stale_by :: "ts \<Rightarrow> db \<Rightarrow> bool" where
  "stale_by t d \<longleftrightarrow> (\<forall>r \<in> set (outbox d). ob_status r = ObIN_FLIGHT \<longrightarrow> abandoned t stale_lock_seconds r)"

primrec pace_end :: "settings \<Rightarrow> ts \<Rightarrow> poll_input list \<Rightarrow> ts" where
  "pace_end s t [] = t"
| "pace_end s t (c # cs) = pace_end s (pi_until c + max_delay s) cs"

lemma paced_append: "paced s t (xs @ ys) \<longleftrightarrow> paced s t xs \<and> paced s (pace_end s t xs) ys"
  by (induction xs arbitrary: t) auto

lemma pace_end_le: "paced s t cs \<Longrightarrow> t \<le> pace_end s t cs"
  by (induction cs arbitrary: t) force+

lemma poll_append:
  "poll_until_stopped s str_of worker n (xs @ ys) d =
    (case poll_until_stopped s str_of worker n xs d of
       (Inl x, d1) \<Rightarrow> (Inl x, d1)
     | (Inr _, d1) \<Rightarrow> poll_until_stopped s str_of worker (n + length xs) ys d1)"
  by (induction xs arbitrary: n d) (auto split: prod.splits sum.splits)

lemma list_all2_turned_trans:
  assumes "list_all2 (turned s failing b) xs ys" and "list_all2 (turned s failing c) ys zs" and "b \<le> c"
  shows "list_all2 (turned s failing c) xs zs"
  by (rule list_all2_trans [OF _ assms(1,2)]) (rule turned_trans [OF _ _ assms(3)])

lemma turned_due: "due_by t d \<Longrightarrow> list_all2 (turned s failing b) (outbox d) (outbox d') \<Longrightarrow> t \<le> b \<Longrightarrow> due_by b d'"
  unfolding due_by_def by (fastforce dest: list_all2_mem2 turnedD(3,4))

lemma turned_quiet: "quiet d \<Longrightarrow> list_all2 (turned s failing b) (outbox d) (outbox d') \<Longrightarrow> quiet d'"
  unfolding quiet_def by (metis list_all2_mem2 turnedD(5))

lemma turned_stale:
  assumes "stale_by t d" and "list_all2 (turned s failing b) (outbox d) (outbox d')" and "t \<le> u"
  shows "stale_by u d'"
  unfolding stale_by_def
proof (intro ballI impI)
  fix q
  assume q: "q \<in> set (outbox d')" "ob_status q = ObIN_FLIGHT"
  with list_all2_mem2 [OF assms(2)] obtain r where "r \<in> set (outbox d)" "turned s failing b r q" by blast
  with q(2) turnedD(5) assms(1) have "abandoned t stale_lock_seconds q" by (metis stale_by_def)
  with assms(3) show "abandoned u stale_lock_seconds q" by (auto simp: abandoned_def split: option.splits)
qed

lemma turned_backlog:
  assumes "list_all2 (turned s failing b) (outbox d) (outbox d')"
  shows "backlog s d' \<le> backlog s d"
proof -
  have "list_all2 (\<lambda>r q. weight s q + 0 \<le> weight s r) (outbox d) (outbox d')"
    by (rule list_all2_mono [OF assms]) (simp add: turnedD(2))
  from sum_list_less [OF this] show ?thesis by (simp add: backlog_def)
qed

lemma turned_all_refl: "list_all2 (turned s failing b) rs rs"
  by (simp add: list_all2_same turned_refl)

lemma poll_step:
  assumes "db_ok d" and "working failing c" and "1 \<le> dispatch_batch_size s" and "due_by t d" and "paced s t [c]"
  shows "\<exists>d'. poll_cycle s str_of worker n (pi_env c) (pi_visible c) (pi_answers c) d = (Inr (), d')
    \<and> db_ok d' \<and> due_by (pi_until c + max_delay s) d'
    \<and> list_all2 (turned s failing (pi_until c + max_delay s)) (outbox d) (outbox d')
    \<and> ((\<exists>r \<in> set (outbox d). ob_status r = ObPENDING) \<longrightarrow> backlog s d' + 1 \<le> backlog s d)
    \<and> (n mod release_stale_every_n_cycles = 0 \<and> stale_by t d \<longrightarrow> quiet d')"
proof -
  have now: "t \<le> db_now (de_clock (pi_env c))" "t \<le> pi_until c + max_delay s" using assms(5) by simp_all
  have "\<forall>r \<in> set (outbox d). waiting r \<longrightarrow> ob_next_attempt_at r \<le> db_now (de_clock (pi_env c))"
    using assms(4) now(1) by (force simp: due_by_def)
  from poll_turn [OF assms(1-3) this, of str_of worker n] obtain d' where
    run: "poll_cycle s str_of worker n (pi_env c) (pi_visible c) (pi_answers c) d = (Inr (), d')" "db_ok d'"
    and rows: "list_all2 (turned s failing (pi_until c + max_delay s)) (outbox d) (outbox d')"
    and less: "(\<exists>r \<in> set (outbox d). ob_status r = ObPENDING) \<longrightarrow> backlog s d' + 1 \<le> backlog s d"
    and release: "n mod release_stale_every_n_cycles = 0
        \<and> (\<forall>r \<in> set (outbox d). ob_status r = ObIN_FLIGHT \<longrightarrow> abandoned (db_now (de_clock (pi_env c))) stale_lock_seconds r) \<longrightarrow>
       (\<forall>q \<in> set (outbox d'). ob_status q \<noteq> ObIN_FLIGHT)"
    by (elim exE conjE)
  have fresh: "quiet d'" if "n mod release_stale_every_n_cycles = 0" "stale_by t d"
    using release that(1) turned_stale [OF that(2) turned_all_refl now(1)]
    unfolding quiet_def stale_by_def by blast
  show ?thesis
    by (rule exI [of _ d']) (intro conjI impI run turned_due [OF assms(4) rows now(2)] rows less [rule_format];
      (elim conjE, erule (1) fresh)?)
qed

lemma poll_runs:
  assumes "db_ok d" and "\<forall>c \<in> set cs. working failing c" and "1 \<le> dispatch_batch_size s" and "due_by t d" and "paced s t cs"
  shows "\<exists>d'. poll_until_stopped s str_of worker n cs d = (Inr (), d') \<and> db_ok d' \<and> due_by (pace_end s t cs) d'
    \<and> list_all2 (turned s failing (pace_end s t cs)) (outbox d) (outbox d')
    \<and> (quiet d \<and> backlog s d \<le> length cs \<longrightarrow> (\<forall>r \<in> set (outbox d'). \<not> waiting r))"
  using assms(1,2,4,5)
proof (induction cs arbitrary: n d t)
  case Nil
  have "\<not> waiting r" if "backlog s d = 0" "r \<in> set (outbox d)" for r
    using that member_le_sum_list [of "weight s r" "map (weight s) (outbox d)"]
    by (auto simp: backlog_def weight_def split: if_splits)
  then show ?case using Nil by (auto intro: turned_all_refl)
next
  case (Cons c cs)
  let ?b = "pi_until c + max_delay s"
  have work: "working failing c" "\<forall>c \<in> set cs. working failing c" and pace: "paced s t [c]" "paced s ?b cs"
    using Cons.prems(2,4) by simp_all
  obtain d1 where one: "poll_cycle s str_of worker (n + 1) (pi_env c) (pi_visible c) (pi_answers c) d = (Inr (), d1)"
      "db_ok d1" "due_by ?b d1" "list_all2 (turned s failing ?b) (outbox d) (outbox d1)"
    and less: "(\<exists>r \<in> set (outbox d). ob_status r = ObPENDING) \<longrightarrow> backlog s d1 + 1 \<le> backlog s d"
    using poll_step [OF Cons.prems(1) work(1) assms(3) Cons.prems(3) pace(1), where str_of = str_of and worker = worker and n = "n + 1"]
    by (elim exE conjE)
  from Cons.IH [OF one(2) work(2) one(3) pace(2), of "n + 1"] obtain d' where
    rest: "poll_until_stopped s str_of worker (n + 1) cs d1 = (Inr (), d')" "db_ok d'" "due_by (pace_end s ?b cs) d'"
      "list_all2 (turned s failing (pace_end s ?b cs)) (outbox d1) (outbox d')"
    and drained: "quiet d1 \<and> backlog s d1 \<le> length cs \<longrightarrow> (\<forall>r \<in> set (outbox d'). \<not> waiting r)"
    by (elim exE conjE)
  have done1: "\<forall>r \<in> set (outbox d'). \<not> waiting r" if q: "quiet d" and k: "backlog s d \<le> length (c # cs)"
  proof -
    have "backlog s d1 \<le> length cs"
    proof (cases "\<exists>r \<in> set (outbox d). ob_status r = ObPENDING")
      case True
      with less k show ?thesis by simp
    next
      case False
      then have "weight s r = 0" if "r \<in> set (outbox d)" for r
        using q that by (auto simp: weight_def waiting_def quiet_def)
      then have "backlog s d = 0" by (simp add: backlog_def)
      with turned_backlog [OF one(4)] show ?thesis by simp
    qed
    with drained turned_quiet [OF q one(4)] show ?thesis by blast
  qed
  have rows: "list_all2 (turned s failing (pace_end s t (c # cs))) (outbox d) (outbox d')"
    using list_all2_turned_trans [OF one(4) rest(4) pace_end_le [OF pace(2)]] by simp
  have run: "poll_until_stopped s str_of worker n (c # cs) d = (Inr (), d')"
    using one(1) rest(1) by simp
  show ?case
    by (rule exI [of _ d']) (intro conjI run rest(2) rows impI; (use rest(3) done1 in simp)?)
qed

text \<open>Within sixty turns comes one that releases the stale locks; after it nothing is in flight.\<close>

lemma next_release:
  obtains k where "k + 1 \<le> release_stale_every_n_cycles" and "(n + k + 1) mod release_stale_every_n_cycles = 0"
proof
  let ?k = "release_stale_every_n_cycles - 1 - n mod release_stale_every_n_cycles"
  have round_up: "m + (60 - 1 - r) + 1 = 60 * (q + 1)" if "q * 60 + r = m" "r < 60" for q r m :: nat
    using that by auto
  have "n + ?k + 1 = 60 * (n div 60 + 1)"
    unfolding release_stale_every_n_cycles_def by (rule round_up) simp_all
  then show "(n + ?k + 1) mod release_stale_every_n_cycles = 0"
    by (simp only: mod_mult_self1_is_0 release_stale_every_n_cycles_def)
  show "?k + 1 \<le> release_stale_every_n_cycles" by (simp add: release_stale_every_n_cycles_def)
qed

lemma poll_until_quiet:
  assumes "db_ok d" and "1 \<le> dispatch_batch_size s" and "\<forall>c \<in> set cs. working failing c"
    and "due_by t d" and "stale_by t d" and "paced s t cs" and "release_stale_every_n_cycles \<le> length cs"
  obtains pre post d' where "cs = pre @ post" and "length pre \<le> release_stale_every_n_cycles"
    and "poll_until_stopped s str_of worker n pre d = (Inr (), d')" and "db_ok d'" and "quiet d'"
    and "due_by (pace_end s t pre) d'" and "list_all2 (turned s failing (pace_end s t pre)) (outbox d) (outbox d')"
proof -
  obtain k where k: "k + 1 \<le> release_stale_every_n_cycles" "(n + k + 1) mod release_stale_every_n_cycles = 0"
    by (rule next_release)
  then have "k < length cs" using assms(7) by simp
  then have cs: "cs = take k cs @ cs ! k # drop (Suc k) cs" and len: "length (take k cs) = k"
    by (simp_all add: id_take_nth_drop [symmetric])
  define pre c post where "pre = take k cs" and "c = cs ! k" and "post = drop (Suc k) cs"
  note cs = cs [folded pre_def c_def post_def] and len = len [folded pre_def]
  let ?t = "pace_end s t pre" and ?b = "pi_until c + max_delay s"
  have pace: "paced s t pre" "paced s ?t [c]" using assms(6) by (subst (asm) cs, simp add: paced_append)+
  have work: "\<forall>c \<in> set pre. working failing c" "working failing c"
    using assms(3) by (subst (asm) cs, simp)+
  obtain d1 where one: "poll_until_stopped s str_of worker n pre d = (Inr (), d1)" "db_ok d1" "due_by ?t d1"
      "list_all2 (turned s failing ?t) (outbox d) (outbox d1)"
    using poll_runs [OF assms(1) work(1) assms(2,4) pace(1), of str_of worker n] by blast
  obtain d2 where two: "poll_cycle s str_of worker (n + k + 1) (pi_env c) (pi_visible c) (pi_answers c) d1 = (Inr (), d2)"
      "db_ok d2" "due_by ?b d2" "list_all2 (turned s failing ?b) (outbox d1) (outbox d2)"
    and release: "(n + k + 1) mod release_stale_every_n_cycles = 0 \<and> stale_by ?t d1 \<longrightarrow> quiet d2"
    using poll_step [OF one(2) work(2) assms(2) one(3) pace(2), where str_of = str_of and worker = worker and n = "n + k + 1"]
    by (elim exE conjE)
  have last: "pace_end s t (pre @ [c]) = ?b" by (induction pre arbitrary: t) simp_all
  show thesis
  proof
    show "cs = (pre @ [c]) @ post" by (simp flip: cs)
    show "length (pre @ [c]) \<le> release_stale_every_n_cycles" using k(1) len by simp
    show "poll_until_stopped s str_of worker n (pre @ [c]) d = (Inr (), d2)"
      using one(1) two(1) by (simp add: poll_append len)
    show "quiet d2"
      by (rule release [rule_format, OF conjI [OF k(2) turned_stale [OF assms(5) one(4) pace_end_le [OF pace(1)]]]])
    show "list_all2 (turned s failing (pace_end s t (pre @ [c]))) (outbox d) (outbox d2)"
      unfolding last by (rule list_all2_turned_trans [OF one(4) two(4)]) (use pace(2) in simp)
  qed (simp_all add: last two)
qed

text \<open>
  C5. The outbox drains. Let the loop run against a database with any backlog, messages that a dead
  worker left in flight included, with answers of the ERP that can be read and commits that succeed,
  each turn after the longest backoff of the turn before. After sixty turns and one for each attempt
  that the waiting messages have left, none waits: every message is SENT or in the dead letters, it is
  the message it was, those that were settled are untouched, and if the ERP takes what it is sent no
  message has become a dead letter.
\<close>

theorem outbox_drains:
  assumes "db_ok d" and "1 \<le> dispatch_batch_size s" and "\<forall>c \<in> set cs. working failing c"
    and "due_by t d" and "stale_by t d" and "paced s t cs"
    and "release_stale_every_n_cycles + backlog s d \<le> length cs"
  shows "\<exists>d'. poll_until_stopped s str_of worker n cs d = (Inr (), d') \<and> db_ok d'
    \<and> (\<forall>q \<in> set (outbox d'). ob_status q \<in> {ObSENT, ObDLQ})
    \<and> list_all2 (\<lambda>r q. same_message r q \<and> (\<not> waiting r \<longrightarrow> q = r)
         \<and> (ob_status q = ObDLQ \<longrightarrow> ob_status r = ObDLQ \<or> failing)) (outbox d) (outbox d')"
proof -
  obtain pre post d1 where cs: "cs = pre @ post" and len: "length pre \<le> release_stale_every_n_cycles"
    and one: "poll_until_stopped s str_of worker n pre d = (Inr (), d1)" "db_ok d1" "quiet d1" "due_by (pace_end s t pre) d1"
      "list_all2 (turned s failing (pace_end s t pre)) (outbox d) (outbox d1)"
    by (rule poll_until_quiet [OF assms(1-6), of str_of worker n]) (use assms(7) in simp)
  let ?t = "pace_end s t pre"
  have pace: "paced s ?t post" and work: "\<forall>c \<in> set post. working failing c"
    using assms(3,6) by (simp_all add: cs paced_append)
  have "backlog s d1 \<le> length post"
    using turned_backlog [OF one(5)] assms(7) len by (simp add: cs)
  with one(3) poll_runs [OF one(2) work assms(2) one(4) pace, of str_of worker "n + length pre"] obtain d2 where
    two: "poll_until_stopped s str_of worker (n + length pre) post d1 = (Inr (), d2)" "db_ok d2"
      "list_all2 (turned s failing (pace_end s ?t post)) (outbox d1) (outbox d2)" "\<forall>r \<in> set (outbox d2). \<not> waiting r"
    by blast
  have run: "poll_until_stopped s str_of worker n cs d = (Inr (), d2)"
    using one(1) two(1) by (simp add: cs poll_append)
  have final: "ob_status q \<in> {ObSENT, ObDLQ}" if "q \<in> set (outbox d2)" for q
    using two(4) that by (cases "ob_status q") (auto simp: waiting_def)
  have rows: "list_all2 (\<lambda>r q. same_message r q \<and> (\<not> waiting r \<longrightarrow> q = r)
         \<and> (ob_status q = ObDLQ \<longrightarrow> ob_status r = ObDLQ \<or> failing)) (outbox d) (outbox d2)"
    by (rule list_all2_mono [OF list_all2_turned_trans [OF one(5) two(3) pace_end_le [OF pace]]])
      (intro conjI impI turnedD; assumption)
  show ?thesis by (rule exI [of _ d2]) (intro conjI ballI run two(2) rows final)
qed

text \<open>One message; an ERP that takes what it is sent, at one turn a minute.\<close>

definition turn_env :: "nat \<Rightarrow> dispatch_env" where
  "turn_env k = \<lparr>de_clock = \<lparr>app_now = 2000 + int k * 60000000, db_now = 2000 + int k * 60000000\<rparr>,
     de_random = 1 / 2, de_fault = CommitOk\<rparr>"

definition delivering :: "nat \<Rightarrow> poll_input" where
  "delivering k = \<lparr>pi_env = turn_env k, pi_visible = (\<lambda>r. True),
     pi_answers = map (\<lambda>i. (i, HttpResponse 201 (Some (JObj [])) '''', turn_env k)), pi_until = 2000 + int k * 60000000\<rparr>"

lemma delivering_works: "working False (delivering k)"
  by (simp add: working_def delivering_def turn_env_def usable_def answer_of_def image_image)

lemma delivering_paced: "paced default_settings (2000 + int k * 60000000) (map delivering [k..<m])"
proof (induction "m - k" arbitrary: k)
  case (Suc j)
  have "max_delay default_settings = 60000000" by (simp add: max_delay_def default_settings_def)
  moreover have "[k..<m] = k # [Suc k..<m]" using Suc.hyps(2) by (simp add: upt_conv_Cons)
  moreover have "paced default_settings (2000 + int (Suc k) * 60000000) (map delivering [Suc k..<m])"
    using Suc.hyps(1) [of "Suc k"] Suc.hyps(2) by simp
  ultimately show ?case by (simp add: delivering_def turn_env_def algebra_simps)
qed simp

theorem outbox_drains_witness:
  "\<exists>d'. poll_until_stopped default_settings (\<lambda>j. '''') ''d1'' 0 (map delivering [0..<70]) db_3 = (Inr (), d')
    \<and> map ob_status (outbox d') = [ObSENT]"
proof -
  have rows: "map ob_status (outbox db_3) = [ObPENDING]" "list_all (\<lambda>x. x \<le> 2000) (map ob_next_attempt_at (outbox db_3))"
    "map ob_attempts (outbox db_3) = [0]"
    by code_simp+
  then obtain r where r: "outbox db_3 = [r]" "ob_status r = ObPENDING" "ob_next_attempt_at r \<le> 2000" "ob_attempts r = 0"
    by (auto simp: map_eq_Cons_conv)
  have start: "due_by 2000 db_3" "stale_by 2000 db_3" "release_stale_every_n_cycles + backlog default_settings db_3 \<le> length (map delivering [0..<70])"
    using r by (simp_all add: due_by_def stale_by_def backlog_def weight_def release_stale_every_n_cycles_def default_settings_def)
  have "1 \<le> dispatch_batch_size default_settings" "paced default_settings 2000 (map delivering [0..<70])"
    using delivering_paced [of 0 70] by (simp_all add: default_settings_def)
  from outbox_drains [OF db_ok_samples(3) this(1) _ start(1,2) this(2) start(3), where failing = False
      and str_of = "\<lambda>j. ''''" and worker = "''d1''" and n = 0]
  obtain d' where run: "poll_until_stopped default_settings (\<lambda>j. '''') ''d1'' 0 (map delivering [0..<70]) db_3 = (Inr (), d')"
    and final: "\<forall>q \<in> set (outbox d'). ob_status q \<in> {ObSENT, ObDLQ}"
      "list_all2 (\<lambda>r q. same_message r q \<and> (\<not> waiting r \<longrightarrow> q = r)
         \<and> (ob_status q = ObDLQ \<longrightarrow> ob_status r = ObDLQ \<or> False)) (outbox db_3) (outbox d')"
    using delivering_works by auto
  have "length (outbox d') = 1" using list_all2_lengthD [OF final(2)] r(1) by simp
  then obtain q where q: "outbox d' = [q]" by (auto simp: length_Suc_conv)
  have "ob_status q = ObDLQ \<longrightarrow> ob_status r = ObDLQ \<or> False"
    using final(2) unfolding r(1) q list.rel_inject by (elim conjE)
  with final(1) r(2) have "map ob_status (outbox d') = [ObSENT]" by (auto simp: q)
  show ?thesis by (rule exI [of _ d']) (intro conjI run; fact)
qed

end
