(* ===== verification/Reports.thy ===== *)
theory Reports
  imports Measurements Verify_Report Orm_Models
begin

text \<open>
  The texts the program composes: the SQL of the bulk load, the table of the benchmark, the summary of
  the load test and the scoreboard of the demo. A float is the rational it stands for; its formats round
  half to even.
\<close>

section \<open>Formats\<close>

definition round_half_even :: "rat \<Rightarrow> int" where
  "round_half_even x =
     (let n = \<lfloor>x\<rfloor>; r = x - of_int n in if r > 1 / 2 \<or> (r = 1 / 2 \<and> odd n) then n + 1 else n)"

text \<open>\<open>f"{x:.kf}"\<close> and \<open>f"{x:,.0f}"\<close> of a value that is not negative.\<close>

definition fixed :: "nat \<Rightarrow> rat \<Rightarrow> string" where
  "fixed k x =
     (let n = round_half_even (x * 10 ^ k) in
      nat_str (nat (n div 10 ^ k)) @ (if k = 0 then [] else ''.'' @ zero_pad k (n mod 10 ^ k)))"

definition rounded_with_commas :: "rat \<Rightarrow> string" where
  "rounded_with_commas x = with_commas (nat (round_half_even x))"

definition pad_right :: "nat \<Rightarrow> string \<Rightarrow> string" where
  "pad_right w s = s @ replicate (w - length s) (CHR '' '')"

definition pad_left :: "nat \<Rightarrow> string \<Rightarrow> string" where
  "pad_left w s = replicate (w - length s) (CHR '' '') @ s"

definition newline :: string where "newline = [CHR 0x0A]"

lemma round_half_even_near: "\<bar>of_int (round_half_even x) - x\<bar> \<le> 1 / 2"
proof (cases "round_half_even x = \<lfloor>x\<rfloor> + 1")
  case True
  then have "x - of_int \<lfloor>x\<rfloor> \<ge> 1 / 2"
    by (simp add: round_half_even_def Let_def split: if_splits) linarith
  moreover have "x - of_int \<lfloor>x\<rfloor> < 1" by linarith
  ultimately show ?thesis by (simp only: True of_int_add of_int_1)
next
  case False
  then have "round_half_even x = \<lfloor>x\<rfloor>" "x - of_int \<lfloor>x\<rfloor> \<le> 1 / 2"
    by (simp_all add: round_half_even_def Let_def split: if_splits)
  moreover have "x - of_int \<lfloor>x\<rfloor> \<ge> 0" by linarith
  ultimately show ?thesis by (simp only: \<open>round_half_even x = \<lfloor>x\<rfloor>\<close>)
qed

lemma round_half_even_int [simp]: "round_half_even (of_int n) = n"
  by (simp add: round_half_even_def)

section \<open>The SQL of the bulk load\<close>

fun join :: "string \<Rightarrow> string list \<Rightarrow> string" where
  "join sep [] = []"
| "join sep [x] = x"
| "join sep (x # y # ys) = x @ sep @ join sep (y # ys)"

definition insert_statement :: "string \<Rightarrow> string" where
  "insert_statement table =
     (let placeholders = join '', '' (replicate (length columns) ''?'') in
      ''INSERT INTO '' @ table @ '' ('' @ join '', '' columns @ '') VALUES ('' @ placeholders @ '')'')"

definition fact_columns :: string where
  "fact_columns =
     newline @ ''    order_uid, client_uid, client_document, order_date, channel,''
     @ newline @ ''    payment_method, status, sku, product_name, category, quantity,''
     @ newline @ ''    unit_price, freight_amount, total_amount, state, city'' @ newline"

text \<open>The names a column list of a statement gives, white space apart.\<close>

definition blank :: "char \<Rightarrow> bool" where
  "blank c \<longleftrightarrow> c = CHR '' '' \<or> c = CHR 0x0A"

fun names_of :: "string \<Rightarrow> string \<Rightarrow> string list" where
  "names_of acc [] = [rev acc]"
| "names_of acc (c # cs) =
     (if c = CHR '','' then rev acc # names_of [] cs
      else if blank c then names_of acc cs else names_of (c # acc) cs)"

lemma fact_columns_names: "names_of [] fact_columns = columns"
  by code_simp

lemma insert_columns_names: "names_of [] (join '', '' columns) = columns"
  by code_simp

lemma count_join: "CHR ''?'' \<notin> set sep \<Longrightarrow> length (filter (\<lambda>c. c = CHR ''?'') (join sep xs))
  = sum_list (map (\<lambda>x. length (filter (\<lambda>c. c = CHR ''?'') x)) xs)"
  by (induction sep xs rule: join.induct) (auto simp: filter_empty_conv)

text \<open>One placeholder for each column, so a row of the generator binds all of them.\<close>

lemma insert_statement_placeholders:
  assumes "CHR ''?'' \<notin> set table"
  shows "length (filter (\<lambda>c. c = CHR ''?'') (insert_statement table)) = length columns"
proof -
  have "list_all (\<lambda>x. CHR ''?'' \<notin> set x) columns" by code_simp
  then have "sum_list (map (\<lambda>x. length (filter (\<lambda>c. c = CHR ''?'') x)) columns) = 0"
    by (auto simp: list_all_iff filter_empty_conv)
  moreover have "filter (\<lambda>c. c = CHR ''?'') table = []" using assms by (auto simp: filter_empty_conv)
  ultimately show ?thesis
    by (simp add: insert_statement_def Let_def count_join sum_list_replicate)
qed

lemma statements_fit_the_tables:
  "names_of [] fact_columns = map cd_name (td_columns staging_table)"
  "set (names_of [] fact_columns) \<subseteq> cd_name ` set (td_columns fact_table)"
proof -
  have "map cd_name (td_columns staging_table) = columns"
    "list_all (\<lambda>n. n \<in> set (map cd_name (td_columns fact_table))) columns" by code_simp+
  then show "names_of [] fact_columns = map cd_name (td_columns staging_table)"
    "set (names_of [] fact_columns) \<subseteq> cd_name ` set (td_columns fact_table)"
    by (auto simp: fact_columns_names list_all_iff)
qed

section \<open>The benchmark's table (airflow/dags/ecommerce/benchmark.py)\<close>

text \<open>The projection to ten million rows; a measurement of no time has none.\<close>

definition projected_time :: "measurement \<Rightarrow> string" where
  "projected_time m =
     (if rows_per_second m = 0 then ''inf h''
      else let projected = 10000000 / rows_per_second m in
        if projected < 36000 then fixed 1 (projected / 60) @ '' min'' else fixed 1 (projected / 3600) @ '' h'')"

definition table_width :: nat where "table_width = 38"

definition benchmark_row :: "measurement \<Rightarrow> string" where
  "benchmark_row m = printed (pad_right table_width (ms_label m) @ '' '' @ pad_left 10 (with_commas (nat (ms_rows m)))
     @ '' '' @ pad_left 10 (fixed 2 (ms_seconds m)) @ '' '' @ pad_left 12 (rounded_with_commas (rows_per_second m))
     @ '' '' @ pad_left 12 (projected_time m))"

definition benchmark_table :: "measurement list \<Rightarrow> exn + string" where
  "benchmark_table ms =
     (if ms = [] then Inl IndexError
      else Inr (printed []
        @ printed (pad_right table_width ''estrategia'' @ '' '' @ pad_left 10 ''linhas'' @ '' '' @ pad_left 10 ''segundos''
            @ '' '' @ pad_left 12 ''linhas/s'' @ '' '' @ pad_left 12 ''10M em'')
        @ printed (replicate (table_width + 48) (CHR ''-''))
        @ concat (map benchmark_row ms)
        @ printed (replicate (table_width + 48) (CHR ''-''))
        @ printed (''pico de memoria do processo: '' @ fixed 0 (ms_peak_memory_mb (last ms)) @ '' MB'')
        @ printed (''BULK INSERT e a referencia ('' @ rounded_with_commas (rows_per_second (hd ms)) @ '' linhas/s).'')
        @ printed ''A projecao de 10M e extrapolacao linear -- a medicao real usa a DAG.''))"

section \<open>The summary of the load test (scripts/loadtest.py)\<close>

text \<open>\<open>None\<close> is the division by a measured time of zero, which raises in the middle of the summary.\<close>

definition loadtest_summary :: "load_stats \<Rightarrow> rat \<Rightarrow> string option" where
  "loadtest_summary st elapsed =
     (if elapsed = 0 then None
      else Some (printed (newline @ replicate 60 (CHR ''=''))
        @ printed ('' eventos aceitos ........ '' @ with_commas (nat (ls_aceitos st)))
        @ printed ('' tempo .................. '' @ fixed 2 elapsed @ ''s'')
        @ printed ('' vazao .................. '' @ rounded_with_commas (of_int (ls_aceitos st) / elapsed) @ '' eventos/s'')
        @ printed ('' HTTP 202 ............... '' @ with_commas (nat (ls_http_202 st)))
        @ printed ('' HTTP 429 (backpressure)  '' @ with_commas (nat (ls_http_429 st)))
        @ printed ('' erros .................. '' @ with_commas (nat (ls_erro st)))
        @ printed (replicate 60 (CHR ''=''))
        @ printed ('' 429 nao e falha: e a borda pedindo ao parceiro para diminuir o ritmo.'' @ newline)))"

section \<open>The scoreboard of the demo (scripts/demo.py)\<close>

definition verificacoes :: "(string \<times> string) list" where
  "verificacoes =
     [(''Ingestao ponta a ponta'', ''webhook -> Redis Stream -> SQL Server''),
      (''Idempotencia'', ''duplicatas nao geram pedido nem faturamento repetido''),
      (''Integracao com o ERP'', ''pedido aprovado entregue apesar das falhas injetadas''),
      (''Imutabilidade'', ''banco recusa alteracao retroativa em pedido fechado''),
      (''Historico de cadastro'', ''endereco versiona e o pedido mantem a versao antiga'')]"

definition score_line :: "(string \<times> string) \<times> bool \<Rightarrow> string" where
  "score_line p = (case p of ((titulo, detalhe), ok) \<Rightarrow>
     printed (newline @ ''  ['' @ (if ok then ''PASSOU'' else ''FALHOU'') @ '']  '' @ titulo)
     @ printed (''            '' @ detalhe))"

text \<open>\<open>zip(..., strict=True)\<close> raises when the lengths differ, after the pairs were printed.\<close>

definition scoreboard_text :: "bool list \<Rightarrow> (string + unit) \<times> string" where
  "scoreboard_text rs =
     (let shown = printed (newline @ replicate 74 (CHR ''='')) @ printed (center 74 '' RESULTADO'')
            @ printed (replicate 74 (CHR ''='')) @ concat (map score_line (zip verificacoes rs)) in
      if length rs \<noteq> length verificacoes then (Inl ''zip() arguments have different lengths'', shown)
      else (Inr (), shown @ printed (newline @ replicate 74 (CHR ''-''))
        @ printed (''  '' @ nat_str (length (filter id rs)) @ '' de '' @ nat_str (length rs) @ '' verificacoes passaram'')
        @ printed (replicate 74 (CHR ''='') @ newline)))"

text \<open>Each check is printed under its title with its own result, and the count is that of the passed ones.\<close>

lemma scoreboard_line:
  assumes "length rs = length verificacoes" and "i < length rs"
  shows "\<exists>before after. snd (scoreboard_text rs) = before @ score_line (verificacoes ! i, rs ! i) @ after"
proof -
  have "zip verificacoes rs = take i (zip verificacoes rs) @ (verificacoes ! i, rs ! i) # drop (Suc i) (zip verificacoes rs)"
    using assms id_take_nth_drop [of i "zip verificacoes rs"] by simp
  then have "concat (map score_line (zip verificacoes rs)) = concat (map score_line (take i (zip verificacoes rs)))
      @ score_line (verificacoes ! i, rs ! i) @ concat (map score_line (drop (Suc i) (zip verificacoes rs)))"
    by (metis concat.simps(2) concat_append list.simps(9) map_append)
  then show ?thesis using assms(1)
    by (simp add: scoreboard_text_def Let_def) (metis append.assoc)
qed

lemma scoreboard_of_five: "length rs = 5 \<Longrightarrow> fst (scoreboard_text rs) = Inr ()"
  by (simp add: scoreboard_text_def Let_def verificacoes_def)

end
