(* ===== verification/Spec2Isabelle.thy ===== *)
theory Spec2Isabelle
  imports Settings Processor_Claims Handler_Claims History_Claims Trigger_Claims Ingest_Claims
    Dispatch_Claims Attempts_Claims Erp_Claims Webhook_Claims Bulk_Claims Typing Delivery_Run Pipeline_Claims
    Seed Verify_Claims Connections Measurements Demo_Claims Logging Orm_Models Inserts
    Migration_Env Dispatch_Progress Reports
begin

text \<open>
  A verification library of the e-commerce integration platform in src/ of this repository.

  The program. Partners post events to a webhook API (src/webhook_api), which buffers them and
  publishes batches to a Redis stream (src/shared/messaging/publisher.py). Ingest workers
  (src/ingest_worker) read the stream through a consumer group (src/shared/messaging/consumer.py), pass
  each event through three barriers against duplicates (a Redis claim, a ledger row, the unique keys
  of the tables) and apply it in one transaction. The approval of a payment stores a message in an
  outbox table in the same transaction. Dispatch workers (src/dispatch_worker) claim those messages,
  send them to an ERP with an idempotency key and record the outcome. src/erp_mock is a double of that
  ERP. airflow/dags loads a synthetic order history in chunks of CSV.

  The theories, in the order in which they build on each other.
  Prelude: programs over a state that may raise (the shape of every stateful definition), rules that
  carry invariants, growth and bounds on exceptions through them, and two locales for preorders of
  steps and for invariants of a transition system.
  Enums, Events, Order_Payload, Settings: src/shared/domain and src/shared/config.py.
  Schema: the tables of src/shared/db/models.py and migrations/versions/0001_core_schema.py with their
  sizes, keys, references and IDENTITY counters, and the triggers of 0002_immutability_triggers.py.
  Repositories: src/shared/db/repositories.py, one definition per query and write.
  Handlers: src/ingest_worker/handlers. Dedupe: src/shared/messaging/dedupe.py. Processor:
  src/shared/db/uow.py and src/ingest_worker/processor.py.
  Streams, Ingest_Worker: the consumer, the publisher and src/ingest_worker/main.py.
  Dispatch: outbox_reader.py, erp_client.py and main.py of src/dispatch_worker. Erp_Mock:
  src/erp_mock/main.py.
  Webhook_Api: buffer.py, backpressure.py, main.py and api/routes.py of src/webhook_api.
  Csv, Bulk_Load, Bulk_Dag: the csv module as it is used, catalog.py and generator.py, bulk_loader.py
  and load_order_history_dag.py.
  System: ingestion, dispatch and the ERP as one step relation. Typing: the sizes and ranges of the
  columns along its runs. Provenance: which accepted events rows stem from. Pipeline: the webhook API, the
  stream and any number of ingest workers in front of System, with their deaths and restarts.
  Delivery_Run: the run the witnesses use.
  Connections: src/shared/db/engine.py, airflow/dags/ecommerce/db.py and scripts/bootstrap.py. Seed:
  scripts/seed.py. Verify_Report and Verify_Claims: scripts/verify.py, over the states System reaches.
  Measurements: airflow/dags/ecommerce/benchmark.py and scripts/loadtest.py. Demo and Demo_Claims:
  scripts/demo.py over a deployment that moves by the steps of System (the locales \<open>deployment\<close> and \<open>platform\<close>), and one
  such deployment on which the whole script is evaluated. Logging: src/shared/logging.py.
  Catalog: databases as catalogues of tables, indexes and triggers, and what DDL does to them, with a frame rule.
  Migrations: src/migrations/versions as its statements. Orm_Models: what the classes of src/shared/db/models.py
  declare, compared with the migrations. Inserts: the INSERT that a table definition prescribes, which those of
  Schema are proved to follow. Migration_Env: src/migrations/env.py. Dispatch_Progress: the loop of the dispatch
  worker and the number of turns after which the outbox is empty of waiting messages. Reports: the SQL of the bulk load and the
  texts that the benchmark, the load test and the scoreboard of the demo print.

  The state. A database is the record \<open>db\<close> of the tables as lists of rows and their counters; a unit of
  work carries the durable database and the session's. A Python call that may raise is a function to
  a sum and the state it leaves, which a rollback needs. Redis, the stream server, the HTTP answer, the
  random source and SQL Server's CSV reader are parameters, and so are the operator's deployment and the server behind its scripts; where a property needs more of them than
  their type, it names a documented law (\<open>redis_laws\<close> in Dedupe, \<open>xadd_law\<close>, \<open>xack_law\<close> and \<open>xlen_law\<close> in
  Streams, \<open>feed_law\<close>, \<open>delivery_law\<close> and \<open>round_trip_law\<close> in Pipeline, \<open>rng_law\<close> in Bulk_Load, \<open>bulk_csv_law\<close> in Bulk_Dag,
  \<open>stage_law\<close> in Demo_Claims), and its witness has a concrete
  instance. Clocks, commit faults (refused, or in doubt after it happened), the rows that the server
  picks and the order of concurrent completions are arguments that the properties quantify over.

  What the lemmas show. Db_Invariants and Repo_Invariants: the invariant \<open>db_ok\<close> of the database (keys,
  references, one current version per address, order totals, closing dates, one message per order that
  left PENDING, column sizes) and that every repository call keeps it. Db_Growth: nothing that was
  recorded is lost. Handler_Proofs: the four handlers under one contract, the locale \<open>event_handler\<close>.
  Processor_Proofs: what one call of \<open>process\<close> can do under every fault. Dispatch_Proofs: every
  transaction of the dispatch side changes outbox rows only and keeps the messages, and the locale
  \<open>outbox_handler\<close> of what handlers do to messages. Webhook_Claims: the clients of the publisher's
  contract (the locale \<open>event_publisher\<close> of Webhook_Api, which the Redis publisher provides over every
  server that keeps the laws, the locale \<open>redis_server\<close>). Bulk_Proofs: plans, cells, and what each task
  adds to the staging table. System: an invariant of all the parts together, by the locale
  \<open>invariant_system\<close>. Typing: the same locale for the types of the columns. Pipeline: the same for a deployment, the locale
  \<open>deployed\<close>, over a server that hands out what was appended to it, the locale \<open>log_server\<close>. The theories with Claims in their names hold the properties; the last one is below.

  Bounds and fuel. The loops of the workers are runs of any given number of cycles or sequences of
  steps; the number is an argument and the properties hold for all of them. The demo's polling is a partial
  function whose return is proved from the clock of the deployment. Every other loop is structural or has
  a measure. Integers are Python's. Money is an integer of ten-thousandths, as the
  columns store it; times are integers of microseconds; floats are rationals.

  Abstractions. Texts are byte strings, compared exactly where the server's collation may ignore case.
  A statement reaches the database where the code builds it, not at the flush. SQL Server's locking
  appears as the argument that says which rows a claim sees, and the transactions of concurrent workers
  as steps in some order. Pydantic's decoding of JSON is a parameter; the constraints its models
  declare are definitions. The mapped tasks of the DAG run one after the other, their inserts commute.

  Not modelled: the calls that log, the logging section of alembic.ini, and the progress that the steps of
  the demo print; which revisions Alembic picks and how Settings reads the environment, of which
  Connections names the law it needs; the relationships of the mapped classes, which only name what the queries
  of Repositories do; the wiring of the processes (the construction of clients, argument parsing, signal handlers)
  beyond the end of a loop.
\<close>

section \<open>End to end\<close>

text \<open>
  C2. In every state that the ingest worker, any number of dispatch workers and the ERP reach
  together from an empty database, with any interleaving, clocks, faults of commits, losses of
  answers, deaths of workers and loss of Redis: an order has exactly one outbox message once it has
  left PENDING and none before; a message marked SENT is registered at the ERP under its key, with its
  order's id; and the ERP knows no order but those the database holds as approved or later.
\<close>

theorem delivery_end_to_end:
  assumes "\<forall>u. str_of (JStr u) = u" and "start_system y0" and "(system_step s p str_of)\<^sup>*\<^sup>* y0 y"
  shows "(\<forall>o1 \<in> set (orders (sy_db y)). length (messages_for (or_order_uid o1) (outbox (sy_db y)))
          = (if or_status o1 = OrdPENDING then 0 else 1))
    \<and> (\<forall>r \<in> set (outbox (sy_db y)). ob_status r = ObSENT \<longrightarrow>
         (\<exists>rec1. already_received (idempotency_key (to_item r)) (sy_erp y) = Some rec1
            \<and> ek_order_uid rec1 = ob_aggregate_id r))
    \<and> (\<forall>(uid, eid) \<in> set (erp_id_by_order (sy_erp y)).
         \<exists>o1 \<in> set (orders (sy_db y)). or_order_uid o1 = uid \<and> or_status o1 \<noteq> OrdPENDING)"
proof -
  have inv: "system_inv str_of y" using assms(2,3) by (rule delivery.reachable_inv)
  then have ok: "db_ok (sy_db y)" and erp: "erp_ok str_of (sy_erp y) (sy_db y)"
    and sent: "outbox_all (sent_ok (erp_keys (sy_erp y))) (sy_db y)"
    by (simp_all add: system_inv_def)
  show ?thesis
    using db_okD(6) [OF ok] sent_is_registered [OF ok erp sent] registered_is_approved [OF ok erp] assms(1)
    unfolding db_notified_def by auto
qed


theorem delivery_end_to_end_witness:
  "\<exists>r rec1. r \<in> set (outbox (sy_db last_state)) \<and> ob_status r = ObSENT \<and> ob_aggregate_id r = ''O1''
    \<and> already_received (idempotency_key (to_item r)) (sy_erp last_state) = Some rec1
    \<and> ek_order_uid rec1 = ''O1''"
proof -
  have law: "\<forall>u. json_str (JStr u) = u" by (simp add: json_str_def)
  have start: "start_system first_state" by (simp add: start_system_def first_state_def)
  obtain r where "r \<in> set (outbox (sy_db last_state))" "ob_status r = ObSENT" "ob_aggregate_id r = ''O1''"
    using last_db_eval by (auto simp: last_state_def)
  with delivery_end_to_end [OF law start sample_run_reaches] show ?thesis by fastforce
qed


end
